(* ===== verification/Prelude.thy ===== *)
theory Prelude
  imports Main "HOL-Library.Word" "HOL-Library.Multiset"
begin

text \<open>
  Shared vocabulary of the development: the types that name the Go values the
  components exchange, the rule collections the component proofs share, and
  generic lemmas on lists and machine words.

  \<^item> A Go \<open>rune\<close> produced by \<open>[]rune(s)\<close> is a Unicode code point; it is a
    \<open>nat\<close> here (the decoder never produces a negative rune).
  \<^item> A text, after decoding, is a list of runes; Go indexes it with \<open>int\<close>, so
    slices take \<open>int\<close> bounds.
  \<^item> A \<open>float32\<close> is kept as its IEEE-754 bit pattern, a \<open>32 word\<close>: the code
    only stores, serialises and compares vectors, and the cosine score is
    computed by the store, outside the program.
\<close>

type_synonym rune = nat
type_synonym runes = "rune list"
type_synonym byte = "8 word"
type_synonym f32 = "32 word"
type_synonym embedding = "f32 list"

text \<open>ASCII literals as runes, for examples: \<open>[]rune(s)\<close> of an ASCII string.\<close>

definition runes_of :: "string \<Rightarrow> runes" where
  "runes_of s = map of_char s"

named_theorems chunker_simps "unfolding rules of the chunker's loop helpers"
named_theorems store_simps "unfolding rules of the document store operations"

subsection \<open>Slices with Go's \<open>int\<close> bounds\<close>

text \<open>\<open>runes[lo:hi]\<close> for \<open>0 \<le> lo \<le> hi \<le> len(runes)\<close> (the only slices the
  code takes).\<close>

definition go_slice :: "'a list \<Rightarrow> int \<Rightarrow> int \<Rightarrow> 'a list" where
  "go_slice xs lo hi = take (nat hi - nat lo) (drop (nat lo) xs)"

lemma length_slice [simp]:
  "0 \<le> lo \<Longrightarrow> lo \<le> hi \<Longrightarrow> hi \<le> int (length xs) \<Longrightarrow> length (go_slice xs lo hi) = nat (hi - lo)"
  by (simp add: go_slice_def)

lemma slice_append_slice:
  assumes "0 \<le> a" "a \<le> b" "b \<le> c" "c \<le> int (length xs)"
  shows "go_slice xs a b @ go_slice xs b c = go_slice xs a c"
proof -
  have c: "nat c - nat a = (nat b - nat a) + (nat c - nat b)" and b: "nat a + (nat b - nat a) = nat b"
    using assms by simp_all
  have "take (nat c - nat a) (drop (nat a) xs)
        = take (nat b - nat a) (drop (nat a) xs) @ take (nat c - nat b) (drop (nat b) xs)"
    unfolding c take_add drop_drop by (simp add: b add.commute)
  then show ?thesis by (simp add: go_slice_def)
qed

lemma drop_slice:
  "0 \<le> a \<Longrightarrow> a \<le> b \<Longrightarrow> b \<le> c \<Longrightarrow> drop (nat (b - a)) (go_slice xs a c) = go_slice xs b c"
  by (simp add: go_slice_def drop_take nat_diff_distrib' add.commute)

lemma slice_to_end:
  "0 \<le> a \<Longrightarrow> go_slice xs a (int (length xs)) = drop (nat a) xs"
  by (simp add: go_slice_def)

lemma slice_append_drop:
  "0 \<le> a \<Longrightarrow> a \<le> b \<Longrightarrow> b \<le> int (length xs) \<Longrightarrow> go_slice xs a b @ drop (nat b) xs = drop (nat a) xs"
  using slice_append_slice [of a b "int (length xs)" xs] by (simp add: slice_to_end)

lemma nth_slice:
  "0 \<le> lo \<Longrightarrow> lo \<le> i \<Longrightarrow> i < hi \<Longrightarrow> hi \<le> int (length xs) \<Longrightarrow>
   go_slice xs lo hi ! nat (i - lo) = xs ! nat i"
  by (simp add: go_slice_def nat_diff_distrib')

subsection \<open>\<open>ORDER BY key DESC\<close>\<close>

text \<open>A stable descending sort: an element goes before the first one whose key is
  not larger, so rows with equal keys keep their order.\<close>

fun insort_desc :: "('a \<Rightarrow> 'b::linorder) \<Rightarrow> 'a \<Rightarrow> 'a list \<Rightarrow> 'a list" where
  "insort_desc f x [] = [x]"
| "insort_desc f x (y # ys) = (if f y \<le> f x then x # y # ys else y # insort_desc f x ys)"

fun sort_desc :: "('a \<Rightarrow> 'b::linorder) \<Rightarrow> 'a list \<Rightarrow> 'a list" where
  "sort_desc f [] = []"
| "sort_desc f (x # xs) = insort_desc f x (sort_desc f xs)"

lemma mset_insort_desc [simp]: "mset (insort_desc f x xs) = add_mset x (mset xs)"
  by (induction xs) auto

lemma mset_sort_desc [simp]: "mset (sort_desc f xs) = mset xs"
  by (induction xs) auto

lemma set_sort_desc [simp]: "set (sort_desc f xs) = set xs"
  by (metis mset_sort_desc set_mset_mset)

lemma length_sort_desc [simp]: "length (sort_desc f xs) = length xs"
  by (metis mset_sort_desc size_mset)

lemma set_insort_desc: "set (insort_desc f x xs) = insert x (set xs)"
  by (metis mset_insort_desc set_mset_add_mset_insert set_mset_mset)

lemma sorted_insort_desc:
  "sorted_wrt (\<lambda>a b. f b \<le> f a) xs \<Longrightarrow> sorted_wrt (\<lambda>a b. f b \<le> f a) (insort_desc f x xs)"
  by (induction xs) (auto simp: set_insort_desc)

lemma sorted_sort_desc: "sorted_wrt (\<lambda>a b. f b \<le> f a) (sort_desc f xs)"
  by (induction xs) (simp_all add: sorted_insort_desc)

text \<open>On a list sorted by a descending key, keeping the elements whose key reaches a
  threshold keeps a prefix.\<close>

lemma filter_sorted_desc_takeWhile:
  fixes f :: "'a \<Rightarrow> 'b::linorder"
  shows "sorted_wrt (\<lambda>a b. f b \<le> f a) xs \<Longrightarrow> filter (\<lambda>x. t \<le> f x) xs = takeWhile (\<lambda>x. t \<le> f x) xs"
proof (induction xs)
  case (Cons a xs)
  show ?case
  proof (cases "t \<le> f a")
    case False
    have "\<not> t \<le> f x" if "x \<in> set xs" for x
    proof -
      have "f x \<le> f a" using Cons.prems that by simp
      moreover have "f a < t" using False by (simp add: not_le)
      ultimately show ?thesis by (metis le_less_trans not_le)
    qed
    then have "\<forall>x \<in> set xs. \<not> t \<le> f x" by blast
    with False show ?thesis by (simp add: filter_empty_conv)
  qed (use Cons in simp)
qed simp

subsection \<open>Characters as bytes\<close>

lemma char_of_eq_iff: "(char_of n = c) \<longleftrightarrow> (of_char c :: nat) = n mod 256"
proof
  assume "char_of n = c" then show "(of_char c :: nat) = n mod 256" by (auto simp: of_char_of)
next
  assume a: "(of_char c :: nat) = n mod 256"
  have "char_of n = char_of (n mod 256)" by simp
  then show "char_of n = c" using a by (metis char_of_char)
qed

end
