(* ===== verification/Chunker.thy ===== *)
theory Chunker
  imports Prelude
begin

text \<open>
  The chunker of \<open>src/internal/chunker/chunker.go\<close>: \<open>NewChunker\<close> coerces
  the configuration, \<open>ChunkText\<close> walks a window over the decoded runes and
  \<open>findWordBoundary\<close> pulls each cut back to just past the last whitespace run
  in a bounded scan window. The main loop of \<open>ChunkText\<close> has no termination
  argument for every configuration, so it is modelled with fuel: running out of
  fuel is \<open>None\<close>, the value of a call that never returns.
\<close>

subsection \<open>Data\<close>

record chunker =
  chunkSize :: int
  overlap :: int

record chunk =
  Content :: runes
  Index :: int
  StartOffset :: int
  EndOffset :: int

subsection \<open>Configuration\<close>

definition new_chunker :: "int \<Rightarrow> int \<Rightarrow> chunker" where
  "new_chunker cs ov =
     (let cs1 = (if cs \<le> 0 then 1000 else cs);
          ov1 = (if ov < 0 then 0 else ov);
          ov2 = (if ov1 \<ge> cs1 then cs1 div 2 else ov1)
      in \<lparr>chunkSize = cs1, overlap = ov2\<rparr>)"

subsection \<open>Whitespace\<close>

text \<open>Go's \<open>unicode.IsSpace\<close>: the Latin-1 spaces and the \<open>White_Space\<close>
  property of Unicode.\<close>

definition is_space :: "rune \<Rightarrow> bool" where
  "is_space r \<longleftrightarrow>
     (9 \<le> r \<and> r \<le> 13) \<or> r = 32 \<or> r = 0x85 \<or> r = 0xA0 \<or> r = 0x1680 \<or>
     (0x2000 \<le> r \<and> r \<le> 0x200A) \<or> r = 0x2028 \<or> r = 0x2029 \<or> r = 0x202F \<or>
     r = 0x205F \<or> r = 0x3000"

subsection \<open>findWordBoundary\<close>

text \<open>The backward scan \<open>for i := endPos - 1; i >= scanStart; i--\<close>: the
  position of the last whitespace rune, or \<open>-1\<close>.\<close>

function last_space :: "runes \<Rightarrow> int \<Rightarrow> int \<Rightarrow> int" where
  "last_space rs i scanStart =
     (if i \<ge> scanStart then
        (if is_space (rs ! nat i) then i else last_space rs (i - 1) scanStart)
      else -1)"
  by pat_completeness auto
termination
  by (relation "measure (\<lambda>(rs, i, s). nat (i - s + 1))") auto

text \<open>The forward skip \<open>for splitPos < endPos && unicode.IsSpace(runes[splitPos])\<close>.\<close>

function skip_space :: "runes \<Rightarrow> int \<Rightarrow> int \<Rightarrow> int" where
  "skip_space rs splitPos endPos =
     (if splitPos < endPos \<and> is_space (rs ! nat splitPos)
      then skip_space rs (splitPos + 1) endPos else splitPos)"
  by pat_completeness auto
termination
  by (relation "measure (\<lambda>(rs, p, e). nat (e - p))") auto

declare last_space.simps [simp del] skip_space.simps [simp del]

definition find_word_boundary :: "chunker \<Rightarrow> runes \<Rightarrow> int \<Rightarrow> int \<Rightarrow> int" where
  "find_word_boundary c rs startPos endPos =
     (let maxScanBack = (if 100 > chunkSize c then chunkSize c else 100);
          scanStart0 = endPos - maxScanBack;
          scanStart = (if scanStart0 < startPos then startPos else scanStart0);
          lastWhitespace = last_space rs (endPos - 1) scanStart
      in if lastWhitespace \<ge> 0 then skip_space rs (lastWhitespace + 1) endPos
         else endPos)"

subsection \<open>ChunkText\<close>

text \<open>The cut of one iteration (lines 63--73): the window end \<open>endPos\<close>, pulled
  back to a word boundary when it is not the end of the text.\<close>

definition window_end :: "chunker \<Rightarrow> runes \<Rightarrow> int \<Rightarrow> int" where
  "window_end c rs position =
     (let totalLen = int (length rs);
          endPos = (if position + chunkSize c > totalLen then totalLen
                    else position + chunkSize c)
      in if endPos < totalLen then find_word_boundary c rs position endPos else endPos)"

text \<open>One iteration of the \<open>for position < totalLen\<close> loop per unit of fuel.
  The chunk list is built front to back, as the \<open>append\<close> of the source does.\<close>

fun chunk_loop :: "nat \<Rightarrow> chunker \<Rightarrow> runes \<Rightarrow> int \<Rightarrow> int \<Rightarrow> chunk list option" where
  "chunk_loop 0 c rs position chunkIndex = None"
| "chunk_loop (Suc fuel) c rs position chunkIndex =
     (let totalLen = int (length rs) in
      if position < totalLen then
        (let actualEnd = window_end c rs position;
             ch = \<lparr>Content = go_slice rs position actualEnd, Index = chunkIndex,
                   StartOffset = position, EndOffset = actualEnd\<rparr>
         in if actualEnd \<ge> totalLen then Some [ch]
            else (let next = actualEnd - overlap c;
                      position' = (if next < 0 then 0 else next)
                  in map_option (Cons ch) (chunk_loop fuel c rs position' (chunkIndex + 1))))
      else Some [])"

definition chunk_text :: "nat \<Rightarrow> chunker \<Rightarrow> runes \<Rightarrow> chunk list option" where
  "chunk_text fuel c rs =
     (if rs = [] then Some []
      else (let totalLen = int (length rs) in
            if totalLen \<le> chunkSize c
            then Some [\<lparr>Content = rs, Index = 0, StartOffset = 0, EndOffset = totalLen\<rparr>]
            else chunk_loop fuel c rs 0 0))"


subsection \<open>Specification predicates\<close>

text \<open>A configuration is well formed when it is what \<open>NewChunker\<close> returns; it
  lets every cut make progress when the overlap is at most the part of the window
  that the backward scan of \<open>findWordBoundary\<close> cannot reach.\<close>

definition chunker_wf :: "chunker \<Rightarrow> bool" where
  "chunker_wf c \<longleftrightarrow> 0 < chunkSize c \<and> 0 \<le> overlap c \<and> overlap c < chunkSize c"

definition chunker_progress :: "chunker \<Rightarrow> bool" where
  "chunker_progress c \<longleftrightarrow>
     0 < chunkSize c \<and> 0 \<le> overlap c \<and> overlap c + min 100 (chunkSize c) \<le> chunkSize c"

text \<open>The chunk that one iteration emits for the window starting at \<open>p\<close>.\<close>

abbreviation cut_chunk :: "runes \<Rightarrow> int \<Rightarrow> int \<Rightarrow> int \<Rightarrow> chunk" where
  "cut_chunk rs p e idx \<equiv> \<lparr>Content = go_slice rs p e, Index = idx, StartOffset = p, EndOffset = e\<rparr>"

text \<open>Terminating runs of the main loop, as a relation: one rule per exit of the
  loop body.\<close>

inductive loop_run :: "chunker \<Rightarrow> runes \<Rightarrow> int \<Rightarrow> int \<Rightarrow> chunk list \<Rightarrow> bool" where
  stop: "\<not> p < int (length rs) \<Longrightarrow> loop_run c rs p idx []"
| last: "p < int (length rs) \<Longrightarrow> window_end c rs p \<ge> int (length rs) \<Longrightarrow>
         loop_run c rs p idx [cut_chunk rs p (window_end c rs p) idx]"
| more: "p < int (length rs) \<Longrightarrow> window_end c rs p < int (length rs) \<Longrightarrow>
         loop_run c rs (max 0 (window_end c rs p - overlap c)) (idx + 1) chs \<Longrightarrow>
         loop_run c rs p idx (cut_chunk rs p (window_end c rs p) idx # chs)"

text \<open>What the spec promises of each chunk, of two consecutive chunks, and of a
  cut that is not the end of the text.\<close>

definition chunk_ok :: "chunker \<Rightarrow> runes \<Rightarrow> chunk \<Rightarrow> bool" where
  "chunk_ok c rs ch \<longleftrightarrow>
     0 \<le> StartOffset ch \<and> StartOffset ch < EndOffset ch \<and> EndOffset ch \<le> int (length rs) \<and>
     EndOffset ch - StartOffset ch \<le> chunkSize c \<and>
     Content ch = go_slice rs (StartOffset ch) (EndOffset ch)"

definition chunk_link :: "chunker \<Rightarrow> chunk \<Rightarrow> chunk \<Rightarrow> bool" where
  "chunk_link c a b \<longleftrightarrow> Index b = Index a + 1 \<and> StartOffset b = max 0 (EndOffset a - overlap c)"

definition cut_at_boundary :: "chunker \<Rightarrow> runes \<Rightarrow> chunk \<Rightarrow> bool" where
  "cut_at_boundary c rs ch \<longleftrightarrow>
     EndOffset ch - StartOffset ch = chunkSize c \<or> is_space (rs ! nat (EndOffset ch - 1))"

text \<open>The text recovered from a chunk list: each chunk contributes what lies beyond
  the end of its predecessor.\<close>

fun reassemble :: "int \<Rightarrow> chunk list \<Rightarrow> runes" where
  "reassemble e [] = []"
| "reassemble e (ch # chs) = drop (nat (e - StartOffset ch)) (Content ch) @ reassemble (EndOffset ch) chs"

text \<open>A text on which the loop makes no progress when the configuration
  violates \<open>chunker_progress\<close>: a word, one space at the start of the scan
  window, then a word longer than the window.\<close>

definition stuck_text :: "chunker \<Rightarrow> runes" where
  "stuck_text c = replicate (nat (chunkSize c - min 100 (chunkSize c))) 97 @ [32] @
                  replicate (nat (chunkSize c)) 97"

subsection \<open>The scans of findWordBoundary\<close>

lemma last_space_found:
  assumes "last_space rs i s \<noteq> -1" "0 \<le> s"
  shows "s \<le> last_space rs i s \<and> last_space rs i s \<le> i \<and> is_space (rs ! nat (last_space rs i s))"
  using assms
proof (induction rs i s rule: last_space.induct)
  case (1 rs i s)
  then show ?case
    by (cases "s \<le> i"; cases "is_space (rs ! nat i)") (auto simp: last_space.simps [of rs i s])
qed

lemma last_space_none:
  assumes "last_space rs i s = -1" "0 \<le> s" "s \<le> j" "j \<le> i"
  shows "\<not> is_space (rs ! nat j)"
  using assms
proof (induction rs i s rule: last_space.induct)
  case (1 rs i s)
  show ?case
  proof (cases "j = i")
    case True
    with "1.prems" show ?thesis by (auto simp: last_space.simps [of rs i s] split: if_splits)
  next
    case False
    with "1.prems" "1.IH" show ?thesis by (auto simp: last_space.simps [of rs i s] split: if_splits)
  qed
qed

lemma skip_space_bounds:
  "p \<le> e \<Longrightarrow> p \<le> skip_space rs p e \<and> skip_space rs p e \<le> e"
proof (induction rs p e rule: skip_space.induct)
  case (1 rs p e)
  then show ?case by (auto simp: skip_space.simps [of rs p e])
qed

lemma skip_space_spaces:
  "p \<le> j \<Longrightarrow> j < skip_space rs p e \<Longrightarrow> is_space (rs ! nat j)"
proof (induction rs p e rule: skip_space.induct)
  case (1 rs p e)
  show ?case
  proof (cases "p < e \<and> is_space (rs ! nat p)")
    case True
    with "1.prems" "1.IH" show ?thesis
      by (cases "j = p") (auto simp: skip_space.simps [of rs p e])
  next
    case False
    with "1.prems" show ?thesis by (simp add: skip_space.simps [of rs p e])
  qed
qed

lemma skip_space_stop:
  "skip_space rs p e < e \<Longrightarrow> \<not> is_space (rs ! nat (skip_space rs p e))"
proof (induction rs p e rule: skip_space.induct)
  case (1 rs p e)
  then show ?case by (auto simp: skip_space.simps [of rs p e] split: if_splits)
qed

text \<open>What a cut of \<open>findWordBoundary\<close> satisfies.\<close>

lemma find_word_boundary_bounds:
  fixes rs :: runes
  assumes "0 \<le> startPos" "startPos < endPos" "0 < chunkSize c"
  defines "r \<equiv> find_word_boundary c rs startPos endPos"
  shows "startPos < r \<and> r \<le> endPos \<and> endPos - min 100 (chunkSize c) < r \<and>
         (r = endPos \<or> is_space (rs ! nat (r - 1)))"
proof -
  define ss where "ss = max (endPos - min 100 (chunkSize c)) startPos"
  define lw where "lw = last_space rs (endPos - 1) ss"
  have ss0: "0 \<le> ss" and ss1: "ss < endPos" "startPos \<le> ss" "endPos - min 100 (chunkSize c) \<le> ss"
    using assms by (auto simp: ss_def)
  have r: "r = (if lw \<ge> 0 then skip_space rs (lw + 1) endPos else endPos)"
    unfolding r_def find_word_boundary_def lw_def ss_def Let_def
    by (simp add: max_def min_def not_less)
  show ?thesis
  proof (cases "lw = -1")
    case True
    then show ?thesis using r assms(2,3) by auto
  next
    case False
    then have lw: "ss \<le> lw" "lw \<le> endPos - 1" "is_space (rs ! nat lw)"
      using last_space_found [of rs "endPos - 1" ss] ss0 by (auto simp: lw_def)
    then have r': "r = skip_space rs (lw + 1) endPos" using r ss0 by simp
    have b: "lw + 1 \<le> r" "r \<le> endPos"
      using skip_space_bounds [of "lw + 1" endPos rs] lw by (auto simp: r')
    have "is_space (rs ! nat (r - 1))"
    proof (cases "r = lw + 1")
      case True
      with lw show ?thesis by simp
    next
      case False
      with b show ?thesis
        using skip_space_spaces [of "lw + 1" "r - 1" rs endPos] by (simp add: r')
    qed
    with b lw ss1 show ?thesis by auto
  qed
qed

lemma window_end_bounds:
  fixes rs :: runes
  assumes "0 \<le> p" "p < int (length rs)" "0 < chunkSize c"
  defines "e \<equiv> window_end c rs p"
  shows "p < e \<and> e \<le> int (length rs) \<and> e \<le> p + chunkSize c \<and>
         (e < int (length rs) \<longrightarrow> p + chunkSize c - min 100 (chunkSize c) < e \<and>
            (e = p + chunkSize c \<or> is_space (rs ! nat (e - 1))))"
proof (cases "p + chunkSize c < int (length rs)")
  case True
  then have "e = find_word_boundary c rs p (p + chunkSize c)"
    by (simp add: e_def window_end_def Let_def)
  with find_word_boundary_bounds [of p "p + chunkSize c" c rs] assms True show ?thesis by auto
next
  case False
  then have "e = int (length rs)" by (auto simp: e_def window_end_def Let_def)
  with False assms show ?thesis by auto
qed

lemma chunk_loop_Suc:
  "p < int (length rs) \<Longrightarrow> chunk_loop (Suc f) c rs p idx =
     (if window_end c rs p \<ge> int (length rs) then Some [cut_chunk rs p (window_end c rs p) idx]
      else map_option (Cons (cut_chunk rs p (window_end c rs p) idx))
             (chunk_loop f c rs (max 0 (window_end c rs p - overlap c)) (idx + 1)))"
  by (simp add: Let_def max_def)

lemma chunk_loop_Suc_stop:
  "\<not> p < int (length rs) \<Longrightarrow> chunk_loop (Suc f) c rs p idx = Some []"
  by simp

lemma chunk_loop_numeral:
  "p < int (length rs) \<Longrightarrow> chunk_loop (numeral k) c rs p idx =
     (if window_end c rs p \<ge> int (length rs) then Some [cut_chunk rs p (window_end c rs p) idx]
      else map_option (Cons (cut_chunk rs p (window_end c rs p) idx))
             (chunk_loop (pred_numeral k) c rs (max 0 (window_end c rs p - overlap c)) (idx + 1)))"
  by (simp only: numeral_eq_Suc chunk_loop_Suc)

declare chunk_loop.simps(2) [simp del]

text \<open>The rules that evaluate the chunker on a concrete text.\<close>

declare chunk_text_def [chunker_simps] new_chunker_def [chunker_simps]
  chunk_loop_numeral [chunker_simps] window_end_def [chunker_simps]
  find_word_boundary_def [chunker_simps] last_space.simps [chunker_simps]
  skip_space.simps [chunker_simps] is_space_def [chunker_simps] go_slice_def [chunker_simps]
  runes_of_def [chunker_simps]

subsection \<open>The main loop: fuel, runs, structure\<close>

lemma chunk_loop_hd:
  assumes "chunk_loop f c rs p idx = Some chs" "p < int (length rs)"
  shows "chs \<noteq> [] \<and> hd chs = cut_chunk rs p (window_end c rs p) idx"
  using assms by (cases f) (auto simp: chunk_loop_Suc split: if_splits)

lemma chunk_loop_Some_Suc:
  assumes "chunk_loop (Suc f) c rs p idx = Some chs" "p < int (length rs)"
    "window_end c rs p < int (length rs)"
  obtains chs' where "chs = cut_chunk rs p (window_end c rs p) idx # chs'"
    "chunk_loop f c rs (max 0 (window_end c rs p - overlap c)) (idx + 1) = Some chs'"
  using assms by (auto simp: chunk_loop_Suc)

lemma chunk_loop_fuel_mono:
  "chunk_loop f c rs p idx = Some chs \<Longrightarrow> f \<le> f' \<Longrightarrow> chunk_loop f' c rs p idx = Some chs"
proof (induction f arbitrary: f' p idx chs)
  case 0
  then show ?case by simp
next
  case (Suc f)
  from Suc.prems(2) obtain f'' where f': "f' = Suc f''" "f \<le> f''" by (cases f') auto
  show ?case
  proof (cases "p < int (length rs) \<and> window_end c rs p < int (length rs)")
    case True
    then have p: "p < int (length rs)" and e: "window_end c rs p < int (length rs)" by auto
    obtain chs' where chs: "chs = cut_chunk rs p (window_end c rs p) idx # chs'"
      and rest: "chunk_loop f c rs (max 0 (window_end c rs p - overlap c)) (idx + 1) = Some chs'"
      using chunk_loop_Some_Suc [OF Suc.prems(1) p e] by blast
    from Suc.IH [OF rest f'(2)] True show ?thesis by (simp add: f' chs chunk_loop_Suc)
  next
    case False
    with Suc.prems show ?thesis
      by (cases "p < int (length rs)") (simp_all add: f' chunk_loop_Suc chunk_loop_Suc_stop)
  qed
qed

lemma progress_next:
  assumes "chunker_progress c" "0 \<le> p" "p < int (length rs)" "window_end c rs p < int (length rs)"
  shows "p < max 0 (window_end c rs p - overlap c)"
  using window_end_bounds [of p rs c] assms by (auto simp: chunker_progress_def)

lemma chunk_loop_enough_fuel:
  "chunker_progress c \<Longrightarrow> 0 \<le> p \<Longrightarrow> nat (int (length rs) - p) < fuel \<Longrightarrow>
   \<exists>chs. chunk_loop fuel c rs p idx = Some chs"
proof (induction fuel arbitrary: p idx)
  case 0
  then show ?case by simp
next
  case (Suc fuel)
  show ?case
  proof (cases "p < int (length rs) \<and> window_end c rs p < int (length rs)")
    case True
    let ?p' = "max 0 (window_end c rs p - overlap c)"
    have "p < ?p'" using progress_next [of c p rs] Suc.prems True by simp
    then have "nat (int (length rs) - ?p') < fuel" using Suc.prems True by linarith
    then obtain chs where "chunk_loop fuel c rs ?p' (idx + 1) = Some chs"
      using Suc.IH [of ?p'] Suc.prems by auto
    with True show ?thesis by (simp add: chunk_loop_Suc)
  next
    case False
    then show ?thesis by (cases "p < int (length rs)") (auto simp: chunk_loop_Suc chunk_loop_Suc_stop)
  qed
qed

lemma chunk_loop_run:
  "chunk_loop f c rs p idx = Some chs \<Longrightarrow> loop_run c rs p idx chs"
proof (induction f arbitrary: p idx chs)
  case 0
  then show ?case by simp
next
  case (Suc f)
  show ?case
  proof (cases "p < int (length rs) \<and> window_end c rs p < int (length rs)")
    case True
    then have p: "p < int (length rs)" and e: "window_end c rs p < int (length rs)" by auto
    obtain chs' where chs: "chs = cut_chunk rs p (window_end c rs p) idx # chs'"
      and rest: "chunk_loop f c rs (max 0 (window_end c rs p - overlap c)) (idx + 1) = Some chs'"
      using chunk_loop_Some_Suc [OF Suc.prems p e] by blast
    show ?thesis unfolding chs by (rule loop_run.more [OF p e Suc.IH [OF rest]])
  next
    case False
    with Suc.prems show ?thesis
      by (cases "p < int (length rs)")
        (auto simp: chunk_loop_Suc chunk_loop_Suc_stop intro: loop_run.intros)
  qed
qed

lemma loop_run_chunk_loop:
  "loop_run c rs p idx chs \<Longrightarrow> \<exists>f. chunk_loop f c rs p idx = Some chs"
proof (induction rule: loop_run.induct)
  case (stop p rs c idx)
  then show ?case by (metis chunk_loop_Suc_stop)
next
  case (last p rs c idx)
  then show ?case by (metis chunk_loop_Suc)
next
  case (more p rs c idx chs)
  then obtain f where "chunk_loop f c rs (max 0 (window_end c rs p - overlap c)) (idx + 1) = Some chs"
    by blast
  with more.hyps(1,2) have "chunk_loop (Suc f) c rs p idx = Some (cut_chunk rs p (window_end c rs p) idx # chs)"
    by (simp add: chunk_loop_Suc)
  then show ?case by blast
qed

lemma loop_run_nonempty:
  "loop_run c rs p idx chs \<Longrightarrow> p < int (length rs) \<Longrightarrow>
   chs \<noteq> [] \<and> hd chs = cut_chunk rs p (window_end c rs p) idx"
  by (induction rule: loop_run.induct) auto

lemma loop_run_next_nonempty:
  assumes "loop_run c rs (max 0 (e - overlap c)) idx chs" "0 \<le> overlap c" "0 \<le> e"
    "e < int (length rs)"
  shows "chs \<noteq> [] \<and> hd chs = cut_chunk rs (max 0 (e - overlap c))
           (window_end c rs (max 0 (e - overlap c))) idx"
proof -
  have "max 0 (e - overlap c) < int (length rs)" using assms(2-4) by linarith
  then show ?thesis by (rule loop_run_nonempty [OF assms(1)])
qed

lemma loop_run_ok:
  "loop_run c rs p idx chs \<Longrightarrow> 0 < chunkSize c \<Longrightarrow> 0 \<le> p \<Longrightarrow> list_all (chunk_ok c rs) chs"
proof (induction rule: loop_run.induct)
  case (last p rs c idx)
  then show ?case using window_end_bounds [of p rs c] by (simp add: chunk_ok_def)
next
  case (more p rs c idx chs)
  then show ?case using window_end_bounds [of p rs c] by (simp add: chunk_ok_def)
qed simp

lemma loop_run_index:
  "loop_run c rs p idx chs \<Longrightarrow> map Index chs = map (\<lambda>k. idx + int k) [0..<length chs]"
  by (induction rule: loop_run.induct) (simp_all add: map_upt_Suc add.assoc del: upt_Suc)

lemma loop_run_end:
  "loop_run c rs p idx chs \<Longrightarrow> 0 < chunkSize c \<Longrightarrow> 0 \<le> overlap c \<Longrightarrow> 0 \<le> p \<Longrightarrow>
   p < int (length rs) \<Longrightarrow> EndOffset (last chs) = int (length rs)"
proof (induction rule: loop_run.induct)
  case (last p rs c idx)
  then show ?case using window_end_bounds [of p rs c] by simp
next
  case (more p rs c idx chs)
  let ?p' = "max 0 (window_end c rs p - overlap c)"
  have e: "0 \<le> window_end c rs p" using window_end_bounds [of p rs c] more.prems by simp
  have p': "0 \<le> ?p'" "?p' < int (length rs)" using more.hyps(2) more.prems(2) e by linarith+
  have "chs \<noteq> []" using loop_run_next_nonempty [OF more.hyps(3)] more.hyps(2) more.prems(2) e
    by simp
  with more.IH [OF more.prems(1,2) p'] show ?case by simp
qed simp

lemma loop_run_links:
  "loop_run c rs p idx chs \<Longrightarrow> 0 < chunkSize c \<Longrightarrow> 0 \<le> overlap c \<Longrightarrow> 0 \<le> p \<Longrightarrow>
   successively (chunk_link c) chs"
proof (induction rule: loop_run.induct)
  case (more p rs c idx chs)
  then have "chs \<noteq> [] \<and> hd chs = cut_chunk rs (max 0 (window_end c rs p - overlap c))
       (window_end c rs (max 0 (window_end c rs p - overlap c))) (idx + 1)"
    using window_end_bounds [of p rs c] loop_run_next_nonempty [OF more.hyps(3)] by auto
  with more show ?case by (simp add: successively_Cons chunk_link_def)
qed simp_all

lemma loop_run_boundaries:
  "loop_run c rs p idx chs \<Longrightarrow> 0 < chunkSize c \<Longrightarrow> 0 \<le> overlap c \<Longrightarrow> 0 \<le> p \<Longrightarrow>
   list_all (cut_at_boundary c rs) (butlast chs)"
proof (induction rule: loop_run.induct)
  case (more p rs c idx chs)
  then have "chs \<noteq> []"
    using window_end_bounds [of p rs c] loop_run_next_nonempty [OF more.hyps(3)] by auto
  with more window_end_bounds [of p rs c] show ?case by (auto simp: cut_at_boundary_def)
qed simp_all

lemma progress_end_increases:
  assumes "chunker_progress c" "0 \<le> p" "p < int (length rs)" "window_end c rs p < int (length rs)"
  shows "window_end c rs p < window_end c rs (max 0 (window_end c rs p - overlap c))"
proof -
  let ?e = "window_end c rs p"
  let ?p' = "max 0 (?e - overlap c)"
  have cs: "0 < chunkSize c" "0 \<le> overlap c" "overlap c + min 100 (chunkSize c) \<le> chunkSize c"
    using assms(1) by (auto simp: chunker_progress_def)
  have e: "p < ?e" using window_end_bounds [of p rs c] assms cs by simp
  have p': "0 \<le> ?p'" "?p' < int (length rs)" using assms(4) e assms(2) cs(2) by linarith+
  show ?thesis
    using window_end_bounds [of ?p' rs c] p' cs assms(4) by (cases "?e - overlap c < 0") auto
qed

lemma loop_run_reassemble:
  "loop_run c rs p idx chs \<Longrightarrow> chunker_progress c \<Longrightarrow> 0 \<le> p \<Longrightarrow> p < int (length rs) \<Longrightarrow>
   p \<le> q \<Longrightarrow> q \<le> window_end c rs p \<Longrightarrow> reassemble q chs = drop (nat q) rs"
proof (induction arbitrary: q rule: loop_run.induct)
  case (last p rs c idx)
  have cs: "0 < chunkSize c" using last.prems(1) by (simp add: chunker_progress_def)
  then have "window_end c rs p = int (length rs)" using window_end_bounds [of p rs c] last by simp
  moreover have "nat (q - p) + nat p = nat q" using last.prems(2,4) by simp
  ultimately show ?case using last by (simp add: drop_slice slice_to_end)
next
  case (more p rs c idx chs)
  let ?e = "window_end c rs p"
  let ?p' = "max 0 (?e - overlap c)"
  have cs: "0 < chunkSize c" "0 \<le> overlap c" using more.prems(1) by (auto simp: chunker_progress_def)
  have e: "p < ?e" "?e \<le> int (length rs)" using window_end_bounds [of p rs c] more.prems cs by auto
  have p': "0 \<le> ?p'" "?p' < int (length rs)" "?p' \<le> ?e" using more.hyps(2) e more.prems(2) cs(2)
    by linarith+
  have "?e \<le> window_end c rs ?p'"
    using progress_end_increases [of c p rs] more.prems(1-3) more.hyps(2) by simp
  then have "reassemble ?e chs = drop (nat ?e) rs"
    using more.IH [OF more.prems(1) p'(1,2) p'(3)] by simp
  with more.prems(2-5) e show ?case by (simp add: drop_slice slice_append_drop)
qed simp

lemma chunk_text_Some_cases:
  assumes "chunk_text f c rs = Some chs"
  shows "(rs = [] \<and> chs = []) \<or>
         (rs \<noteq> [] \<and> int (length rs) \<le> chunkSize c \<and>
            chs = [\<lparr>Content = rs, Index = 0, StartOffset = 0, EndOffset = int (length rs)\<rparr>]) \<or>
         (chunkSize c < int (length rs) \<and> loop_run c rs 0 0 chs)"
  using assms chunk_loop_run [of f c rs 0 0 chs]
  by (auto simp: chunk_text_def Let_def split: if_splits)

subsection \<open>Divergence when the configuration allows no progress\<close>

lemma last_space_at:
  "0 \<le> s \<Longrightarrow> s \<le> j \<Longrightarrow> j \<le> i \<Longrightarrow> is_space (rs ! nat j) \<Longrightarrow>
   (\<forall>k. j < k \<and> k \<le> i \<longrightarrow> \<not> is_space (rs ! nat k)) \<Longrightarrow> last_space rs i s = j"
proof (induction rs i s rule: last_space.induct)
  case (1 rs i s)
  then show ?case
    by (cases "j = i") (auto simp: last_space.simps [of rs i s])
qed

lemma skip_space_nonspace:
  "\<not> (p < e \<and> is_space (rs ! nat p)) \<Longrightarrow> skip_space rs p e = p"
  by (simp add: skip_space.simps)

lemma nth_word_space_word:
  "n < a + 1 + b \<Longrightarrow> (replicate a x @ [y] @ replicate b x) ! n = (if n = a then y else x)"
  by (auto simp: nth_append nth_Cons' not_less)

lemma stuck_window:
  assumes "chunker_wf c"
  shows "window_end c (stuck_text c) 0 = chunkSize c - min 100 (chunkSize c) + 1"
proof -
  let ?k = "chunkSize c - min 100 (chunkSize c)"
  let ?rs = "stuck_text c"
  have cs: "0 < chunkSize c" "0 \<le> ?k" using assms by (auto simp: chunker_wf_def)
  have len: "int (length ?rs) = ?k + 1 + chunkSize c" using cs by (simp add: stuck_text_def)
  have atn: "?rs ! n = (if n = nat ?k then 32 else 97)" if "n < length ?rs" for n
    using that nth_word_space_word [of n "nat ?k" "nat (chunkSize c)" 97 32]
    by (simp add: stuck_text_def)
  have at: "?rs ! nat j = (if j = ?k then 32 else 97)" if "0 \<le> j" "j < int (length ?rs)" for j
    using atn [of "nat j"] that cs by (simp add: nat_eq_iff2)
  have sp: "is_space 32" "\<not> is_space 97" by (simp_all add: is_space_def)
  have ls: "last_space ?rs (chunkSize c - 1) ?k = ?k"
    by (rule last_space_at) (use cs len at sp in auto)
  have sk: "skip_space ?rs (?k + 1) (chunkSize c) = ?k + 1"
    by (rule skip_space_nonspace) (use cs len at sp in auto)
  have msb: "(if 100 > chunkSize c then chunkSize c else 100) = min 100 (chunkSize c)"
    by (simp add: min_def)
  have "find_word_boundary c ?rs 0 (chunkSize c) = ?k + 1"
    unfolding find_word_boundary_def Let_def msb using ls sk cs by simp
  then show ?thesis using cs len by (simp add: window_end_def Let_def) (use cs in linarith)
qed

lemma stuck_loop:
  assumes "chunker_wf c" "\<not> chunker_progress c"
  shows "chunk_loop f c (stuck_text c) 0 idx = None"
proof (induction f arbitrary: idx)
  case 0
  then show ?case by simp
next
  case (Suc f)
  let ?k = "chunkSize c - min 100 (chunkSize c)"
  have k: "0 \<le> ?k" "?k < overlap c" "0 < chunkSize c"
    using assms by (auto simp: chunker_wf_def chunker_progress_def)
  have len: "int (length (stuck_text c)) = ?k + 1 + chunkSize c"
    using k by (simp add: stuck_text_def)
  have e: "window_end c (stuck_text c) 0 = ?k + 1" by (rule stuck_window [OF assms(1)])
  have p0: "0 < int (length (stuck_text c))" and e1: "\<not> int (length (stuck_text c)) \<le> ?k + 1"
    using len k by linarith+
  have "max 0 (window_end c (stuck_text c) 0 - overlap c) = 0"
    using e k by simp
  with Suc.IH show ?case
    using e p0 e1 by (simp add: chunk_loop_Suc)
qed


subsection \<open>Properties of ChunkText\<close>

text \<open>Every result of \<open>chunk_text\<close> is one of its three exits.\<close>

lemma chunk_text_enough_fuel:
  "chunker_progress c \<Longrightarrow> \<exists>chs. chunk_text (length rs + 1) c rs = Some chs"
  using chunk_loop_enough_fuel [of c 0 rs "length rs + 1" 0]
  by (auto simp: chunk_text_def Let_def)

lemma chunk_text_stuck:
  "chunker_wf c \<Longrightarrow> \<not> chunker_progress c \<Longrightarrow> chunk_text fuel c (stuck_text c) = None"
  using stuck_loop [of c fuel 0]
  by (auto simp: chunk_text_def chunker_wf_def stuck_text_def Let_def)

lemma single_chunk_ok:
  "rs \<noteq> [] \<Longrightarrow> int (length rs) \<le> chunkSize c \<Longrightarrow>
   chunk_ok c rs \<lparr>Content = rs, Index = 0, StartOffset = 0, EndOffset = int (length rs)\<rparr>"
  by (simp add: chunk_ok_def slice_to_end)

lemma loop_start_window:
  "chunker_wf c \<Longrightarrow> chunkSize c < int (length rs) \<Longrightarrow> 0 \<le> window_end c rs 0"
proof -
  assume "chunker_wf c" "chunkSize c < int (length rs)"
  then have "0 < chunkSize c" "0 < int (length rs)" by (auto simp: chunker_wf_def)
  then show ?thesis using window_end_bounds [of 0 rs c] by simp
qed

text \<open>C1. ChunkText returns on every text exactly when the configuration lets
  every cut make progress: \<open>overlap + min(100, chunkSize) \<le> chunkSize\<close>.
  Otherwise some text (a space at the start of the scan window followed by a long
  word) makes the main loop come back to the same position forever.\<close>

theorem chunk_text_total_iff:
  assumes "chunker_wf c"
  shows "(\<forall>rs. \<exists>fuel chs. chunk_text fuel c rs = Some chs) \<longleftrightarrow> chunker_progress c"
proof
  assume all: "\<forall>rs. \<exists>fuel chs. chunk_text fuel c rs = Some chs"
  show "chunker_progress c"
  proof (rule ccontr)
    assume "\<not> chunker_progress c"
    with all chunk_text_stuck [OF assms] show False by (metis option.distinct(1))
  qed
next
  assume "chunker_progress c"
  then show "\<forall>rs. \<exists>fuel chs. chunk_text fuel c rs = Some chs"
    using chunk_text_enough_fuel by blast
qed

theorem chunk_text_total_iff_witness:
  "chunker_wf (new_chunker 50 10) \<and>
   \<not> (\<forall>rs. \<exists>fuel chs. chunk_text fuel (new_chunker 50 10) rs = Some chs)"
proof -
  have wf: "chunker_wf (new_chunker 50 10)" by (simp add: new_chunker_def chunker_wf_def)
  have "\<not> chunker_progress (new_chunker 50 10)" by (simp add: new_chunker_def chunker_progress_def)
  with chunk_text_total_iff [OF wf] wf show ?thesis by blast
qed

text \<open>C2. Under a configuration that makes progress, the chunk spans, each
  taken beyond the end of its predecessor, concatenate to the original text.\<close>

theorem chunk_text_reconstructs:
  assumes "chunker_progress c" "chunk_text fuel c rs = Some chs"
  shows "reassemble 0 chs = rs"
proof -
  have wf: "chunker_wf c" using assms(1) by (auto simp: chunker_progress_def chunker_wf_def)
  consider "rs = [] \<and> chs = []"
    | "rs \<noteq> [] \<and> chs = [\<lparr>Content = rs, Index = 0, StartOffset = 0, EndOffset = int (length rs)\<rparr>]"
    | "chunkSize c < int (length rs) \<and> loop_run c rs 0 0 chs"
    using chunk_text_Some_cases [OF assms(2)] by blast
  then show ?thesis
  proof cases
    case 3
    then have "0 < int (length rs)" "0 \<le> window_end c rs 0"
      using wf loop_start_window [OF wf] by (auto simp: chunker_wf_def)
    with 3 show ?thesis using loop_run_reassemble [of c rs 0 0 chs 0] assms(1) by simp
  qed auto
qed


text \<open>The text of the chunker's overlap test, chunked without and with overlap.\<close>

lemma overlap_test_no_overlap:
  "chunk_text 10 (new_chunker 20 0) (runes_of ''0123456789 0123456789 0123456789 0123456789'') =
   Some [\<lparr>Content = runes_of ''0123456789 '', Index = 0, StartOffset = 0, EndOffset = 11\<rparr>,
     \<lparr>Content = runes_of ''0123456789 '', Index = 1, StartOffset = 11, EndOffset = 22\<rparr>,
     \<lparr>Content = runes_of ''0123456789 '', Index = 2, StartOffset = 22, EndOffset = 33\<rparr>,
     \<lparr>Content = runes_of ''0123456789'', Index = 3, StartOffset = 33, EndOffset = 43\<rparr>]"
  by (simp add: chunker_simps)

lemma overlap_test_overlap:
  "chunk_text 10 (new_chunker 20 5) (runes_of ''0123456789 0123456789 0123456789 0123456789'') =
   Some [\<lparr>Content = runes_of ''0123456789 '', Index = 0, StartOffset = 0, EndOffset = 11\<rparr>,
     \<lparr>Content = runes_of ''6789 0123456789 '', Index = 1, StartOffset = 6, EndOffset = 22\<rparr>,
     \<lparr>Content = runes_of ''6789 0123456789 '', Index = 2, StartOffset = 17, EndOffset = 33\<rparr>,
     \<lparr>Content = runes_of ''6789 0123456789'', Index = 3, StartOffset = 28, EndOffset = 43\<rparr>]"
  by (simp add: chunker_simps)

lemma wf_20_0: "chunker_wf (new_chunker 20 0)"
  by (simp add: new_chunker_def chunker_wf_def)

lemma wf_20_5: "chunker_wf (new_chunker 20 5)"
  by (simp add: new_chunker_def chunker_wf_def)

theorem chunk_text_reconstructs_witness:
  "chunker_progress (new_chunker 20 0) \<and>
   chunk_text 10 (new_chunker 20 0) (runes_of ''0123456789 0123456789 0123456789 0123456789'') = Some [\<lparr>Content = runes_of ''0123456789 '', Index = 0, StartOffset = 0, EndOffset = 11\<rparr>,
     \<lparr>Content = runes_of ''0123456789 '', Index = 1, StartOffset = 11, EndOffset = 22\<rparr>,
     \<lparr>Content = runes_of ''0123456789 '', Index = 2, StartOffset = 22, EndOffset = 33\<rparr>,
     \<lparr>Content = runes_of ''0123456789'', Index = 3, StartOffset = 33, EndOffset = 43\<rparr>] \<and>
   reassemble 0 [\<lparr>Content = runes_of ''0123456789 '', Index = 0, StartOffset = 0, EndOffset = 11\<rparr>,
     \<lparr>Content = runes_of ''0123456789 '', Index = 1, StartOffset = 11, EndOffset = 22\<rparr>,
     \<lparr>Content = runes_of ''0123456789 '', Index = 2, StartOffset = 22, EndOffset = 33\<rparr>,
     \<lparr>Content = runes_of ''0123456789'', Index = 3, StartOffset = 33, EndOffset = 43\<rparr>] = runes_of ''0123456789 0123456789 0123456789 0123456789''"
proof -
  have p: "chunker_progress (new_chunker 20 0)" by (simp add: new_chunker_def chunker_progress_def)
  show ?thesis
    using p overlap_test_no_overlap chunk_text_reconstructs [OF p overlap_test_no_overlap] by blast
qed

text \<open>C3. Every chunk spans a non-empty range of the text, \<open>0 \<le> start < end \<le> len\<close>,
  no longer than \<open>chunkSize\<close> code points, and its content is exactly that
  range of the text.\<close>

theorem chunk_text_chunks_ok:
  assumes "chunker_wf c" "chunk_text fuel c rs = Some chs"
  shows "list_all (chunk_ok c rs) chs"
  using chunk_text_Some_cases [OF assms(2)] single_chunk_ok [of rs c] loop_run_ok [of c rs 0 0 chs]
    assms(1) by (auto simp: chunker_wf_def)

theorem chunk_text_chunks_ok_witness:
  "chunker_wf (new_chunker 20 5) \<and> chunk_text 10 (new_chunker 20 5) (runes_of ''0123456789 0123456789 0123456789 0123456789'') = Some [\<lparr>Content = runes_of ''0123456789 '', Index = 0, StartOffset = 0, EndOffset = 11\<rparr>,
     \<lparr>Content = runes_of ''6789 0123456789 '', Index = 1, StartOffset = 6, EndOffset = 22\<rparr>,
     \<lparr>Content = runes_of ''6789 0123456789 '', Index = 2, StartOffset = 17, EndOffset = 33\<rparr>,
     \<lparr>Content = runes_of ''6789 0123456789'', Index = 3, StartOffset = 28, EndOffset = 43\<rparr>] \<and>
   list_all (chunk_ok (new_chunker 20 5) (runes_of ''0123456789 0123456789 0123456789 0123456789'')) [\<lparr>Content = runes_of ''0123456789 '', Index = 0, StartOffset = 0, EndOffset = 11\<rparr>,
     \<lparr>Content = runes_of ''6789 0123456789 '', Index = 1, StartOffset = 6, EndOffset = 22\<rparr>,
     \<lparr>Content = runes_of ''6789 0123456789 '', Index = 2, StartOffset = 17, EndOffset = 33\<rparr>,
     \<lparr>Content = runes_of ''6789 0123456789'', Index = 3, StartOffset = 28, EndOffset = 43\<rparr>]"
  using wf_20_5 overlap_test_overlap chunk_text_chunks_ok [OF wf_20_5 overlap_test_overlap] by blast

text \<open>C4. The chunk indices are \<open>0, 1, \<dots>, n-1\<close> with no gap.\<close>

theorem chunk_text_indices:
  assumes "chunk_text fuel c rs = Some chs"
  shows "map Index chs = map int [0..<length chs]"
  using chunk_text_Some_cases [OF assms] loop_run_index [of c rs 0 0 chs] by auto

theorem chunk_text_indices_witness:
  "chunk_text 10 (new_chunker 20 5) (runes_of ''0123456789 0123456789 0123456789 0123456789'') = Some [\<lparr>Content = runes_of ''0123456789 '', Index = 0, StartOffset = 0, EndOffset = 11\<rparr>,
     \<lparr>Content = runes_of ''6789 0123456789 '', Index = 1, StartOffset = 6, EndOffset = 22\<rparr>,
     \<lparr>Content = runes_of ''6789 0123456789 '', Index = 2, StartOffset = 17, EndOffset = 33\<rparr>,
     \<lparr>Content = runes_of ''6789 0123456789'', Index = 3, StartOffset = 28, EndOffset = 43\<rparr>] \<and>
   map Index [\<lparr>Content = runes_of ''0123456789 '', Index = 0, StartOffset = 0, EndOffset = 11\<rparr>,
     \<lparr>Content = runes_of ''6789 0123456789 '', Index = 1, StartOffset = 6, EndOffset = 22\<rparr>,
     \<lparr>Content = runes_of ''6789 0123456789 '', Index = 2, StartOffset = 17, EndOffset = 33\<rparr>,
     \<lparr>Content = runes_of ''6789 0123456789'', Index = 3, StartOffset = 28, EndOffset = 43\<rparr>] = map int [0..<length [\<lparr>Content = runes_of ''0123456789 '', Index = 0, StartOffset = 0, EndOffset = 11\<rparr>,
     \<lparr>Content = runes_of ''6789 0123456789 '', Index = 1, StartOffset = 6, EndOffset = 22\<rparr>,
     \<lparr>Content = runes_of ''6789 0123456789 '', Index = 2, StartOffset = 17, EndOffset = 33\<rparr>,
     \<lparr>Content = runes_of ''6789 0123456789'', Index = 3, StartOffset = 28, EndOffset = 43\<rparr>]]"
  using overlap_test_overlap chunk_text_indices [OF overlap_test_overlap] by blast

text \<open>C5. The chunks of a non-empty text cover it: the first starts at 0, the
  last ends at the length of the text, and each next chunk starts \<open>overlap\<close>
  code points before the end of the previous one (at 0 at the least), with the
  next index.\<close>

theorem chunk_text_covers:
  assumes "chunker_wf c" "chunk_text fuel c rs = Some chs" "rs \<noteq> []"
  shows "chs \<noteq> [] \<and> StartOffset (hd chs) = 0 \<and> EndOffset (last chs) = int (length rs) \<and>
         successively (chunk_link c) chs"
proof -
  have cs: "0 < chunkSize c" "0 \<le> overlap c" using assms(1) by (auto simp: chunker_wf_def)
  consider "chs = [\<lparr>Content = rs, Index = 0, StartOffset = 0, EndOffset = int (length rs)\<rparr>]"
    | "chunkSize c < int (length rs)" "loop_run c rs 0 0 chs"
    using chunk_text_Some_cases [OF assms(2)] assms(3) by blast
  then show ?thesis
  proof cases
    case 2
    then have "0 < int (length rs)" using cs by linarith
    with 2 cs show ?thesis
      using loop_run_nonempty [OF 2(2)] loop_run_end [OF 2(2)] loop_run_links [OF 2(2)] by simp
  qed simp
qed

theorem chunk_text_covers_witness:
  "chunker_wf (new_chunker 20 5) \<and> chunk_text 10 (new_chunker 20 5) (runes_of ''0123456789 0123456789 0123456789 0123456789'') = Some [\<lparr>Content = runes_of ''0123456789 '', Index = 0, StartOffset = 0, EndOffset = 11\<rparr>,
     \<lparr>Content = runes_of ''6789 0123456789 '', Index = 1, StartOffset = 6, EndOffset = 22\<rparr>,
     \<lparr>Content = runes_of ''6789 0123456789 '', Index = 2, StartOffset = 17, EndOffset = 33\<rparr>,
     \<lparr>Content = runes_of ''6789 0123456789'', Index = 3, StartOffset = 28, EndOffset = 43\<rparr>] \<and>
   runes_of ''0123456789 0123456789 0123456789 0123456789'' \<noteq> [] \<and>
   ([\<lparr>Content = runes_of ''0123456789 '', Index = 0, StartOffset = 0, EndOffset = 11\<rparr>,
     \<lparr>Content = runes_of ''6789 0123456789 '', Index = 1, StartOffset = 6, EndOffset = 22\<rparr>,
     \<lparr>Content = runes_of ''6789 0123456789 '', Index = 2, StartOffset = 17, EndOffset = 33\<rparr>,
     \<lparr>Content = runes_of ''6789 0123456789'', Index = 3, StartOffset = 28, EndOffset = 43\<rparr>] \<noteq> [] \<and> StartOffset (hd [\<lparr>Content = runes_of ''0123456789 '', Index = 0, StartOffset = 0, EndOffset = 11\<rparr>,
     \<lparr>Content = runes_of ''6789 0123456789 '', Index = 1, StartOffset = 6, EndOffset = 22\<rparr>,
     \<lparr>Content = runes_of ''6789 0123456789 '', Index = 2, StartOffset = 17, EndOffset = 33\<rparr>,
     \<lparr>Content = runes_of ''6789 0123456789'', Index = 3, StartOffset = 28, EndOffset = 43\<rparr>]) = 0 \<and>
    EndOffset (last [\<lparr>Content = runes_of ''0123456789 '', Index = 0, StartOffset = 0, EndOffset = 11\<rparr>,
     \<lparr>Content = runes_of ''6789 0123456789 '', Index = 1, StartOffset = 6, EndOffset = 22\<rparr>,
     \<lparr>Content = runes_of ''6789 0123456789 '', Index = 2, StartOffset = 17, EndOffset = 33\<rparr>,
     \<lparr>Content = runes_of ''6789 0123456789'', Index = 3, StartOffset = 28, EndOffset = 43\<rparr>]) = int (length (runes_of ''0123456789 0123456789 0123456789 0123456789'')) \<and> successively (chunk_link (new_chunker 20 5)) [\<lparr>Content = runes_of ''0123456789 '', Index = 0, StartOffset = 0, EndOffset = 11\<rparr>,
     \<lparr>Content = runes_of ''6789 0123456789 '', Index = 1, StartOffset = 6, EndOffset = 22\<rparr>,
     \<lparr>Content = runes_of ''6789 0123456789 '', Index = 2, StartOffset = 17, EndOffset = 33\<rparr>,
     \<lparr>Content = runes_of ''6789 0123456789'', Index = 3, StartOffset = 28, EndOffset = 43\<rparr>])"
proof -
  have ne: "runes_of ''0123456789 0123456789 0123456789 0123456789'' \<noteq> []" by (simp add: runes_of_def)
  show ?thesis using wf_20_5 overlap_test_overlap ne chunk_text_covers [OF wf_20_5 overlap_test_overlap ne]
    by blast
qed

text \<open>C6. A chunk that is not the last one ends just after a whitespace rune, or
  it is a full window of \<open>chunkSize\<close> code points (the forced mid-word cut).\<close>

theorem chunk_text_word_cuts:
  assumes "chunker_wf c" "chunk_text fuel c rs = Some chs"
  shows "list_all (cut_at_boundary c rs) (butlast chs)"
  using chunk_text_Some_cases [OF assms(2)] loop_run_boundaries [of c rs 0 0 chs] assms(1)
  by (auto simp: chunker_wf_def)

theorem chunk_text_word_cuts_witness:
  "chunker_wf (new_chunker 20 5) \<and> chunk_text 10 (new_chunker 20 5) (runes_of ''0123456789 0123456789 0123456789 0123456789'') = Some [\<lparr>Content = runes_of ''0123456789 '', Index = 0, StartOffset = 0, EndOffset = 11\<rparr>,
     \<lparr>Content = runes_of ''6789 0123456789 '', Index = 1, StartOffset = 6, EndOffset = 22\<rparr>,
     \<lparr>Content = runes_of ''6789 0123456789 '', Index = 2, StartOffset = 17, EndOffset = 33\<rparr>,
     \<lparr>Content = runes_of ''6789 0123456789'', Index = 3, StartOffset = 28, EndOffset = 43\<rparr>] \<and>
   list_all (cut_at_boundary (new_chunker 20 5) (runes_of ''0123456789 0123456789 0123456789 0123456789'')) (butlast [\<lparr>Content = runes_of ''0123456789 '', Index = 0, StartOffset = 0, EndOffset = 11\<rparr>,
     \<lparr>Content = runes_of ''6789 0123456789 '', Index = 1, StartOffset = 6, EndOffset = 22\<rparr>,
     \<lparr>Content = runes_of ''6789 0123456789 '', Index = 2, StartOffset = 17, EndOffset = 33\<rparr>,
     \<lparr>Content = runes_of ''6789 0123456789'', Index = 3, StartOffset = 28, EndOffset = 43\<rparr>])"
  using wf_20_5 overlap_test_overlap chunk_text_word_cuts [OF wf_20_5 overlap_test_overlap] by blast

text \<open>C7. With a positive overlap, consecutive chunks overlap:
  \<open>chunk[i].end > chunk[i+1].start\<close>.\<close>

theorem chunk_text_overlaps:
  assumes "chunker_wf c" "0 < overlap c" "chunk_text fuel c rs = Some chs"
  shows "successively (\<lambda>a b. StartOffset b < EndOffset a) chs"
proof (cases "rs = []")
  case True
  with chunk_text_Some_cases [OF assms(3)] assms(1) show ?thesis by (auto simp: chunker_wf_def)
next
  case False
  have links: "successively (chunk_link c) chs" and ok: "list_all (chunk_ok c rs) chs"
    using chunk_text_covers [OF assms(1,3) False] chunk_text_chunks_ok [OF assms(1,3)] by auto
  show ?thesis
  proof (rule successively_mono [OF links])
    fix a b assume "a \<in> set chs" "chunk_link c a b"
    with ok assms(2) show "StartOffset b < EndOffset a"
      by (auto simp: chunk_link_def chunk_ok_def list_all_iff)
  qed
qed

theorem chunk_text_overlaps_witness:
  "chunker_wf (new_chunker 20 5) \<and> 0 < overlap (new_chunker 20 5) \<and>
   chunk_text 10 (new_chunker 20 5) (runes_of ''0123456789 0123456789 0123456789 0123456789'') = Some [\<lparr>Content = runes_of ''0123456789 '', Index = 0, StartOffset = 0, EndOffset = 11\<rparr>,
     \<lparr>Content = runes_of ''6789 0123456789 '', Index = 1, StartOffset = 6, EndOffset = 22\<rparr>,
     \<lparr>Content = runes_of ''6789 0123456789 '', Index = 2, StartOffset = 17, EndOffset = 33\<rparr>,
     \<lparr>Content = runes_of ''6789 0123456789'', Index = 3, StartOffset = 28, EndOffset = 43\<rparr>] \<and>
   successively (\<lambda>a b. StartOffset b < EndOffset a) [\<lparr>Content = runes_of ''0123456789 '', Index = 0, StartOffset = 0, EndOffset = 11\<rparr>,
     \<lparr>Content = runes_of ''6789 0123456789 '', Index = 1, StartOffset = 6, EndOffset = 22\<rparr>,
     \<lparr>Content = runes_of ''6789 0123456789 '', Index = 2, StartOffset = 17, EndOffset = 33\<rparr>,
     \<lparr>Content = runes_of ''6789 0123456789'', Index = 3, StartOffset = 28, EndOffset = 43\<rparr>]"
proof -
  have ov: "0 < overlap (new_chunker 20 5)" by (simp add: new_chunker_def)
  show ?thesis using wf_20_5 ov overlap_test_overlap chunk_text_overlaps [OF wf_20_5 ov overlap_test_overlap]
    by blast
qed


text \<open>C8. With the configuration of the chunker's own word-boundary test
  (\<open>chunkSize = 50\<close>, \<open>overlap = 10\<close>), \<open>ChunkText\<close> never returns on a text made of
  one space and a 50-letter word: the cut falls just after the space, the next
  window starts at \<open>max 0 (1 - 10) = 0\<close> again, and the loop appends the same
  chunk forever.\<close>

theorem chunk_text_diverges_test_config:
  "chunk_text fuel (new_chunker 50 10) (32 # replicate 50 97) = None"
proof -
  have wf: "chunker_wf (new_chunker 50 10)" by (simp add: new_chunker_def chunker_wf_def)
  have np: "\<not> chunker_progress (new_chunker 50 10)" by (simp add: new_chunker_def chunker_progress_def)
  have "stuck_text (new_chunker 50 10) = 32 # replicate 50 97"
    by (simp add: stuck_text_def new_chunker_def)
  with chunk_text_stuck [OF wf np, of fuel] show ?thesis by simp
qed

text \<open>C9. With the default configuration of \<open>config.go\<close> (\<open>CHUNK_SIZE = 1000\<close>,
  \<open>OVERLAP = 100\<close>), \<open>ChunkText\<close> returns on every text, within one iteration per
  code point plus one.\<close>

theorem chunk_text_default_total:
  "\<exists>chs. chunk_text (length rs + 1) (new_chunker 1000 100) rs = Some chs"
proof -
  have "chunker_progress (new_chunker 1000 100)" by (simp add: new_chunker_def chunker_progress_def)
  then show ?thesis by (rule chunk_text_enough_fuel)
qed

text \<open>The fuel model of the main loop and the relation of its terminating
  runs agree: a run returns a list exactly when some amount of fuel computes it.\<close>

theorem chunk_loop_runs_iff:
  "(\<exists>fuel. chunk_loop fuel c rs p idx = Some chs) \<longleftrightarrow> loop_run c rs p idx chs"
  using chunk_loop_run loop_run_chunk_loop by blast

text \<open>More fuel never changes a result: the value of \<open>chunk_text\<close> does not
  depend on the fuel once it returns.\<close>

theorem chunk_text_fuel_mono:
  assumes "chunk_text fuel c rs = Some chs" "fuel \<le> fuel'"
  shows "chunk_text fuel' c rs = Some chs"
  using assms chunk_loop_fuel_mono [of fuel c rs 0 0 chs fuel']
  by (auto simp: chunk_text_def Let_def split: if_splits)

theorem chunk_text_fuel_mono_witness:
  "chunk_text 10 (new_chunker 20 5) (runes_of ''0123456789 0123456789 0123456789 0123456789'') = Some [\<lparr>Content = runes_of ''0123456789 '', Index = 0, StartOffset = 0, EndOffset = 11\<rparr>,
     \<lparr>Content = runes_of ''6789 0123456789 '', Index = 1, StartOffset = 6, EndOffset = 22\<rparr>,
     \<lparr>Content = runes_of ''6789 0123456789 '', Index = 2, StartOffset = 17, EndOffset = 33\<rparr>,
     \<lparr>Content = runes_of ''6789 0123456789'', Index = 3, StartOffset = 28, EndOffset = 43\<rparr>] \<and> (10::nat) \<le> 20 \<and>
   chunk_text 20 (new_chunker 20 5) (runes_of ''0123456789 0123456789 0123456789 0123456789'') = Some [\<lparr>Content = runes_of ''0123456789 '', Index = 0, StartOffset = 0, EndOffset = 11\<rparr>,
     \<lparr>Content = runes_of ''6789 0123456789 '', Index = 1, StartOffset = 6, EndOffset = 22\<rparr>,
     \<lparr>Content = runes_of ''6789 0123456789 '', Index = 2, StartOffset = 17, EndOffset = 33\<rparr>,
     \<lparr>Content = runes_of ''6789 0123456789'', Index = 3, StartOffset = 28, EndOffset = 43\<rparr>]"
proof -
  have le: "(10::nat) \<le> 20" by simp
  show ?thesis using overlap_test_overlap le chunk_text_fuel_mono [OF overlap_test_overlap le] by blast
qed

lemma half_less_self: "0 < (x::int) \<Longrightarrow> x div 2 < x"
  by presburger

text \<open>\<open>NewChunker\<close> always returns a well-formed configuration:
  \<open>0 < chunkSize\<close> and \<open>0 \<le> overlap < chunkSize\<close>, whatever its arguments.\<close>

theorem new_chunker_wf:
  "chunker_wf (new_chunker cs ov)"
  by (simp add: new_chunker_def chunker_wf_def Let_def half_less_self)

lemma new_chunker_defaults:
  "new_chunker 0 (-1) = \<lparr>chunkSize = 1000, overlap = 0\<rparr>"
  "new_chunker 100 150 = \<lparr>chunkSize = 100, overlap = 50\<rparr>"
  by (simp_all add: new_chunker_def)

text \<open>The examples of the spec: the empty text gives no chunk, and
  \<open>"Hello world"\<close> gives the one chunk \<open>[0, 11)\<close> with index 0.\<close>

theorem chunk_text_spec_examples:
  "chunk_text fuel (new_chunker 1000 100) [] = Some [] \<and>
   chunk_text fuel (new_chunker 1000 100) (runes_of ''Hello world'') =
     Some [\<lparr>Content = runes_of ''Hello world'', Index = 0, StartOffset = 0, EndOffset = 11\<rparr>]"
  by (simp add: chunk_text_def new_chunker_def runes_of_def)

end
