(* ===== verification/Codec.thy ===== *)
theory Codec
  imports Prelude
begin

unbundle bit_operations_syntax

text \<open>
  The vector blob format of \<open>src/internal/storage/database.go\<close>:
  \<open>serializeEmbedding\<close> writes a \<open>[]float32\<close> with \<open>binary.Write\<close> in little-endian
  order, four bytes per element (the IEEE-754 bits of \<open>math.Float32bits\<close>);
  \<open>deserializeEmbedding\<close> reads \<open>embeddingDimension\<close> elements back with
  \<open>binary.Read\<close>, which fails with \<open>io.EOF\<close> on an empty blob and
  \<open>io.ErrUnexpectedEOF\<close> on a short one, and ignores bytes past the
  \<open>4 * embeddingDimension\<close> it reads.
\<close>

definition embeddingDimension :: nat where
  "embeddingDimension = 1536"

datatype codec_error = EOF | UnexpectedEOF

text \<open>\<open>binary.LittleEndian.PutUint32\<close> and \<open>Uint32\<close>.\<close>

definition put_uint32_le :: "f32 \<Rightarrow> byte list" where
  "put_uint32_le w = [ucast w, ucast (drop_bit 8 w), ucast (drop_bit 16 w), ucast (drop_bit 24 w)]"

definition uint32_le :: "byte \<Rightarrow> byte \<Rightarrow> byte \<Rightarrow> byte \<Rightarrow> f32" where
  "uint32_le b0 b1 b2 b3 =
     ucast b0 OR push_bit 8 (ucast b1) OR push_bit 16 (ucast b2) OR push_bit 24 (ucast b3)"

definition serialize_embedding :: "embedding \<Rightarrow> byte list" where
  "serialize_embedding v = concat (map put_uint32_le v)"

fun decode_le32 :: "byte list \<Rightarrow> f32 list" where
  "decode_le32 (b0 # b1 # b2 # b3 # rest) = uint32_le b0 b1 b2 b3 # decode_le32 rest"
| "decode_le32 _ = []"

definition deserialize_embedding :: "byte list \<Rightarrow> codec_error + embedding" where
  "deserialize_embedding data =
     (let n = 4 * embeddingDimension in
      if length data < n then Inl (if data = [] then EOF else UnexpectedEOF)
      else Inr (decode_le32 (take n data)))"

subsection \<open>Words and their bytes\<close>

lemma uint32_le_put [simp]:
  "put_uint32_le w = [b0, b1, b2, b3] \<Longrightarrow> uint32_le b0 b1 b2 b3 = w"
  unfolding put_uint32_le_def uint32_le_def
  apply (intro bit_word_eqI)
  subgoal for n
    by (cases "n < 8"; cases "n < 16"; cases "n < 24") (auto simp: bit_simps)
  done

lemma put_uint32_le_uint32 [simp]:
  "put_uint32_le (uint32_le b0 b1 b2 b3) = [b0, b1, b2, b3]"
  unfolding put_uint32_le_def uint32_le_def
  by (intro list.inject [THEN iffD2] conjI bit_word_eqI refl)
     (auto simp: bit_simps dest: bit_imp_le_length)

lemma length_put_uint32_le [simp]: "length (put_uint32_le w) = 4"
  by (simp add: put_uint32_le_def)

lemma decode_le32_put:
  "decode_le32 (put_uint32_le w @ rest) = w # decode_le32 rest"
proof -
  obtain b0 b1 b2 b3 where "put_uint32_le w = [b0, b1, b2, b3]"
    by (simp add: put_uint32_le_def)
  then show ?thesis by simp
qed

lemma decode_serialize: "decode_le32 (serialize_embedding v) = v"
  by (induction v) (simp_all add: serialize_embedding_def decode_le32_put)

lemma length_serialize_embedding [simp]:
  "length (serialize_embedding v) = 4 * length v"
  by (induction v) (simp_all add: serialize_embedding_def)

lemma serialize_decode:
  "length bs = 4 * k \<Longrightarrow> serialize_embedding (decode_le32 bs) = bs"
proof (induction bs arbitrary: k rule: decode_le32.induct)
  case (1 b0 b1 b2 b3 rest)
  then show ?case by (cases k) (simp_all add: serialize_embedding_def)
qed (simp_all add: serialize_embedding_def, presburger+)

lemma decode_le32_length:
  "length (decode_le32 bs) = length bs div 4"
  by (induction bs rule: decode_le32.induct) simp_all

subsection \<open>Properties of the blob format\<close>

text \<open>C14. A vector of the embedding dimension round-trips exactly through the
  blob format, and its blob is \<open>4 * 1536 = 6144\<close> bytes long.\<close>

theorem embedding_roundtrip:
  assumes "length v = embeddingDimension"
  shows "deserialize_embedding (serialize_embedding v) = Inr v \<and>
         length (serialize_embedding v) = 6144"
  using assms decode_serialize [of v]
  by (simp add: deserialize_embedding_def embeddingDimension_def)

theorem embedding_roundtrip_witness:
  "length (replicate 1536 (0::f32)) = embeddingDimension \<and>
   deserialize_embedding (serialize_embedding (replicate 1536 0)) = Inr (replicate 1536 0) \<and>
   length (serialize_embedding (replicate 1536 (0::f32))) = 6144"
proof -
  have l: "length (replicate 1536 (0::f32)) = embeddingDimension" by (simp add: embeddingDimension_def)
  show ?thesis using l embedding_roundtrip [OF l] by blast
qed

text \<open>C15. Every blob that deserialises gives a vector of the embedding dimension
  whose blob is the first 6144 bytes read.\<close>

theorem deserialize_inverse:
  assumes "deserialize_embedding bs = Inr v"
  shows "length v = embeddingDimension \<and> serialize_embedding v = take 6144 bs"
proof -
  have len: "6144 \<le> length bs" and v: "v = decode_le32 (take 6144 bs)"
    using assms by (auto simp: deserialize_embedding_def embeddingDimension_def split: if_splits)
  have "length (take 6144 bs) = 4 * 1536" using len by simp
  then show ?thesis
    using serialize_decode [of "take 6144 bs" 1536] len
    by (simp add: v decode_le32_length embeddingDimension_def)
qed

theorem deserialize_inverse_witness:
  "deserialize_embedding (replicate 6144 0) = Inr (replicate 1536 0) \<and>
   length (replicate 1536 (0::f32)) = embeddingDimension \<and>
   serialize_embedding (replicate 1536 0) = take 6144 (replicate 6144 0)"
proof -
  have "concat (replicate n [x, x, x, x]) = replicate (4 * n) x" for n and x :: byte
    by (induction n) (simp_all add: numeral_eq_Suc)
  then have rep: "replicate 6144 (0::byte) = serialize_embedding (replicate 1536 0)"
    by (simp add: serialize_embedding_def put_uint32_le_def)
  have d: "deserialize_embedding (replicate 6144 0) = Inr (replicate 1536 0)"
    using decode_serialize [of "replicate 1536 0"]
    by (simp add: rep deserialize_embedding_def embeddingDimension_def)
  show ?thesis using d deserialize_inverse [OF d] by blast
qed

text \<open>C16. The spec requires a blob of any other length than \<open>D * 4\<close> bytes to be an
  error, but \<open>deserializeEmbedding\<close> accepts a longer blob and ignores its tail.\<close>

theorem deserialize_accepts_longer_blob:
  assumes "length v = embeddingDimension"
  shows "deserialize_embedding (serialize_embedding v @ tail) = Inr v"
  using assms decode_serialize [of v]
  by (simp add: deserialize_embedding_def embeddingDimension_def)

theorem deserialize_accepts_longer_blob_witness:
  "length (replicate 1536 (0::f32)) = embeddingDimension \<and>
   deserialize_embedding (serialize_embedding (replicate 1536 0) @ [7]) = Inr (replicate 1536 0)"
proof -
  have l: "length (replicate 1536 (0::f32)) = embeddingDimension" by (simp add: embeddingDimension_def)
  show ?thesis using l deserialize_accepts_longer_blob [OF l] by blast
qed

text \<open>A blob shorter than \<open>D * 4\<close> bytes is an error: \<open>io.EOF\<close> when it is empty,
  \<open>io.ErrUnexpectedEOF\<close> otherwise.\<close>

theorem deserialize_short_blob:
  assumes "length bs < 6144"
  shows "deserialize_embedding bs = Inl (if bs = [] then EOF else UnexpectedEOF)"
  using assms by (simp add: deserialize_embedding_def embeddingDimension_def)

theorem deserialize_short_blob_witness:
  "length [1, 2, 3 :: byte] < 6144 \<and> deserialize_embedding [1, 2, 3] = Inl UnexpectedEOF"
proof -
  have l: "length [1, 2, 3 :: byte] < 6144" by simp
  show ?thesis using l deserialize_short_blob [OF l] by simp
qed

end
