(* ===== verification/Store.thy ===== *)
theory Store
  imports Complex_Main Codec
begin

text \<open>
  The document store of \<open>src/internal/storage/database.go\<close> (lines 1--313): the
  \<open>documents\<close> and \<open>chunks\<close> tables of \<open>runMigrations\<close> as lists of rows in
  rowid order, the two \<open>AUTOINCREMENT\<close> counters, and the connection's
  \<open>PRAGMA foreign_keys\<close>, which decides whether the \<open>ON DELETE CASCADE\<close> of the
  schema runs. \<open>NewDatabase\<close> never sets the pragma, and SQLite (as linked by
  \<open>go-sqlite3\<close> without \<open>_foreign_keys\<close> in the DSN) starts with it off.

  Statements can fail for reasons outside the program (a locked or full
  database): the environment says which statements fail, and the first failing
  one aborts the transaction. The cosine distance of \<open>sqlite-vec\<close> is a parameter
  \<open>cos_dist\<close> over the stored blobs; a score is \<open>1 - cos_dist\<close> as in the query.
\<close>

subsection \<open>Rows, inputs and results\<close>

record document_row =
  doc_id :: int
  source :: string
  source_type :: string
  indexed_at :: int
  content_size :: int
  chunk_count :: int
  title :: string

record chunk_row =
  chunk_id :: int
  document_id :: int
  chunk_index :: int
  content :: runes
  start_offset :: int
  end_offset :: int
  embedding :: "byte list"

text \<open>\<open>storage.Chunk\<close> as the callers fill it: the vector is still a \<open>[]float32\<close>.\<close>

record storage_chunk =
  sc_index :: int
  sc_content :: runes
  sc_start :: int
  sc_end :: int
  sc_embedding :: embedding

record search_result =
  res_content :: runes
  res_source :: string
  res_chunk_index :: int
  score :: real

record db =
  documents :: "document_row list"
  chunks :: "chunk_row list"
  doc_seq :: int
  chunk_seq :: int
  foreign_keys :: bool

datatype stmt = SBegin | SDeleteExisting | SInsertDocument | SLastInsertId | SPrepare
  | SInsertChunk nat | SCommit | SDelete | SRowsAffected
  | SSearchQuery | SSearchRows | SListQuery | SListRows | SExists
  | SOpen | SVecVersion | SMigrate

datatype store_error =
    ErrBegin | ErrDeleteExisting | ErrInsertDocument | ErrDocumentID | ErrPrepare
  | ErrInsertChunk | ErrCommit | ErrDimension nat | ErrDelete | ErrRowsAffected
  | ErrNotFound string | ErrSearchQuery | ErrSearchRows | ErrListQuery | ErrListRows
  | ErrExists | ErrOpen | ErrVecUnavailable | ErrMigrate

subsection \<open>Schema and connection\<close>

text \<open>\<open>NewDatabase\<close> on a fresh file: \<open>runMigrations\<close> creates empty tables.\<close>

definition new_database :: db where
  "new_database = \<lparr>documents = [], chunks = [], doc_seq = 0, chunk_seq = 0, foreign_keys = False\<rparr>"

text \<open>\<open>NewDatabase\<close> on a path: \<open>sql.Open\<close>, the \<open>vec_version()\<close> probe and
  \<open>runMigrations\<close>, each of which may fail. A file that already holds the
  tables keeps its rows (\<open>CREATE TABLE IF NOT EXISTS\<close>); the \<open>foreign_keys\<close>
  pragma belongs to the connection and is off on a new one.\<close>

definition open_database :: "(stmt \<Rightarrow> bool) \<Rightarrow> db option \<Rightarrow> store_error + db" where
  "open_database fails existing =
     (if fails SOpen then Inl ErrOpen
      else if fails SVecVersion then Inl ErrVecUnavailable
      else if fails SMigrate then Inl ErrMigrate
      else Inr (case existing of None \<Rightarrow> new_database | Some st \<Rightarrow> st\<lparr>foreign_keys := False\<rparr>))"

subsection \<open>Statements\<close>

text \<open>\<open>DELETE FROM documents WHERE source = ?\<close>: the rows removed, the cascade to
  \<open>chunks\<close> when foreign keys are enforced, and the number of rows affected.\<close>

definition delete_source :: "string \<Rightarrow> db \<Rightarrow> db \<times> nat" where
  "delete_source src st =
     (let gone = map doc_id (filter (\<lambda>d. source d = src) (documents st))
      in (st\<lparr>documents := filter (\<lambda>d. source d \<noteq> src) (documents st),
             chunks := (if foreign_keys st then filter (\<lambda>c. document_id c \<notin> set gone) (chunks st)
                        else chunks st)\<rparr>,
          length gone))"

text \<open>Go's \<open>len\<close> of the UTF-8 string \<open>string(runes)\<close>: bytes per rune, with the
  three bytes of U+FFFD for a rune that is no scalar value.\<close>

definition rune_len :: "rune \<Rightarrow> nat" where
  "rune_len r =
     (if r < 0x80 then 1 else if r < 0x800 then 2
      else if 0xD800 \<le> r \<and> r \<le> 0xDFFF then 3
      else if r < 0x10000 then 3 else if r \<le> 0x10FFFF then 4 else 3)"

definition utf8_len :: "runes \<Rightarrow> nat" where
  "utf8_len rs = sum_list (map rune_len rs)"

text \<open>\<open>INSERT INTO documents\<close>: the next \<open>AUTOINCREMENT\<close> id, the \<open>UNIQUE\<close>
  constraint on \<open>source\<close>, \<open>indexed_at\<close> from \<open>CURRENT_TIMESTAMP\<close>.\<close>

definition insert_document ::
  "string \<Rightarrow> string \<Rightarrow> int \<Rightarrow> int \<Rightarrow> int \<Rightarrow> string \<Rightarrow> db \<Rightarrow> store_error + db \<times> int" where
  "insert_document src ty now csize nchunks ttl st =
     (if list_ex (\<lambda>d. source d = src) (documents st) then Inl ErrInsertDocument
      else (let i = doc_seq st + 1
            in Inr (st\<lparr>documents := documents st @
                         [\<lparr>doc_id = i, source = src, source_type = ty, indexed_at = now,
                           content_size = csize, chunk_count = nchunks, title = ttl\<rparr>],
                       doc_seq := i\<rparr>, i)))"

text \<open>\<open>stmt.Exec\<close> of the prepared chunk insert, with the serialised vector.\<close>

definition insert_chunk :: "int \<Rightarrow> storage_chunk \<Rightarrow> db \<Rightarrow> db" where
  "insert_chunk docId c st =
     (let i = chunk_seq st + 1
      in st\<lparr>chunks := chunks st @
               [\<lparr>chunk_id = i, document_id = docId, chunk_index = sc_index c, content = sc_content c,
                 start_offset = sc_start c, end_offset = sc_end c,
                 embedding = serialize_embedding (sc_embedding c)\<rparr>],
             chunk_seq := i\<rparr>)"

text \<open>The loop \<open>for _, chunk := range chunks\<close> of \<open>IndexDocument\<close>.\<close>

fun insert_chunks :: "(stmt \<Rightarrow> bool) \<Rightarrow> int \<Rightarrow> nat \<Rightarrow> storage_chunk list \<Rightarrow> db \<Rightarrow> store_error + db" where
  "insert_chunks fails docId k [] st = Inr st"
| "insert_chunks fails docId k (c # cs) st =
     (if fails (SInsertChunk k) then Inl ErrInsertChunk
      else insert_chunks fails docId (Suc k) cs (insert_chunk docId c st))"

subsection \<open>Transactions\<close>

text \<open>\<open>Begin\<close>, \<open>defer tx.Rollback()\<close> and \<open>Commit\<close>: the body works on the
  transaction's state; an error leaves the database as it was.\<close>

definition run_tx :: "(stmt \<Rightarrow> bool) \<Rightarrow> (db \<Rightarrow> store_error + db) \<Rightarrow> db \<Rightarrow> (store_error + unit) \<times> db" where
  "run_tx fails body st =
     (if fails SBegin then (Inl ErrBegin, st)
      else (case body st of
              Inl e \<Rightarrow> (Inl e, st)
            | Inr st' \<Rightarrow> (if fails SCommit then (Inl ErrCommit, st) else (Inr (), st'))))"

definition index_body ::
  "(stmt \<Rightarrow> bool) \<Rightarrow> int \<Rightarrow> string \<Rightarrow> string \<Rightarrow> string \<Rightarrow> storage_chunk list \<Rightarrow> db \<Rightarrow> store_error + db" where
  "index_body fails now src ty ttl cs st =
     (if fails SDeleteExisting then Inl ErrDeleteExisting
      else (let st1 = fst (delete_source src st);
                contentSize = int (sum_list (map (\<lambda>c. utf8_len (sc_content c)) cs))
            in if fails SInsertDocument then Inl ErrInsertDocument
               else (case insert_document src ty now contentSize (int (length cs)) ttl st1 of
                       Inl e \<Rightarrow> Inl e
                     | Inr (st2, docId) \<Rightarrow>
                         if fails SLastInsertId then Inl ErrDocumentID
                         else if fails SPrepare then Inl ErrPrepare
                         else insert_chunks fails docId 0 cs st2)))"

definition index_document ::
  "(stmt \<Rightarrow> bool) \<Rightarrow> int \<Rightarrow> string \<Rightarrow> string \<Rightarrow> string \<Rightarrow> storage_chunk list \<Rightarrow> db \<Rightarrow> (store_error + unit) \<times> db" where
  "index_document fails now src ty ttl cs st = run_tx fails (index_body fails now src ty ttl cs) st"

subsection \<open>Queries\<close>

text \<open>The rows of the search query before \<open>ORDER BY\<close>: the join of \<open>chunks\<close> with
  \<open>documents\<close> on \<open>document_id\<close>, restricted to \<open>sourceFilter\<close> when it is not empty,
  with \<open>1 - vec_distance_cosine(c.embedding, ?)\<close> as score.\<close>

definition search_candidates ::
  "(byte list \<Rightarrow> byte list \<Rightarrow> real) \<Rightarrow> byte list \<Rightarrow> string \<Rightarrow> db \<Rightarrow> search_result list" where
  "search_candidates cos_dist queryBlob sourceFilter st =
     concat (map (\<lambda>c. map (\<lambda>d. \<lparr>res_content = content c, res_source = source d,
                                 res_chunk_index = chunk_index c,
                                 score = 1 - cos_dist (embedding c) queryBlob\<rparr>)
                         (filter (\<lambda>d. document_id c = doc_id d \<and>
                                      (sourceFilter = [] \<or> source d = sourceFilter))
                            (documents st)))
                 (chunks st))"

text \<open>SQLite's \<open>LIMIT\<close>: a negative limit means no limit.\<close>

definition sql_limit :: "int \<Rightarrow> 'a list \<Rightarrow> 'a list" where
  "sql_limit k xs = (if k < 0 then xs else take (nat k) xs)"

definition search ::
  "(stmt \<Rightarrow> bool) \<Rightarrow> (byte list \<Rightarrow> byte list \<Rightarrow> real) \<Rightarrow> embedding \<Rightarrow> int \<Rightarrow> real \<Rightarrow> string \<Rightarrow> db \<Rightarrow>
   store_error + search_result list" where
  "search fails cos_dist queryEmbedding topK minScore sourceFilter st =
     (if length queryEmbedding \<noteq> embeddingDimension
      then Inl (ErrDimension (length queryEmbedding))
      else if fails SSearchQuery then Inl ErrSearchQuery
      else if fails SSearchRows then Inl ErrSearchRows
      else (let queryBlob = serialize_embedding queryEmbedding;
                ranked = sql_limit topK (sort_desc score (search_candidates cos_dist queryBlob sourceFilter st))
            in Inr (filter (\<lambda>r. score r \<ge> minScore) ranked)))"

definition list_documents :: "(stmt \<Rightarrow> bool) \<Rightarrow> string \<Rightarrow> db \<Rightarrow> store_error + document_row list" where
  "list_documents fails sourceTypeFilter st =
     (if fails SListQuery then Inl ErrListQuery
      else if fails SListRows then Inl ErrListRows
      else Inr (sort_desc indexed_at
             (filter (\<lambda>d. sourceTypeFilter = [] \<or> source_type d = sourceTypeFilter) (documents st))))"

definition delete_document :: "(stmt \<Rightarrow> bool) \<Rightarrow> string \<Rightarrow> db \<Rightarrow> (store_error + unit) \<times> db" where
  "delete_document fails src st =
     (if fails SDelete then (Inl ErrDelete, st)
      else (let (st', n) = delete_source src st
            in if fails SRowsAffected then (Inl ErrRowsAffected, st')
               else if n = 0 then (Inl (ErrNotFound src), st') else (Inr (), st')))"

definition document_exists :: "(stmt \<Rightarrow> bool) \<Rightarrow> string \<Rightarrow> db \<Rightarrow> store_error + bool" where
  "document_exists fails src st =
     (if fails SExists then Inl ErrExists else Inr (list_ex (\<lambda>d. source d = src) (documents st)))"


subsection \<open>Schema invariant and abstract view\<close>

text \<open>What the schema and the counters keep true: \<open>source\<close> is unique, ids are
  unique and at most the last id handed out, and every chunk references an id
  that was handed out (an existing document when foreign keys are enforced).\<close>

definition db_inv :: "db \<Rightarrow> bool" where
  "db_inv st \<longleftrightarrow>
     0 \<le> doc_seq st \<and> 0 \<le> chunk_seq st \<and> distinct (map source (documents st)) \<and> distinct (map doc_id (documents st)) \<and>
     list_all (\<lambda>d. 0 < doc_id d \<and> doc_id d \<le> doc_seq st) (documents st) \<and>
     distinct (map chunk_id (chunks st)) \<and>
     list_all (\<lambda>c. 0 < chunk_id c \<and> chunk_id c \<le> chunk_seq st \<and> document_id c \<le> doc_seq st)
       (chunks st) \<and>
     (foreign_keys st \<longrightarrow>
        list_all (\<lambda>c. list_ex (\<lambda>d. doc_id d = document_id c) (documents st)) (chunks st))"

type_synonym chunk_view = "int \<times> runes \<times> int \<times> int \<times> byte list"
type_synonym doc_view = "string \<times> int \<times> int \<times> int \<times> string \<times> chunk_view list"

definition row_view :: "chunk_row \<Rightarrow> chunk_view" where
  "row_view c = (chunk_index c, content c, start_offset c, end_offset c, embedding c)"

definition sc_view :: "storage_chunk \<Rightarrow> chunk_view" where
  "sc_view c = (sc_index c, sc_content c, sc_start c, sc_end c, serialize_embedding (sc_embedding c))"

definition doc_chunks :: "db \<Rightarrow> document_row \<Rightarrow> chunk_view list" where
  "doc_chunks st d = map row_view (filter (\<lambda>c. document_id c = doc_id d) (chunks st))"

text \<open>The store as the spec sees it: each source maps to its document and the
  chunks that join it, in insertion order.\<close>

definition view :: "db \<Rightarrow> string \<Rightarrow> doc_view option" where
  "view st src =
     map_option (\<lambda>d. (source_type d, indexed_at d, content_size d, chunk_count d, title d, doc_chunks st d))
       (find (\<lambda>d. source d = src) (documents st))"

text \<open>The states a database reaches from \<open>NewDatabase\<close> through the operations that
  write, each under any pattern of statement failures.\<close>

inductive store_reach :: "db \<Rightarrow> bool" where
  init: "store_reach new_database"
| index: "store_reach st \<Longrightarrow> store_reach (snd (index_document fails now src ty ttl cs st))"
| delete: "store_reach st \<Longrightarrow> store_reach (snd (delete_document fails src st))"

lemma insert_chunk_fields [simp]:
  "documents (insert_chunk docId c st) = documents st"
  "doc_seq (insert_chunk docId c st) = doc_seq st"
  "foreign_keys (insert_chunk docId c st) = foreign_keys st"
  "chunk_seq (insert_chunk docId c st) = chunk_seq st + 1"
  "chunks (insert_chunk docId c st) = chunks st @
     [\<lparr>chunk_id = chunk_seq st + 1, document_id = docId, chunk_index = sc_index c,
       content = sc_content c, start_offset = sc_start c, end_offset = sc_end c,
       embedding = serialize_embedding (sc_embedding c)\<rparr>]"
  by (simp_all add: insert_chunk_def Let_def)

lemma insert_chunks_Inr:
  assumes "insert_chunks fails docId k cs st = Inr st'"
  shows "documents st' = documents st \<and> doc_seq st' = doc_seq st \<and> foreign_keys st' = foreign_keys st \<and>
         chunk_seq st' = chunk_seq st + int (length cs) \<and>
         (\<exists>rows. chunks st' = chunks st @ rows \<and> map row_view rows = map sc_view cs \<and>
            distinct (map chunk_id rows) \<and>
            list_all (\<lambda>r. document_id r = docId \<and> chunk_seq st < chunk_id r \<and> chunk_id r \<le> chunk_seq st') rows)"
  using assms
proof (induction cs arbitrary: k st)
  case Nil
  then show ?case by simp
next
  case (Cons c cs)
  let ?st1 = "insert_chunk docId c st"
  have ok: "\<not> fails (SInsertChunk k)" and rest: "insert_chunks fails docId (Suc k) cs ?st1 = Inr st'"
    using Cons.prems by (auto split: if_splits)
  obtain rows where IH: "documents st' = documents ?st1" "doc_seq st' = doc_seq ?st1"
    "foreign_keys st' = foreign_keys ?st1" "chunk_seq st' = chunk_seq ?st1 + int (length cs)"
    "chunks st' = chunks ?st1 @ rows" "map row_view rows = map sc_view cs" "distinct (map chunk_id rows)"
    "list_all (\<lambda>r. document_id r = docId \<and> chunk_seq ?st1 < chunk_id r \<and> chunk_id r \<le> chunk_seq st') rows"
    using Cons.IH [OF rest] by blast
  let ?r = "\<lparr>chunk_id = chunk_seq st + 1, document_id = docId, chunk_index = sc_index c,
             content = sc_content c, start_offset = sc_start c, end_offset = sc_end c,
             embedding = serialize_embedding (sc_embedding c)\<rparr>"
  have "chunks st' = chunks st @ ?r # rows" "map row_view (?r # rows) = map sc_view (c # cs)"
    using IH by (simp_all add: row_view_def sc_view_def)
  moreover have "distinct (map chunk_id (?r # rows))"
    "list_all (\<lambda>r. document_id r = docId \<and> chunk_seq st < chunk_id r \<and> chunk_id r \<le> chunk_seq st') (?r # rows)"
    using IH by (auto simp: list_all_iff)
  ultimately show ?case using IH by auto
qed

lemma run_tx_Inl:
  "fst (run_tx fails body st) = Inl e \<Longrightarrow> snd (run_tx fails body st) = st"
  by (auto simp: run_tx_def split: if_splits sum.splits)

lemma run_tx_Inr:
  "fst (run_tx fails body st) = Inr u \<Longrightarrow> body st = Inr (snd (run_tx fails body st))"
  by (auto simp: run_tx_def split: if_splits sum.splits)


lemma delete_source_fields [simp]:
  "documents (fst (delete_source src st)) = filter (\<lambda>d. source d \<noteq> src) (documents st)"
  "doc_seq (fst (delete_source src st)) = doc_seq st"
  "chunk_seq (fst (delete_source src st)) = chunk_seq st"
  "foreign_keys (fst (delete_source src st)) = foreign_keys st"
  "chunks (fst (delete_source src st)) =
     (if foreign_keys st
      then filter (\<lambda>c. document_id c \<notin> doc_id ` set (filter (\<lambda>d. source d = src) (documents st))) (chunks st)
      else chunks st)"
  "snd (delete_source src st) = length (filter (\<lambda>d. source d = src) (documents st))"
  by (simp_all add: delete_source_def Let_def)

abbreviation new_doc :: "db \<Rightarrow> int \<Rightarrow> string \<Rightarrow> string \<Rightarrow> string \<Rightarrow> storage_chunk list \<Rightarrow> document_row" where
  "new_doc st now src ty ttl cs \<equiv>
     \<lparr>doc_id = doc_seq st + 1, source = src, source_type = ty, indexed_at = now,
      content_size = int (sum_list (map (\<lambda>c. utf8_len (sc_content c)) cs)),
      chunk_count = int (length cs), title = ttl\<rparr>"

lemma index_body_Inr:
  assumes "index_body fails now src ty ttl cs st = Inr st'"
  shows "documents st' = filter (\<lambda>d. source d \<noteq> src) (documents st) @ [new_doc st now src ty ttl cs] \<and>
         doc_seq st' = doc_seq st + 1 \<and> foreign_keys st' = foreign_keys st \<and>
         chunk_seq st' = chunk_seq st + int (length cs) \<and>
         (\<exists>rows. chunks st' = chunks (fst (delete_source src st)) @ rows \<and>
            map row_view rows = map sc_view cs \<and> distinct (map chunk_id rows) \<and>
            list_all (\<lambda>r. document_id r = doc_seq st + 1 \<and> chunk_seq st < chunk_id r \<and>
                          chunk_id r \<le> chunk_seq st') rows)"
proof -
  let ?st1 = "fst (delete_source src st)"
  let ?st2 = "?st1\<lparr>documents := documents ?st1 @ [new_doc st now src ty ttl cs], doc_seq := doc_seq st + 1\<rparr>"
  have ins: "insert_document src ty now (int (sum_list (map (\<lambda>c. utf8_len (sc_content c)) cs)))
               (int (length cs)) ttl ?st1 = Inr (?st2, doc_seq st + 1)"
    by (simp add: insert_document_def list_ex_iff Let_def)
  from assms have "insert_chunks fails (doc_seq st + 1) 0 cs ?st2 = Inr st'"
    by (simp add: index_body_def ins Let_def split: if_splits)
  from insert_chunks_Inr [OF this] show ?thesis by (auto simp del: delete_source_fields(5))
qed

lemma find_filter_same:
  "(\<And>x. P x \<Longrightarrow> Q x) \<Longrightarrow> find P (filter Q xs) = find P xs"
  by (induction xs) auto

lemma filter_filter_same:
  "(\<And>x. P x \<Longrightarrow> Q x) \<Longrightarrow> filter P (filter Q xs) = filter P xs"
  by (induction xs) auto

lemma find_unique:
  "distinct (map f xs) \<Longrightarrow> x \<in> set xs \<Longrightarrow> find (\<lambda>y. f y = f x) xs = Some x"
  by (induction xs) (auto simp: image_iff)

lemma db_invD:
  assumes "db_inv st"
  shows "distinct (map source (documents st))" "distinct (map doc_id (documents st))"
    "\<And>d. d \<in> set (documents st) \<Longrightarrow> 0 < doc_id d \<and> doc_id d \<le> doc_seq st"
    "distinct (map chunk_id (chunks st))"
    "\<And>c. c \<in> set (chunks st) \<Longrightarrow> 0 < chunk_id c \<and> chunk_id c \<le> chunk_seq st \<and> document_id c \<le> doc_seq st"
    "foreign_keys st \<Longrightarrow> c \<in> set (chunks st) \<Longrightarrow> \<exists>d \<in> set (documents st). doc_id d = document_id c"
    "0 \<le> doc_seq st" "0 \<le> chunk_seq st"
  using assms by (auto simp: db_inv_def list_all_iff list_ex_iff)

text \<open>A document that survives a delete keeps all its chunks, cascade or not.\<close>

lemma doc_chunks_delete_source:
  assumes "db_inv st" "d \<in> set (documents st)" "source d \<noteq> src"
  shows "doc_chunks (fst (delete_source src st)) d = doc_chunks st d"
proof -
  have "doc_id d \<notin> doc_id ` set (filter (\<lambda>d. source d = src) (documents st))"
  proof
    assume "doc_id d \<in> doc_id ` set (filter (\<lambda>d. source d = src) (documents st))"
    then obtain d' where "d' \<in> set (documents st)" "source d' = src" "doc_id d' = doc_id d" by auto
    have "inj_on doc_id (set (documents st))" using db_invD(2) [OF assms(1)] by (simp add: distinct_map)
    from this \<open>doc_id d' = doc_id d\<close> \<open>d' \<in> set (documents st)\<close> assms(2) have "d' = d" by (rule inj_onD)
    with \<open>source d' = src\<close> assms(3) show False by simp
  qed
  then have "filter (\<lambda>c. document_id c = doc_id d)
               (filter (\<lambda>c. document_id c \<notin> doc_id ` set (filter (\<lambda>d. source d = src) (documents st))) (chunks st))
             = filter (\<lambda>c. document_id c = doc_id d) (chunks st)"
    by (intro filter_filter_same) simp
  then show ?thesis by (simp add: doc_chunks_def del: filter_filter)
qed


lemma delete_source_inv:
  assumes "db_inv st"
  shows "db_inv (fst (delete_source src st))"
proof -
  let ?G = "doc_id ` set (filter (\<lambda>d. source d = src) (documents st))"
  have fk: "list_ex (\<lambda>d. doc_id d = document_id c) (filter (\<lambda>d. source d \<noteq> src) (documents st))"
    if "foreign_keys st" "c \<in> set (chunks st)" "document_id c \<notin> ?G" for c
  proof -
    from db_invD(6) [OF assms that(1,2)] obtain d
      where d: "d \<in> set (documents st)" "doc_id d = document_id c" by blast
    with that(3) have "source d \<noteq> src" by force
    with d show ?thesis by (auto simp: list_ex_iff)
  qed
  have "list_all (\<lambda>c. 0 < chunk_id c \<and> chunk_id c \<le> chunk_seq st \<and> document_id c \<le> doc_seq st)
          (chunks (fst (delete_source src st)))"
    using db_invD(5) [OF assms] by (auto simp: list_all_iff)
  moreover have "distinct (map chunk_id (chunks (fst (delete_source src st))))"
    using db_invD(4) [OF assms] by (simp add: distinct_map_filter)
  ultimately show ?thesis
    using assms fk by (auto simp: db_inv_def list_all_iff distinct_map_filter)
qed

lemma find_append_list:
  "find P (xs @ ys) = (case find P xs of None \<Rightarrow> find P ys | Some x \<Rightarrow> Some x)"
  by (induction xs) auto

lemma index_body_inv:
  assumes "db_inv st" "index_body fails now src ty ttl cs st = Inr st'"
  shows "db_inv st'"
proof -
  define st1 where "st1 = fst (delete_source src st)"
  have inv1: "db_inv st1" unfolding st1_def using delete_source_inv [OF assms(1)] .
  have f1: "doc_seq st1 = doc_seq st" "chunk_seq st1 = chunk_seq st" "foreign_keys st1 = foreign_keys st"
    "src \<notin> source ` set (documents st1)"
    unfolding st1_def by auto
  obtain rows where docs: "documents st' = documents st1 @ [new_doc st now src ty ttl cs]"
    and seq: "doc_seq st' = doc_seq st + 1" "foreign_keys st' = foreign_keys st"
      "chunk_seq st' = chunk_seq st + int (length cs)"
    and ch: "chunks st' = chunks st1 @ rows" "distinct (map chunk_id rows)"
      "list_all (\<lambda>r. document_id r = doc_seq st + 1 \<and> chunk_seq st < chunk_id r \<and>
                     chunk_id r \<le> chunk_seq st') rows"
    using index_body_Inr [OF assms(2)] unfolding st1_def by (auto simp del: delete_source_fields(5))
  have fresh: "doc_seq st + 1 \<notin> doc_id ` set (documents st1)"
    using db_invD(3) [OF inv1] f1 by force
  have c1: "\<And>c. c \<in> set (chunks st1) \<Longrightarrow> 0 < chunk_id c \<and> chunk_id c \<le> chunk_seq st \<and> document_id c \<le> doc_seq st"
    using db_invD(5) [OF inv1] f1 by simp
  have d1: "\<And>d. d \<in> set (documents st1) \<Longrightarrow> 0 < doc_id d \<and> doc_id d \<le> doc_seq st"
    using db_invD(3) [OF inv1] f1 by simp
  have disj: "set (map chunk_id (chunks st1)) \<inter> set (map chunk_id rows) = {}"
    using c1 ch(3) by (force simp: list_all_iff)
  have pos: "0 \<le> doc_seq st" "0 \<le> chunk_seq st" using db_invD(7, 8) [OF assms(1)] by simp_all
  have "distinct (map source (documents st'))" "distinct (map doc_id (documents st'))"
    using docs f1(4) fresh db_invD(1, 2) [OF inv1] by auto
  moreover have "list_all (\<lambda>d. 0 < doc_id d \<and> doc_id d \<le> doc_seq st') (documents st')"
    using docs seq d1 pos by (force simp: list_all_iff)
  moreover have "distinct (map chunk_id (chunks st'))"
    using ch disj db_invD(4) [OF inv1] by simp
  moreover have "list_all (\<lambda>c. 0 < chunk_id c \<and> chunk_id c \<le> chunk_seq st' \<and> document_id c \<le> doc_seq st')
                   (chunks st')"
    using ch seq c1 pos by (force simp: list_all_iff)
  moreover have "foreign_keys st' \<longrightarrow>
      list_all (\<lambda>c. list_ex (\<lambda>d. doc_id d = document_id c) (documents st')) (chunks st')"
    using ch docs seq f1(3) db_invD(6) [OF inv1] by (force simp: list_all_iff list_ex_iff)
  ultimately show ?thesis using seq pos by (simp add: db_inv_def)
qed


lemma view_delete_source:
  assumes "db_inv st"
  shows "view (fst (delete_source src st)) = (view st)(src := None)"
proof
  fix s
  show "view (fst (delete_source src st)) s = ((view st)(src := None)) s"
  proof (cases "s = src")
    case True
    then show ?thesis by (simp add: view_def find_None_iff)
  next
    case False
    have f: "find (\<lambda>d. source d = s) (filter (\<lambda>d. source d \<noteq> src) (documents st)) =
             find (\<lambda>d. source d = s) (documents st)"
      by (rule find_filter_same) (use False in simp)
    show ?thesis
    proof (cases "find (\<lambda>d. source d = s) (documents st)")
      case None
      then show ?thesis using False f by (simp add: view_def)
    next
      case (Some d)
      then have "d \<in> set (documents st)" "source d = s" by (auto simp: find_Some_iff)
      then show ?thesis
        using False f Some doc_chunks_delete_source [OF assms] by (simp add: view_def)
    qed
  qed
qed

lemma view_index_body:
  assumes "db_inv st" "index_body fails now src ty ttl cs st = Inr st'"
  shows "view st' = (view st)(src \<mapsto> (ty, now, int (sum_list (map (\<lambda>c. utf8_len (sc_content c)) cs)),
                                       int (length cs), ttl, map sc_view cs))"
proof
  fix s
  define st1 where "st1 = fst (delete_source src st)"
  have inv1: "db_inv st1" unfolding st1_def using delete_source_inv [OF assms(1)] .
  have f1: "doc_seq st1 = doc_seq st" "documents st1 = filter (\<lambda>d. source d \<noteq> src) (documents st)"
    unfolding st1_def by auto
  obtain rows where docs: "documents st' = documents st1 @ [new_doc st now src ty ttl cs]"
    and ch: "chunks st' = chunks st1 @ rows" "map row_view rows = map sc_view cs"
      "list_all (\<lambda>r. document_id r = doc_seq st + 1) rows"
    using index_body_Inr [OF assms(2)] unfolding st1_def
    by (auto simp del: delete_source_fields(5) simp: list_all_iff)
  have old: "filter (\<lambda>c. document_id c = i) (chunks st1) = []" if "doc_seq st < i" for i
    using db_invD(5) [OF inv1] f1 that by (force simp: filter_empty_conv)
  have new: "filter (\<lambda>c. document_id c = i) rows = (if i = doc_seq st + 1 then rows else [])" for i
    using ch(3) by (auto simp: list_all_iff filter_empty_conv filter_id_conv)
  show "view st' s = ((view st)(src \<mapsto> (ty, now, int (sum_list (map (\<lambda>c. utf8_len (sc_content c)) cs)),
                                       int (length cs), ttl, map sc_view cs))) s"
  proof (cases "s = src")
    case True
    have "find (\<lambda>d. source d = src) (documents st') = Some (new_doc st now src ty ttl cs)"
      using docs f1(2) find_None_iff [of "\<lambda>d. source d = src" "filter (\<lambda>d. source d \<noteq> src) (documents st)"]
      by (simp add: find_append_list)
    moreover have "doc_chunks st' (new_doc st now src ty ttl cs) = map sc_view cs"
      using ch old [of "doc_seq st + 1"] new [of "doc_seq st + 1"] by (simp add: doc_chunks_def)
    ultimately show ?thesis using True by (simp add: view_def)
  next
    case False
    have f: "find (\<lambda>d. source d = s) (documents st') = find (\<lambda>d. source d = s) (documents st)"
    proof -
      have "find (\<lambda>d. source d = s) (filter (\<lambda>d. source d \<noteq> src) (documents st)) =
            find (\<lambda>d. source d = s) (documents st)"
        by (rule find_filter_same) (use False in simp)
      then show ?thesis using docs f1(2) False by (simp add: find_append_list split: option.split)
    qed
    show ?thesis
    proof (cases "find (\<lambda>d. source d = s) (documents st)")
      case None
      then show ?thesis using False f by (simp add: view_def)
    next
      case (Some d)
      then have d: "d \<in> set (documents st)" "source d = s" by (auto simp: find_Some_iff)
      then have "doc_id d \<le> doc_seq st" using db_invD(3) [OF assms(1)] by simp
      then have "doc_chunks st' d = doc_chunks st1 d"
        using ch new [of "doc_id d"] by (simp add: doc_chunks_def)
      also have "\<dots> = doc_chunks st d"
        unfolding st1_def using doc_chunks_delete_source [OF assms(1) d(1)] d(2) False by simp
      finally show ?thesis using False f Some by (simp add: view_def)
    qed
  qed
qed


lemma index_document_Inr:
  "fst (index_document fails now src ty ttl cs st) = Inr u \<Longrightarrow>
   index_body fails now src ty ttl cs st = Inr (snd (index_document fails now src ty ttl cs st))"
  unfolding index_document_def by (rule run_tx_Inr)

lemma delete_document_cases:
  "delete_document fails src st =
     (if fails SDelete then (Inl ErrDelete, st)
      else if fails SRowsAffected then (Inl ErrRowsAffected, fst (delete_source src st))
      else if \<not> list_ex (\<lambda>d. source d = src) (documents st) then (Inl (ErrNotFound src), fst (delete_source src st))
      else (Inr (), fst (delete_source src st)))"
  by (simp add: delete_document_def case_prod_beta filter_empty_conv list_ex_iff)

lemma delete_document_inv:
  "db_inv st \<Longrightarrow> db_inv (snd (delete_document fails src st))"
  by (simp add: delete_document_cases delete_source_inv)

lemma index_document_inv:
  assumes "db_inv st"
  shows "db_inv (snd (index_document fails now src ty ttl cs st))"
proof (cases "fst (index_document fails now src ty ttl cs st)")
  case (Inl e)
  then show ?thesis using assms run_tx_Inl [of fails] by (simp add: index_document_def)
next
  case (Inr u)
  show ?thesis by (rule index_body_inv [OF assms index_document_Inr [OF Inr]])
qed

lemma view_dom: "src \<in> dom (view st) \<longleftrightarrow> list_ex (\<lambda>d. source d = src) (documents st)"
proof -
  have "src \<in> dom (view st) \<longleftrightarrow> find (\<lambda>d. source d = src) (documents st) \<noteq> None"
    by (auto simp: view_def)
  also have "\<dots> \<longleftrightarrow> list_ex (\<lambda>d. source d = src) (documents st)"
    using find_None_iff [of "\<lambda>d. source d = src" "documents st"] by (auto simp: list_ex_iff)
  finally show ?thesis .
qed

lemma delete_source_absent:
  assumes "\<not> list_ex (\<lambda>d. source d = src) (documents st)"
  shows "fst (delete_source src st) = st"
proof -
  have "filter (\<lambda>d. source d \<noteq> src) (documents st) = documents st"
    using assms by (simp add: list_ex_iff)
  moreover have "filter (\<lambda>d. source d = src) (documents st) = []"
    using assms by (simp add: list_ex_iff filter_empty_conv)
  ultimately show ?thesis by (simp add: delete_source_def)
qed

lemma view_Some_iff:
  assumes "db_inv st"
  shows "view st src = Some v \<longleftrightarrow>
         (\<exists>d \<in> set (documents st). source d = src \<and>
            v = (source_type d, indexed_at d, content_size d, chunk_count d, title d, doc_chunks st d))"
proof
  assume "view st src = Some v"
  then show "\<exists>d \<in> set (documents st). source d = src \<and>
            v = (source_type d, indexed_at d, content_size d, chunk_count d, title d, doc_chunks st d)"
    by (auto simp: view_def find_Some_iff nth_mem)
next
  assume "\<exists>d \<in> set (documents st). source d = src \<and>
            v = (source_type d, indexed_at d, content_size d, chunk_count d, title d, doc_chunks st d)"
  then obtain d where d: "d \<in> set (documents st)" "source d = src"
    "v = (source_type d, indexed_at d, content_size d, chunk_count d, title d, doc_chunks st d)" by blast
  have "find (\<lambda>y. source y = source d) (documents st) = Some d"
    using db_invD(1) [OF assms] d(1) by (rule find_unique)
  then show "view st src = Some v" using d by (simp add: view_def)
qed

lemma search_Inr:
  "search fails cos_dist q topK minScore sourceFilter st = Inr rs \<Longrightarrow>
   length q = embeddingDimension \<and> \<not> fails SSearchQuery \<and> \<not> fails SSearchRows \<and>
   rs = filter (\<lambda>r. minScore \<le> score r)
          (sql_limit topK (sort_desc score (search_candidates cos_dist (serialize_embedding q) sourceFilter st)))"
  by (auto simp: search_def Let_def split: if_splits)

lemma set_sql_limit: "set (sql_limit k xs) \<subseteq> set xs"
  by (auto simp: sql_limit_def dest: in_set_takeD)

lemma sorted_sql_limit:
  "sorted_wrt R xs \<Longrightarrow> sorted_wrt R (sql_limit k xs)"
  by (simp add: sql_limit_def)

lemma length_filter_sql_limit: "0 \<le> k \<Longrightarrow> length (filter P (sql_limit k xs)) \<le> nat k"
  unfolding sql_limit_def by (simp add: order_trans [OF length_filter_le])

lemma takeWhile_take_comm: "takeWhile P (take n xs) = take n (takeWhile P xs)"
  by (induction xs arbitrary: n) (auto simp: take_Cons')

lemma filter_sql_limit_sorted:
  fixes f :: "'a \<Rightarrow> 'b::linorder"
  assumes "sorted_wrt (\<lambda>a b. f b \<le> f a) xs"
  shows "filter (\<lambda>x. t \<le> f x) (sql_limit k xs) = sql_limit k (filter (\<lambda>x. t \<le> f x) xs)"
proof -
  have "sorted_wrt (\<lambda>a b. f b \<le> f a) (sql_limit k xs)" using assms by (rule sorted_sql_limit)
  then show ?thesis using assms
    by (simp add: filter_sorted_desc_takeWhile sql_limit_def takeWhile_take_comm)
qed

lemma search_candidates_mem:
  "r \<in> set (search_candidates cos_dist qb sourceFilter st) \<Longrightarrow>
   \<exists>c \<in> set (chunks st). \<exists>d \<in> set (documents st). document_id c = doc_id d \<and>
      (sourceFilter = [] \<or> source d = sourceFilter) \<and>
      r = \<lparr>res_content = content c, res_source = source d, res_chunk_index = chunk_index c,
           score = 1 - cos_dist (embedding c) qb\<rparr>"
  by (auto simp: search_candidates_def)


subsection \<open>Properties of the store\<close>

text \<open>C18. A successful \<open>IndexDocument\<close> keeps the schema invariant and refines
  replace-on-reindex: in the abstract view the source now maps to exactly the new
  document and its chunks, in order, and every other source is unchanged.\<close>

theorem index_document_refines_view:
  assumes "db_inv st" "fst (index_document fails now src ty ttl cs st) = Inr ()"
  shows "db_inv (snd (index_document fails now src ty ttl cs st)) \<and>
         view (snd (index_document fails now src ty ttl cs st)) =
           (view st)(src \<mapsto> (ty, now, int (sum_list (map (\<lambda>c. utf8_len (sc_content c)) cs)),
                               int (length cs), ttl, map sc_view cs))"
  using index_body_inv [OF assms(1) index_document_Inr [OF assms(2)]]
        view_index_body [OF assms(1) index_document_Inr [OF assms(2)]] by simp

theorem index_document_refines_view_witness:
  "db_inv new_database \<and>
   fst (index_document (\<lambda>_. False) 0 ''a'' ''file'' ''t''
          [\<lparr>sc_index = 0, sc_content = [104, 105], sc_start = 0, sc_end = 2, sc_embedding = []\<rparr>]
          new_database) = Inr () \<and>
   db_inv (snd (index_document (\<lambda>_. False) 0 ''a'' ''file'' ''t''
          [\<lparr>sc_index = 0, sc_content = [104, 105], sc_start = 0, sc_end = 2, sc_embedding = []\<rparr>]
          new_database)) \<and>
   view (snd (index_document (\<lambda>_. False) 0 ''a'' ''file'' ''t''
          [\<lparr>sc_index = 0, sc_content = [104, 105], sc_start = 0, sc_end = 2, sc_embedding = []\<rparr>]
          new_database)) =
     (view new_database)(''a'' \<mapsto> (''file'', 0, 2, 1, ''t'', [(0, [104, 105], 0, 2, [])]))"
proof -
  let ?cs = "[\<lparr>sc_index = 0, sc_content = [104, 105], sc_start = 0, sc_end = 2, sc_embedding = []\<rparr>]"
  have i: "db_inv new_database" by (simp add: db_inv_def new_database_def)
  have s: "fst (index_document (\<lambda>_. False) 0 ''a'' ''file'' ''t'' ?cs new_database) = Inr ()"
    by (simp add: index_document_def run_tx_def index_body_def insert_document_def new_database_def
                  delete_source_def Let_def)
  have e: "int (sum_list (map (\<lambda>c. utf8_len (sc_content c)) ?cs)) = 2" "map sc_view ?cs = [(0, [104, 105], 0, 2, [])]"
    by (simp_all add: utf8_len_def rune_len_def sc_view_def serialize_embedding_def)
  show ?thesis using i s index_document_refines_view [OF i s] unfolding e by simp
qed

text \<open>An error of \<open>IndexDocument\<close>, from any statement of the transaction,
  leaves the database as it was.\<close>

lemma index_document_Inl:
  assumes "fst (index_document fails now src ty ttl cs st) = Inl e"
  shows "snd (index_document fails now src ty ttl cs st) = st"
  using assms run_tx_Inl unfolding index_document_def by blast


text \<open>C20. When no statement fails, \<open>IndexDocument\<close> succeeds on every database:
  the \<open>UNIQUE\<close> constraint on \<open>source\<close> never trips, because the old document of
  the source is deleted first in the same transaction.\<close>

theorem index_document_no_failure_succeeds:
  "fst (index_document (\<lambda>_. False) now src ty ttl cs st) = Inr ()"
proof -
  have "insert_chunks (\<lambda>_. False) docId k cs' st0 = Inr (fold (insert_chunk docId) cs' st0)" for docId k cs' st0
    by (induction cs' arbitrary: k st0) simp_all
  then show ?thesis
    by (simp add: index_document_def run_tx_def index_body_def insert_document_def list_ex_iff Let_def)
qed

text \<open>C21. \<open>DeleteDocument\<close>, when its statements succeed, keeps the schema
  invariant, reports not-found exactly for a source the view does not hold, and
  removes the source from the view, leaving every other source unchanged.\<close>

theorem delete_document_refines_view:
  assumes "db_inv st" "\<not> fails SDelete" "\<not> fails SRowsAffected"
  shows "fst (delete_document fails src st) = (if src \<in> dom (view st) then Inr () else Inl (ErrNotFound src)) \<and>
         db_inv (snd (delete_document fails src st)) \<and>
         view (snd (delete_document fails src st)) = (view st)(src := None)"
  using assms delete_source_inv [OF assms(1)] view_delete_source [OF assms(1)]
  by (simp add: delete_document_cases view_dom)

theorem delete_document_refines_view_witness:
  "db_inv new_database \<and> \<not> (\<lambda>_. False) SDelete \<and> \<not> (\<lambda>_. False) SRowsAffected \<and>
   fst (delete_document (\<lambda>_. False) ''a'' new_database) = Inl (ErrNotFound ''a'') \<and>
   db_inv (snd (delete_document (\<lambda>_. False) ''a'' new_database)) \<and>
   view (snd (delete_document (\<lambda>_. False) ''a'' new_database)) = (view new_database)(''a'' := None)"
proof -
  have i: "db_inv new_database" by (simp add: db_inv_def new_database_def)
  have n: "''a'' \<notin> dom (view new_database)" by (simp add: view_dom new_database_def)
  show ?thesis using i n delete_document_refines_view [OF i, of "\<lambda>_. False" "''a''"] by simp
qed


text \<open>C23. Every database reachable from \<open>NewDatabase\<close> by \<open>IndexDocument\<close> and
  \<open>DeleteDocument\<close>, under any statement failures, satisfies the schema
  invariant, and foreign keys are never enforced on it.\<close>

theorem store_reach_inv:
  assumes "store_reach st"
  shows "db_inv st \<and> \<not> foreign_keys st"
  using assms
proof (induction rule: store_reach.induct)
  case init
  then show ?case by (simp add: db_inv_def new_database_def)
next
  case (index st fails now src ty ttl cs)
  have "foreign_keys (snd (index_document fails now src ty ttl cs st)) = foreign_keys st"
  proof (cases "fst (index_document fails now src ty ttl cs st)")
    case (Inl e)
    then show ?thesis using run_tx_Inl [of fails] by (simp add: index_document_def)
  next
    case (Inr u)
    then show ?thesis using index_body_Inr [OF index_document_Inr [OF Inr]] by simp
  qed
  then show ?case using index index_document_inv by simp
next
  case (delete st fails src)
  then show ?case using delete_document_inv by (simp add: delete_document_cases)
qed

theorem store_reach_inv_witness:
  "store_reach (snd (delete_document (\<lambda>_. False) ''a'' new_database)) \<and>
   db_inv (snd (delete_document (\<lambda>_. False) ''a'' new_database)) \<and>
   \<not> foreign_keys (snd (delete_document (\<lambda>_. False) ''a'' new_database))"
proof -
  have r: "store_reach (snd (delete_document (\<lambda>_. False) ''a'' new_database))"
    by (intro store_reach.delete store_reach.init)
  show ?thesis using r store_reach_inv [OF r] by blast
qed

text \<open>C24. The schema declares \<open>ON DELETE CASCADE\<close>, and the spec requires that no
  chunk outlive its document, but foreign keys are never enabled: on every
  reachable database \<open>DeleteDocument\<close> leaves all chunk rows in place, those of
  the deleted document included.\<close>

theorem orphan_chunks_after_delete:
  assumes "store_reach st"
  shows "chunks (snd (delete_document fails src st)) = chunks st"
  using store_reach_inv [OF assms] by (simp add: delete_document_cases)

theorem orphan_chunks_after_delete_witness:
  "store_reach (snd (index_document (\<lambda>_. False) 0 ''a'' ''file'' ''t''
      [\<lparr>sc_index = 0, sc_content = [104, 105], sc_start = 0, sc_end = 2, sc_embedding = []\<rparr>]
      new_database)) \<and>
   fst (delete_document (\<lambda>_. False) ''a'' (snd (index_document (\<lambda>_. False) 0 ''a'' ''file'' ''t''
      [\<lparr>sc_index = 0, sc_content = [104, 105], sc_start = 0, sc_end = 2, sc_embedding = []\<rparr>]
      new_database))) = Inr () \<and>
   documents (snd (delete_document (\<lambda>_. False) ''a'' (snd (index_document (\<lambda>_. False) 0 ''a'' ''file'' ''t''
      [\<lparr>sc_index = 0, sc_content = [104, 105], sc_start = 0, sc_end = 2, sc_embedding = []\<rparr>]
      new_database)))) = [] \<and>
   chunks (snd (delete_document (\<lambda>_. False) ''a'' (snd (index_document (\<lambda>_. False) 0 ''a'' ''file'' ''t''
      [\<lparr>sc_index = 0, sc_content = [104, 105], sc_start = 0, sc_end = 2, sc_embedding = []\<rparr>]
      new_database)))) =
   [\<lparr>chunk_id = 1, document_id = 1, chunk_index = 0, content = [104, 105], start_offset = 0,
     end_offset = 2, embedding = []\<rparr>]"
proof -
  let ?st = "snd (index_document (\<lambda>_. False) 0 ''a'' ''file'' ''t''
      [\<lparr>sc_index = 0, sc_content = [104, 105], sc_start = 0, sc_end = 2, sc_embedding = []\<rparr>]
      new_database)"
  have r: "store_reach ?st" by (intro store_reach.index store_reach.init)
  have c: "chunks ?st = [\<lparr>chunk_id = 1, document_id = 1, chunk_index = 0, content = [104, 105],
             start_offset = 0, end_offset = 2, embedding = []\<rparr>]"
       "documents ?st \<noteq> []" "list_all (\<lambda>d. source d = ''a'') (documents ?st)"
    by (simp_all add: index_document_def run_tx_def index_body_def insert_document_def new_database_def
                      delete_source_def Let_def serialize_embedding_def)
  have "fst (delete_document (\<lambda>_. False) ''a'' ?st) = Inr ()"
       "documents (snd (delete_document (\<lambda>_. False) ''a'' ?st)) = []"
    using c(2,3) by (auto simp: delete_document_cases list_ex_iff list_all_iff filter_empty_conv neq_Nil_conv)
  then show ?thesis using r c(1) orphan_chunks_after_delete [OF r, of "\<lambda>_. False" "''a''"] by simp
qed


text \<open>C25. Every search result is a row of the join: a chunk of a document that is
  in the store, with that document's source, the chunk's text and index, and
  the source filter respected.\<close>

theorem search_results_live:
  assumes "search fails cos_dist q topK minScore sourceFilter st = Inr rs" "r \<in> set rs"
  shows "\<exists>c \<in> set (chunks st). \<exists>d \<in> set (documents st). document_id c = doc_id d \<and>
           source d = res_source r \<and> content c = res_content r \<and> chunk_index c = res_chunk_index r \<and>
           (sourceFilter = [] \<or> res_source r = sourceFilter)"
proof -
  have "r \<in> set (search_candidates cos_dist (serialize_embedding q) sourceFilter st)"
    using search_Inr [OF assms(1)] assms(2) set_sql_limit by fastforce
  from search_candidates_mem [OF this] show ?thesis by fastforce
qed

text \<open>C26. After a successful \<open>DeleteDocument\<close> no search returns a chunk of the
  deleted source, although its chunk rows stay behind (C24): the join with
  \<open>documents\<close> hides them.\<close>

theorem search_after_delete:
  assumes "fst (delete_document fails src st) = Inr ()"
    "search qfails cos_dist q topK minScore sourceFilter (snd (delete_document fails src st)) = Inr rs"
  shows "\<forall>r \<in> set rs. res_source r \<noteq> src"
proof
  fix r assume r: "r \<in> set rs"
  have st': "snd (delete_document fails src st) = fst (delete_source src st)"
    using assms(1) by (simp add: delete_document_cases split: if_splits)
  have "r \<in> set (search_candidates cos_dist (serialize_embedding q) sourceFilter (fst (delete_source src st)))"
    using search_Inr [OF assms(2)] r set_sql_limit unfolding st' by fastforce
  from search_candidates_mem [OF this] show "res_source r \<noteq> src" by auto
qed


theorem search_results_live_witness:
  "let st = snd (index_document (\<lambda>_. False) 0 ''a'' ''file'' ''t''
              [\<lparr>sc_index = 0, sc_content = [104, 105], sc_start = 0, sc_end = 2, sc_embedding = []\<rparr>]
              new_database);
       r = \<lparr>res_content = [104, 105], res_source = ''a'', res_chunk_index = 0, score = 1\<rparr>
   in search (\<lambda>_. False) (\<lambda>_ _. 0) (replicate 1536 0) 5 (3 / 10) [] st = Inr [r] \<and> r \<in> set [r] \<and>
      (\<exists>c \<in> set (chunks st). \<exists>d \<in> set (documents st). document_id c = doc_id d \<and>
         source d = res_source r \<and> content c = res_content r \<and> chunk_index c = res_chunk_index r \<and>
         ([] = [] \<or> res_source r = []))"
proof -
  let ?st = "snd (index_document (\<lambda>_. False) 0 ''a'' ''file'' ''t''
              [\<lparr>sc_index = 0, sc_content = [104, 105], sc_start = 0, sc_end = 2, sc_embedding = []\<rparr>]
              new_database)"
  let ?r = "\<lparr>res_content = [104, 105], res_source = ''a'', res_chunk_index = 0, score = 1 :: real\<rparr>"
  have s: "search (\<lambda>_. False) (\<lambda>_ _. 0) (replicate 1536 0) 5 (3 / 10) [] ?st = Inr [?r]"
    by (simp add: search_def search_candidates_def sql_limit_def embeddingDimension_def
                  index_document_def run_tx_def index_body_def insert_document_def new_database_def
                  delete_source_def Let_def)
  have m: "?r \<in> set [?r]" by simp
  show ?thesis using s m search_results_live [OF s m] unfolding Let_def by blast
qed


theorem search_after_delete_witness:
  "let st = snd (index_document (\<lambda>_. False) 1 ''b'' ''file'' ''''
              [\<lparr>sc_index = 0, sc_content = [98], sc_start = 0, sc_end = 1, sc_embedding = []\<rparr>]
              (snd (index_document (\<lambda>_. False) 0 ''a'' ''file'' ''''
                 [\<lparr>sc_index = 0, sc_content = [97], sc_start = 0, sc_end = 1, sc_embedding = []\<rparr>]
                 new_database)));
       rs = [\<lparr>res_content = [98], res_source = ''b'', res_chunk_index = 0, score = 1\<rparr>]
   in fst (delete_document (\<lambda>_. False) ''a'' st) = Inr () \<and>
      search (\<lambda>_. False) (\<lambda>_ _. 0) (replicate 1536 0) 5 (3 / 10) [] (snd (delete_document (\<lambda>_. False) ''a'' st)) = Inr rs \<and>
      list_all (\<lambda>r. res_source r \<noteq> ''a'') rs"
proof -
  let ?st = "snd (index_document (\<lambda>_. False) 1 ''b'' ''file'' ''''
              [\<lparr>sc_index = 0, sc_content = [98], sc_start = 0, sc_end = 1, sc_embedding = []\<rparr>]
              (snd (index_document (\<lambda>_. False) 0 ''a'' ''file'' ''''
                 [\<lparr>sc_index = 0, sc_content = [97], sc_start = 0, sc_end = 1, sc_embedding = []\<rparr>]
                 new_database)))"
  let ?rs = "[\<lparr>res_content = [98], res_source = ''b'', res_chunk_index = 0, score = 1 :: real\<rparr>]"
  have d: "fst (delete_document (\<lambda>_. False) ''a'' ?st) = Inr ()"
    by (simp add: delete_document_def index_document_def run_tx_def index_body_def insert_document_def
                  new_database_def delete_source_def Let_def)
  have s: "search (\<lambda>_. False) (\<lambda>_ _. 0) (replicate 1536 0) 5 (3 / 10) [] (snd (delete_document (\<lambda>_. False) ''a'' ?st)) = Inr ?rs"
    by (simp add: search_def search_candidates_def sql_limit_def embeddingDimension_def delete_document_def
                  index_document_def run_tx_def index_body_def insert_document_def new_database_def
                  delete_source_def Let_def)
  show ?thesis using d s search_after_delete [OF d s] unfolding Let_def by (simp add: list_all_iff)
qed



text \<open>C27. Search results are ranked: sorted by score, highest first; at most
  \<open>topK\<close> of them when \<open>topK\<close> is not negative (a negative \<open>LIMIT\<close> is no limit in
  SQLite); each reaches \<open>minScore\<close>.\<close>

theorem search_ranked:
  assumes "search fails cos_dist q topK minScore sourceFilter st = Inr rs"
  shows "sorted_wrt (\<lambda>a b. score b \<le> score a) rs \<and>
         (0 \<le> topK \<longrightarrow> length rs \<le> nat topK) \<and>
         (\<forall>r \<in> set rs. minScore \<le> score r)"
proof -
  let ?ranked = "sql_limit topK (sort_desc score (search_candidates cos_dist (serialize_embedding q) sourceFilter st))"
  have rs: "rs = filter (\<lambda>r. minScore \<le> score r) ?ranked" using search_Inr [OF assms] by simp
  have "sorted_wrt (\<lambda>a b. score b \<le> score a) ?ranked" by (intro sorted_sql_limit sorted_sort_desc)
  then have "sorted_wrt (\<lambda>a b. score b \<le> score a) rs" unfolding rs by (rule sorted_wrt_filter)
  moreover have "0 \<le> topK \<longrightarrow> length rs \<le> nat topK"
    unfolding rs by (simp add: length_filter_sql_limit)
  ultimately show ?thesis using rs by simp
qed

theorem search_ranked_witness:
  "let st = snd (index_document (\<lambda>_. False) 0 ''a'' ''file'' ''t''
              [\<lparr>sc_index = 0, sc_content = [104, 105], sc_start = 0, sc_end = 2, sc_embedding = []\<rparr>]
              new_database);
       r = \<lparr>res_content = [104, 105], res_source = ''a'', res_chunk_index = 0, score = 1\<rparr>
   in search (\<lambda>_. False) (\<lambda>_ _. 0) (replicate 1536 0) 1 (3 / 10) [] st = Inr [r] \<and>
      sorted_wrt (\<lambda>a b. score b \<le> score a) [r] \<and> length [r] \<le> nat 1 \<and> 3 / 10 \<le> score r"
proof -
  let ?st = "snd (index_document (\<lambda>_. False) 0 ''a'' ''file'' ''t''
              [\<lparr>sc_index = 0, sc_content = [104, 105], sc_start = 0, sc_end = 2, sc_embedding = []\<rparr>]
              new_database)"
  let ?r = "\<lparr>res_content = [104, 105], res_source = ''a'', res_chunk_index = 0, score = 1 :: real\<rparr>"
  have s: "search (\<lambda>_. False) (\<lambda>_ _. 0) (replicate 1536 0) 1 (3 / 10) [] ?st = Inr [?r]"
    by (simp add: search_def search_candidates_def sql_limit_def embeddingDimension_def
                  index_document_def run_tx_def index_body_def insert_document_def new_database_def
                  delete_source_def Let_def)
  show ?thesis using s search_ranked [OF s] unfolding Let_def by simp
qed

text \<open>C32. Where \<open>minScore\<close> is applied makes no difference: filtering all the
  ranked rows by \<open>minScore\<close> first and taking the top \<open>topK\<close> after gives the
  same results as \<open>Search\<close>, because the rows are sorted by score. A chunk below
  the K-th position is never returned only because K better chunks already
  reach \<open>minScore\<close>.\<close>

theorem search_minscore_order_irrelevant:
  "search fails cos_dist q topK minScore sourceFilter st =
     (if length q \<noteq> embeddingDimension then Inl (ErrDimension (length q))
      else if fails SSearchQuery then Inl ErrSearchQuery
      else if fails SSearchRows then Inl ErrSearchRows
      else Inr (sql_limit topK (filter (\<lambda>r. minScore \<le> score r)
                 (sort_desc score (search_candidates cos_dist (serialize_embedding q) sourceFilter st)))))"
proof -
  let ?c = "search_candidates cos_dist (serialize_embedding q) sourceFilter st"
  have "filter (\<lambda>r. minScore \<le> score r) (sql_limit topK (sort_desc score ?c)) =
        sql_limit topK (filter (\<lambda>r. minScore \<le> score r) (sort_desc score ?c))"
    by (rule filter_sql_limit_sorted [OF sorted_sort_desc])
  then show ?thesis by (simp add: search_def Let_def)
qed

text \<open>A query vector whose length is not the embedding dimension is rejected
  with the dimension error, before any row is read.\<close>

theorem search_dimension_error:
  assumes "length q \<noteq> embeddingDimension"
  shows "search fails cos_dist q topK minScore sourceFilter st = Inl (ErrDimension (length q))"
  using assms by (simp add: search_def)

theorem search_dimension_error_witness:
  "length [0 :: f32] \<noteq> embeddingDimension \<and>
   search (\<lambda>_. False) (\<lambda>_ _. 0) [0] 5 (3 / 10) [] new_database = Inl (ErrDimension 1)"
proof -
  have l: "length [0 :: f32] \<noteq> embeddingDimension" by (simp add: embeddingDimension_def)
  show ?thesis using l search_dimension_error [OF l, of "\<lambda>_. False" "\<lambda>_ _. 0" 5 "3 / 10" "[]" new_database] by simp
qed

text \<open>\<open>ListDocuments\<close> returns exactly the documents of the requested
  \<open>source_type\<close> (all of them for the empty filter), each once, newest first.\<close>

theorem list_documents_sorted:
  "\<exists>ds. list_documents fails f st =
          (if fails SListQuery then Inl ErrListQuery else if fails SListRows then Inl ErrListRows else Inr ds) \<and>
        mset ds = mset (filter (\<lambda>d. f = [] \<or> source_type d = f) (documents st)) \<and>
        sorted_wrt (\<lambda>a b. indexed_at b \<le> indexed_at a) ds"
  by (rule exI [of _ "sort_desc indexed_at (filter (\<lambda>d. f = [] \<or> source_type d = f) (documents st))"])
     (simp add: list_documents_def sorted_sort_desc)

end
