(* ===== verification/Embeddings.thy ===== *)
theory Embeddings
  imports Prelude
begin

text \<open>
  The embedding gateway, package \<open>embeddings\<close> (the second file of
  \<open>src/internal/storage/database.go\<close>, lines 314--498): \<open>Embed\<close> cuts the texts
  into batches of \<open>maxBatchSize\<close>, calls \<open>embedBatch\<close> on each and pauses
  between batches; \<open>embedBatch\<close> posts one request, retries on HTTP 429 with
  exponential backoff, and reassembles the vectors by the index the provider
  tags them with.

  The provider and the clock are the environment: \<open>http_do env i a ts\<close> is the
  outcome of attempt \<open>a\<close> of the batch starting at text \<open>i\<close> with inputs \<open>ts\<close>,
  and \<open>cancelled env w\<close> says whether the context is done before the timer of the
  wait \<open>w\<close> fires. The texts are of any type \<open>'t\<close>: the gateway never looks
  inside them.
\<close>

definition maxBatchSize :: nat where "maxBatchSize = 100"
definition maxRetries :: nat where "maxRetries = 3"

text \<open>The package's own \<open>embeddingDimension\<close> constant.\<close>

definition embedDimension :: nat where "embedDimension = 1536"

text \<open>\<open>time.Duration(1<<uint(attempt)) * time.Second\<close>, in seconds.\<close>

definition backoff :: "nat \<Rightarrow> nat" where "backoff attempt = 2 ^ attempt"

record api_item =
  item_embedding :: "f32 list"
  item_index :: int

record api_error =
  err_message :: string
  err_type :: string
  err_code :: string

text \<open>What \<open>io.ReadAll\<close> and \<open>json.Unmarshal\<close> make of a body: a read error, a
  body that is not the response JSON, or its \<open>data\<close> and \<open>error\<close> fields.\<close>

datatype payload = ReadFailure | Unparsable | Parsed "api_item list" "api_error option"

record http_response =
  resp_status :: nat
  resp_payload :: payload

datatype http_outcome = TransportError | Response http_response

text \<open>The two \<open>select\<close>s: the backoff of attempt \<open>a\<close> of the batch at \<open>i\<close> (its
  length in seconds), and the 100 ms pause after the batch at \<open>i\<close>.\<close>

datatype wait = Backoff nat nat nat | Pause nat

text \<open>\<open>Client\<close> and \<open>NewClient\<close>: the client keeps the API key it sends as
  the bearer token of every request; the 30 s timeout of its HTTP client is not
  modelled. The provider's answers, as seen with the client's key, are the
  environment below.\<close>

record client =
  client_api_key :: string

definition new_client :: "string \<Rightarrow> client" where
  "new_client apiKey = \<lparr>client_api_key = apiKey\<rparr>"

record 't embed_env =
  http_do :: "nat \<Rightarrow> nat \<Rightarrow> 't list \<Rightarrow> http_outcome"
  cancelled :: "wait \<Rightarrow> bool"

datatype emb_error =
    ErrExecute | ErrCancelled | ErrRead | ErrParse | ErrAPI string string | ErrHTTP nat
  | ErrInvalidIndex int | ErrDimension nat | ErrIndexPanic int | ErrMissing nat
  | ErrBatch nat nat emb_error

subsection \<open>\<open>embedBatch\<close>\<close>

text \<open>The retry loop \<open>for attempt := 0; attempt < maxRetries; attempt++\<close>: a 429
  closes the body and, before the last attempt, waits and retries; the last 429
  leaves the loop with the closed response. The result is the response and
  whether its body is closed.\<close>

function do_attempts ::
  "'t embed_env \<Rightarrow> nat \<Rightarrow> 't list \<Rightarrow> nat \<Rightarrow> emb_error + http_response \<times> bool" where
  "do_attempts env i texts attempt =
     (case http_do env i attempt texts of
        TransportError \<Rightarrow> Inl ErrExecute
      | Response r \<Rightarrow>
          (if resp_status r = 429 then
             (if attempt < maxRetries - 1 then
                (if cancelled env (Backoff i attempt (backoff attempt)) then Inl ErrCancelled
                 else do_attempts env i texts (Suc attempt))
              else Inr (r, True))
           else Inr (r, False)))"
  by pat_completeness auto
termination
  by (relation "measure (\<lambda>(_, _, _, a). maxRetries - a)") (auto simp: maxRetries_def)

declare do_attempts.simps [simp del]

text \<open>The loop \<open>for _, item := range embResp.Data\<close>: an index at or past the
  batch length is an error, then a vector of the wrong length; a negative index
  passes both checks and makes \<open>embeddings[item.Index]\<close> panic. \<open>None\<close> is a
  \<open>nil\<close> slot of \<open>make([][]float32, len(texts))\<close>.\<close>

fun place :: "api_item list \<Rightarrow> f32 list option list \<Rightarrow> emb_error + f32 list option list" where
  "place [] acc = Inr acc"
| "place (it # its) acc =
     (if item_index it \<ge> int (length acc) then Inl (ErrInvalidIndex (item_index it))
      else if length (item_embedding it) \<noteq> embedDimension
      then Inl (ErrDimension (length (item_embedding it)))
      else if item_index it < 0 then Inl (ErrIndexPanic (item_index it))
      else place its (acc[nat (item_index it) := Some (item_embedding it)]))"

text \<open>\<open>for i, emb := range embeddings { if emb == nil ... }\<close>.\<close>

fun check_all :: "nat \<Rightarrow> f32 list option list \<Rightarrow> emb_error + f32 list list" where
  "check_all i [] = Inr []"
| "check_all i (None # es) = Inl (ErrMissing i)"
| "check_all i (Some e # es) = (case check_all (Suc i) es of Inl err \<Rightarrow> Inl err | Inr vs \<Rightarrow> Inr (e # vs))"

text \<open>The response after the loop: \<open>io.ReadAll\<close> (which fails on a closed
  body), \<open>json.Unmarshal\<close>, the API error, the HTTP status, then reassembly.\<close>

definition handle_response :: "nat \<Rightarrow> http_response \<Rightarrow> bool \<Rightarrow> emb_error + f32 list list" where
  "handle_response n r closed =
     (if closed then Inl ErrRead
      else (case resp_payload r of
              ReadFailure \<Rightarrow> Inl ErrRead
            | Unparsable \<Rightarrow> Inl ErrParse
            | Parsed items err \<Rightarrow>
                (case err of
                   Some e \<Rightarrow> Inl (ErrAPI (err_message e) (err_type e))
                 | None \<Rightarrow>
                     if resp_status r \<noteq> 200 then Inl (ErrHTTP (resp_status r))
                     else (case place items (replicate n None) of
                             Inl e \<Rightarrow> Inl e
                           | Inr acc \<Rightarrow> check_all 0 acc))))"

definition embed_batch :: "'t embed_env \<Rightarrow> nat \<Rightarrow> 't list \<Rightarrow> emb_error + f32 list list" where
  "embed_batch env i texts =
     (case do_attempts env i texts 0 of
        Inl e \<Rightarrow> Inl e
      | Inr (r, closed) \<Rightarrow> handle_response (length texts) r closed)"

subsection \<open>\<open>Embed\<close>\<close>

text \<open>The loop \<open>for i := 0; i < len(texts); i += maxBatchSize\<close>, with the
  vectors gathered so far.\<close>

function embed_loop ::
  "'t embed_env \<Rightarrow> 't list \<Rightarrow> nat \<Rightarrow> f32 list list \<Rightarrow> emb_error + f32 list list" where
  "embed_loop env texts i acc =
     (if i < length texts then
        (let e = min (i + maxBatchSize) (length texts)
         in case embed_batch env i (go_slice texts (int i) (int e)) of
              Inl err \<Rightarrow> Inl (ErrBatch i e err)
            | Inr vs \<Rightarrow>
                (if e < length texts \<and> cancelled env (Pause i) then Inl ErrCancelled
                 else embed_loop env texts (i + maxBatchSize) (acc @ vs)))
      else Inr acc)"
  by pat_completeness auto
termination
  by (relation "measure (\<lambda>(_, texts, i, _). length texts - i)") (auto simp: maxBatchSize_def)

declare embed_loop.simps [simp del]

definition embed_texts :: "'t embed_env \<Rightarrow> 't list \<Rightarrow> emb_error + f32 list list" where
  "embed_texts env texts = (if texts = [] then Inr [] else embed_loop env texts 0 [])"


text \<open>What a correct provider answers for a batch: the vector of text \<open>j\<close>
  tagged with index \<open>j\<close>, in some order.\<close>

definition tagged :: "f32 list list \<Rightarrow> api_item list" where
  "tagged vs = map (\<lambda>j. \<lparr>item_embedding = vs ! j, item_index = int j\<rparr>) [0..<length vs]"

subsection \<open>Reassembly\<close>

abbreviation put_item :: "api_item \<Rightarrow> f32 list option list \<Rightarrow> f32 list option list" where
  "put_item it acc \<equiv> acc[nat (item_index it) := Some (item_embedding it)]"

abbreviation item_ok :: "nat \<Rightarrow> api_item \<Rightarrow> bool" where
  "item_ok n it \<equiv> 0 \<le> item_index it \<and> item_index it < int n \<and> length (item_embedding it) = embedDimension"

lemma place_Inr_iff:
  "place its acc = Inr acc' \<longleftrightarrow> list_all (item_ok (length acc)) its \<and> acc' = fold put_item its acc"
  by (induction its arbitrary: acc) auto

lemma fold_put_item_nth:
  assumes "distinct (map item_index its)" "list_all (item_ok (length acc)) its" "j < length acc"
  shows "fold put_item its acc ! j =
           (if \<exists>it \<in> set its. item_index it = int j
            then Some (item_embedding (THE it. it \<in> set its \<and> item_index it = int j)) else acc ! j)"
  using assms
proof (induction its arbitrary: acc)
  case Nil
  then show ?case by simp
next
  case (Cons it its)
  have len: "length (put_item it acc) = length acc" by simp
  have IH: "fold put_item its (put_item it acc) ! j =
              (if \<exists>x \<in> set its. item_index x = int j
               then Some (item_embedding (THE x. x \<in> set its \<and> item_index x = int j))
               else put_item it acc ! j)"
    using Cons.prems by (intro Cons.IH) (simp_all add: len)
  show ?case
  proof (cases "item_index it = int j")
    case True
    then have "\<forall>x \<in> set its. item_index x \<noteq> int j" using Cons.prems(1) by (auto simp: image_iff)
    moreover have "(THE x. x \<in> set (it # its) \<and> item_index x = int j) = it"
      using True \<open>\<forall>x \<in> set its. item_index x \<noteq> int j\<close> by force
    ultimately show ?thesis using IH True Cons.prems(3) by simp
  next
    case False
    then have "nat (item_index it) \<noteq> j" using Cons.prems(2) by auto
    moreover have "(THE x. x \<in> set (it # its) \<and> item_index x = int j) =
                   (THE x. x \<in> set its \<and> item_index x = int j)"
      using False by (metis set_ConsD list.set_intros(2))
    ultimately show ?thesis using IH False by simp
  qed
qed

lemma check_all_Inl:
  "None \<in> set es \<Longrightarrow> check_all i es = Inl (ErrMissing (i + (LEAST j. es ! j = None)))"
proof (induction i es rule: check_all.induct)
  case (1 i)
  then show ?case by simp
next
  case (2 i es)
  then show ?case by (simp add: Least_eq_0)
next
  case (3 i e es)
  then have "None \<in> set es" by simp
  then obtain k where "k < length es" "es ! k = None" by (metis in_set_conv_nth)
  then have "(LEAST j. (Some e # es) ! j = None) = Suc (LEAST j. es ! j = None)"
    by (intro Least_Suc2 [where n = "Suc k"]) simp_all
  then show ?case using 3 \<open>None \<in> set es\<close> by simp
qed

lemma check_all_complete: "None \<notin> set es \<Longrightarrow> check_all i es = Inr (map the es)"
  by (induction i es rule: check_all.induct) auto

lemma check_all_Inr_iff:
  "check_all i es = Inr vs \<longleftrightarrow> None \<notin> set es \<and> vs = map the es"
  by (cases "None \<in> set es") (auto simp: check_all_Inl check_all_complete)

lemma set_tagged: "set (tagged vs) = {\<lparr>item_embedding = vs ! j, item_index = int j\<rparr> | j. j < length vs}"
  by (auto simp: tagged_def)

lemma distinct_tagged: "distinct (map item_index (tagged vs))"
proof -
  have "map item_index (tagged vs) = map int [0..<length vs]"
    by (simp add: tagged_def)
  then show ?thesis by (simp add: distinct_map inj_on_def)
qed

lemma place_tagged:
  assumes "mset items = mset (tagged vs)" "list_all (\<lambda>v. length v = embedDimension) vs"
  shows "place items (replicate (length vs) None) = Inr (map Some vs)"
proof -
  have set_eq: "set items = set (tagged vs)" using assms(1) by (metis set_mset_mset)
  have dist: "distinct (map item_index items)"
    using assms(1) distinct_tagged by (metis mset_eq_imp_distinct_iff mset_map)
  have ok: "list_all (item_ok (length vs)) items"
    using assms(2) by (auto simp: list_all_iff set_eq set_tagged)
  have "fold put_item items (replicate (length vs) None) = map Some vs"
  proof (rule nth_equalityI)
    show "length (fold put_item items (replicate (length vs) None)) = length (map Some vs)"
      by (induction items rule: rev_induct) simp_all
  next
    fix j assume "j < length (fold put_item items (replicate (length vs) None))"
    then have j: "j < length vs" by (induction items rule: rev_induct) simp_all
    let ?it = "\<lparr>item_embedding = vs ! j, item_index = int j\<rparr>"
    have mem: "?it \<in> set items" using j by (auto simp: set_eq set_tagged)
    have "(THE it. it \<in> set items \<and> item_index it = int j) = ?it"
    proof (rule the_equality)
      show "?it \<in> set items \<and> item_index ?it = int j" using mem by simp
    next
      fix it assume it: "it \<in> set items \<and> item_index it = int j"
      have "inj_on item_index (set items)" using dist by (simp add: distinct_map)
      moreover have "item_index it = item_index ?it" using it by simp
      ultimately show "it = ?it" using it mem by (blast dest: inj_onD)
    qed
    moreover have "\<exists>it \<in> set items. item_index it = int j" using mem by force
    ultimately show "fold put_item items (replicate (length vs) None) ! j = map Some vs ! j"
      using fold_put_item_nth [OF dist, of "replicate (length vs) None" j] ok j by simp
  qed
  then show ?thesis using ok by (simp add: place_Inr_iff)
qed

lemma handle_tagged:
  assumes "mset items = mset (tagged vs)" "list_all (\<lambda>v. length v = embedDimension) vs"
  shows "handle_response (length vs) \<lparr>resp_status = 200, resp_payload = Parsed items None\<rparr> False = Inr vs"
  using place_tagged [OF assms] by (simp add: handle_response_def check_all_complete comp_def)


subsection \<open>The retry loop and the batch loop\<close>

lemma do_attempts_retry:
  assumes "a \<le> k" "k < maxRetries"
    "\<And>b. a \<le> b \<Longrightarrow> b < k \<Longrightarrow>
       (\<exists>r. http_do env i b ts = Response r \<and> resp_status r = 429) \<and> \<not> cancelled env (Backoff i b (backoff b))"
    "http_do env i k ts = Response r" "resp_status r \<noteq> 429"
  shows "do_attempts env i ts a = Inr (r, False)"
  using assms
proof (induction "k - a" arbitrary: a)
  case 0
  then have "a = k" by simp
  then show ?case using 0 by (simp add: do_attempts.simps)
next
  case (Suc d)
  then obtain r' where r': "http_do env i a ts = Response r'" "resp_status r' = 429"
    and nc: "\<not> cancelled env (Backoff i a (backoff a))" by fastforce
  have "d = k - Suc a" using Suc.hyps(2) by simp
  moreover have "Suc a \<le> k" using Suc.hyps(2) by simp
  ultimately have "do_attempts env i ts (Suc a) = Inr (r, False)"
    using Suc.prems(2-5) by (intro Suc.hyps(1)) simp_all
  moreover have "a < maxRetries - 1" using Suc.prems(2) Suc.hyps(2) by simp
  ultimately show ?case using r' nc by (simp add: do_attempts.simps)
qed

lemma fold_put_item_length [simp]: "length (fold put_item its acc) = length acc"
  by (induction its arbitrary: acc) simp_all

lemma fold_put_item_dims:
  assumes "list_all (item_ok (length acc)) its" "\<forall>x \<in> set acc. \<forall>v. x = Some v \<longrightarrow> length v = embedDimension"
  shows "\<forall>x \<in> set (fold put_item its acc). \<forall>v. x = Some v \<longrightarrow> length v = embedDimension"
  using assms
proof (induction its arbitrary: acc)
  case (Cons it its)
  have "\<forall>x \<in> set (put_item it acc). \<forall>v. x = Some v \<longrightarrow> length v = embedDimension"
    using Cons.prems by (auto dest: set_update_subset_insert [THEN subsetD])
  then show ?case using Cons.prems Cons.IH [of "put_item it acc"] by simp
qed simp

lemma handle_response_closed: "handle_response n r closed = Inr vs \<Longrightarrow> \<not> closed"
  by (simp add: handle_response_def split: if_splits)

lemma handle_response_parsed:
  assumes "handle_response n r False = Inr vs"
  shows "\<exists>items acc. resp_payload r = Parsed items None \<and> place items (replicate n None) = Inr acc \<and> check_all 0 acc = Inr vs"
proof (cases "resp_payload r")
  case (Parsed items err)
  show ?thesis
  proof (cases err)
    case None
    show ?thesis
    proof (cases "place items (replicate n None)")
      case (Inl e)
      then show ?thesis using assms Parsed None by (simp add: handle_response_def split: if_splits)
    next
      case (Inr acc)
      then show ?thesis using assms Parsed None by (simp add: handle_response_def split: if_splits)
    qed
  next
    case (Some e)
    then show ?thesis using assms Parsed by (simp add: handle_response_def)
  qed
qed (use assms in \<open>simp_all add: handle_response_def\<close>)

lemma handle_response_Inr:
  assumes "handle_response n r closed = Inr vs"
  shows "length vs = n \<and> list_all (\<lambda>v. length v = embedDimension) vs"
proof -
  have "\<not> closed" using handle_response_closed [OF assms] .
  then have "handle_response n r False = Inr vs" using assms by simp
  then obtain items acc where pl: "place items (replicate n None) = Inr acc" and c: "check_all 0 acc = Inr vs"
    using handle_response_parsed by blast
  from pl have ok: "list_all (item_ok n) items" and acc: "acc = fold put_item items (replicate n None)"
    by (simp_all add: place_Inr_iff)
  have dims: "\<forall>x \<in> set acc. \<forall>v. x = Some v \<longrightarrow> length v = embedDimension"
    unfolding acc using ok by (intro fold_put_item_dims) simp_all
  from c have nn: "None \<notin> set acc" and vs: "vs = map the acc"
    by (simp_all add: check_all_Inr_iff)
  have "list_all (\<lambda>v. length v = embedDimension) vs"
    unfolding vs list_all_iff
  proof
    fix v assume "v \<in> set (map the acc)"
    then obtain x where x: "x \<in> set acc" "v = the x" by auto
    with nn have "x = Some v" by (cases x) auto
    with dims x(1) show "length v = embedDimension" by blast
  qed
  moreover have "length vs = n" by (simp add: vs acc)
  ultimately show ?thesis by simp
qed

lemma embed_batch_Inr:
  assumes "embed_batch env i ts = Inr vs"
  shows "length vs = length ts \<and> list_all (\<lambda>v. length v = embedDimension) vs"
proof (cases "do_attempts env i ts 0")
  case (Inl e)
  then show ?thesis using assms by (simp add: embed_batch_def)
next
  case (Inr rc)
  obtain r c where rc: "rc = (r, c)" by (cases rc)
  then have "handle_response (length ts) r c = Inr vs" using assms Inr by (simp add: embed_batch_def)
  then show ?thesis by (rule handle_response_Inr)
qed

lemma embed_loop_step:
  "i < length texts \<Longrightarrow>
   embed_loop env texts i acc =
     (case embed_batch env i (go_slice texts (int i) (int (min (i + maxBatchSize) (length texts)))) of
        Inl err \<Rightarrow> Inl (ErrBatch i (min (i + maxBatchSize) (length texts)) err)
      | Inr vs \<Rightarrow>
          (if min (i + maxBatchSize) (length texts) < length texts \<and> cancelled env (Pause i)
           then Inl ErrCancelled else embed_loop env texts (i + maxBatchSize) (acc @ vs)))"
  by (subst embed_loop.simps) (simp add: Let_def)

lemma embed_loop_stop: "\<not> i < length texts \<Longrightarrow> embed_loop env texts i acc = Inr acc"
  by (subst embed_loop.simps) simp

lemma embed_loop_Inr:
  "embed_loop env texts i acc = Inr vs \<Longrightarrow>
   length vs = length acc + (length texts - i) \<and>
   list_all (\<lambda>v. length v = embedDimension) vs = list_all (\<lambda>v. length v = embedDimension) acc"
proof (induction env texts i acc rule: embed_loop.induct)
  case (1 env texts i acc)
  show ?case
  proof (cases "i < length texts")
    case True
    let ?e = "min (i + maxBatchSize) (length texts)"
    let ?b = "go_slice texts (int i) (int ?e)"
    show ?thesis
    proof (cases "embed_batch env i ?b")
      case (Inl err)
      then show ?thesis using "1.prems" True by (simp add: embed_loop_step)
    next
      case (Inr bs)
      have c: "\<not> (?e < length texts \<and> cancelled env (Pause i))"
        using "1.prems" True Inr by (simp add: embed_loop_step split: if_splits)
      have r: "embed_loop env texts (i + maxBatchSize) (acc @ bs) = Inr vs"
        using "1.prems" True Inr c by (simp add: embed_loop_step)
      have lb: "length bs = ?e - i" and db: "list_all (\<lambda>v. length v = embedDimension) bs"
        using embed_batch_Inr [OF Inr] True by (simp_all add: go_slice_def)
      have "length bs + (length texts - (i + maxBatchSize)) = length texts - i"
        using lb by (cases "i + maxBatchSize \<le> length texts") (simp_all add: min_def)
      moreover have "length vs = length (acc @ bs) + (length texts - (i + maxBatchSize)) \<and>
          list_all (\<lambda>v. length v = embedDimension) vs = list_all (\<lambda>v. length v = embedDimension) (acc @ bs)"
        by (rule "1.IH" [OF True refl Inr c r])
      ultimately show ?thesis using db by simp
    qed
  next
    case False
    then show ?thesis using "1.prems" by (simp add: embed_loop_stop)
  qed
qed

lemma go_slice_batch:
  assumes "i < length texts"
  shows "go_slice texts (int i) (int (min (i + maxBatchSize) (length texts))) @ drop (i + maxBatchSize) texts =
         drop i texts"
proof (cases "i + maxBatchSize \<le> length texts")
  case True
  then have "go_slice texts (int i) (int (min (i + maxBatchSize) (length texts))) =
             take maxBatchSize (drop i texts)"
    by (simp add: go_slice_def min_def nat_add_distrib)
  moreover have "drop (i + maxBatchSize) texts = drop maxBatchSize (drop i texts)"
    by (simp only: drop_drop add.commute)
  ultimately show ?thesis by (simp only: append_take_drop_id)
next
  case False
  then show ?thesis by (simp add: go_slice_def min_def)
qed

lemma embed_loop_honest:
  assumes "\<And>i ts. ts \<noteq> [] \<Longrightarrow> embed_batch env i ts = Inr (map f ts)" "\<And>i. \<not> cancelled env (Pause i)"
  shows "embed_loop env texts i acc = Inr (acc @ map f (drop i texts))"
  using assms
proof (induction env texts i acc rule: embed_loop.induct)
  case (1 env texts i acc)
  show ?case
  proof (cases "i < length texts")
    case True
    let ?e = "min (i + maxBatchSize) (length texts)"
    let ?b = "go_slice texts (int i) (int ?e)"
    have ne: "?b \<noteq> []" using True by (simp add: go_slice_def maxBatchSize_def)
    have b: "embed_batch env i ?b = Inr (map f ?b)" using "1.prems"(1) [OF ne] .
    have c: "\<not> (?e < length texts \<and> cancelled env (Pause i))" using "1.prems"(2) by simp
    have step: "embed_loop env texts i acc = embed_loop env texts (i + maxBatchSize) (acc @ map f ?b)"
      using True b c by (subst embed_loop.simps) (simp add: Let_def, blast)
    have "embed_loop env texts (i + maxBatchSize) (acc @ map f ?b) =
          Inr ((acc @ map f ?b) @ map f (drop (i + maxBatchSize) texts))"
      by (rule "1.IH" [OF True refl b c "1.prems"(1) "1.prems"(2)])
    moreover have "map f ?b @ map f (drop (i + maxBatchSize) texts) = map f (drop i texts)"
      using go_slice_batch [OF True] by (metis map_append)
    ultimately show ?thesis unfolding step by simp
  next
    case False
    then show ?thesis by (subst embed_loop.simps) simp
  qed
qed


lemma embed_batch_tagged:
  assumes "http_do env i 0 ts = Response \<lparr>resp_status = 200, resp_payload = Parsed items None\<rparr>"
    "mset items = mset (tagged (map f ts))" "list_all (\<lambda>t. length (f t) = embedDimension) ts"
  shows "embed_batch env i ts = Inr (map f ts)"
proof -
  have "do_attempts env i ts 0 = Inr (\<lparr>resp_status = 200, resp_payload = Parsed items None\<rparr>, False)"
    using assms(1) by (intro do_attempts_retry [where k = 0]) (simp_all add: maxRetries_def)
  moreover have "handle_response (length (map f ts)) \<lparr>resp_status = 200, resp_payload = Parsed items None\<rparr> False
                 = Inr (map f ts)"
    using assms(2,3) by (intro handle_tagged) (simp_all add: list_all_iff)
  ultimately show ?thesis by (simp add: embed_batch_def)
qed

lemma do_attempts_exhausted:
  assumes "\<And>a. a < maxRetries \<Longrightarrow> \<exists>r. http_do env i a ts = Response r \<and> resp_status r = 429"
    "\<And>a. a < maxRetries - 1 \<Longrightarrow> \<not> cancelled env (Backoff i a (backoff a))"
    "a \<le> maxRetries - 1"
  shows "\<exists>r. do_attempts env i ts a = Inr (r, True)"
  using assms(3)
proof (induction "maxRetries - 1 - a" arbitrary: a)
  case 0
  then have "a = maxRetries - 1" by simp
  then obtain r where "http_do env i a ts = Response r" "resp_status r = 429"
    using assms(1) [of a] by (auto simp: maxRetries_def)
  then show ?case using \<open>a = maxRetries - 1\<close> by (simp add: do_attempts.simps)
next
  case (Suc d)
  then have a: "a < maxRetries - 1" by simp
  then have "a < maxRetries" by simp
  then obtain r where "http_do env i a ts = Response r" "resp_status r = 429"
    using assms(1) by blast
  moreover have "\<exists>r. do_attempts env i ts (Suc a) = Inr (r, True)"
    using Suc.hyps(2) by (intro Suc.hyps(1)) simp_all
  ultimately show ?case using a assms(2) [OF a] by (simp add: do_attempts.simps)
qed

subsection \<open>Properties of the gateway\<close>

lemma do_attempts_agree:
  assumes "\<And>a. attempt \<le> a \<Longrightarrow> a < maxRetries \<Longrightarrow> http_do e1 i a texts = http_do e2 i a texts"
    "cancelled e1 = cancelled e2" "attempt < maxRetries"
  shows "do_attempts e1 i texts attempt = do_attempts e2 i texts attempt"
  using assms
proof (induction e1 i texts attempt rule: do_attempts.induct)
  case (1 env i texts attempt)
  show ?case
  proof -
    have h: "http_do env i attempt texts = http_do e2 i attempt texts" using "1.prems"(1,3) by simp
    show ?thesis
    proof (cases "http_do env i attempt texts")
      case TransportError
      then show ?thesis using h by (subst (1 2) do_attempts.simps) simp
    next
      case (Response r)
      have h2: "http_do e2 i attempt texts = Response r" using h Response by simp
      show ?thesis
      proof (cases "resp_status r = 429 \<and> attempt < maxRetries - 1 \<and>
                    \<not> cancelled env (Backoff i attempt (backoff attempt))")
        case True
        have "do_attempts env i texts (Suc attempt) = do_attempts e2 i texts (Suc attempt)"
          using True Response "1.prems" by (intro "1.IH") auto
        then show ?thesis using Response h2 True "1.prems"(2) by (subst (1 2) do_attempts.simps) simp
      next
        case False
        then show ?thesis using Response h2 "1.prems"(2) by (subst (1 2) do_attempts.simps) auto
      qed
    qed
  qed
qed

text \<open>C33. \<open>Embed\<close> preserves order: when the provider answers every batch with the
  vectors of its texts tagged by their positions, in any order, and no pause is
  cancelled, the result is the vector of each text at that text's position,
  across all batches of 100.\<close>

theorem embed_order_preserving:
  assumes "\<And>i ts. ts \<noteq> [] \<Longrightarrow> \<exists>items.
             http_do env i 0 ts = Response \<lparr>resp_status = 200, resp_payload = Parsed items None\<rparr> \<and>
             mset items = mset (tagged (map f ts))"
    "\<And>t. length (f t) = embedDimension" "\<And>i. \<not> cancelled env (Pause i)"
  shows "embed_texts env texts = Inr (map f texts)"
proof -
  have "embed_batch env i ts = Inr (map f ts)" if ne: "ts \<noteq> []" for i ts
  proof -
    obtain items where h1: "http_do env i 0 ts = Response \<lparr>resp_status = 200, resp_payload = Parsed items None\<rparr>"
      and h2: "mset items = mset (tagged (map f ts))" using assms(1) [OF ne] by blast
    show ?thesis by (rule embed_batch_tagged [OF h1 h2]) (simp add: assms(2) list_all_iff)
  qed
  then have "embed_loop env texts 0 [] = Inr ([] @ map f (drop 0 texts))"
    using assms(3) by (intro embed_loop_honest)
  then show ?thesis by (simp add: embed_texts_def)
qed

theorem embed_order_preserving_witness:
  "embed_texts \<lparr>http_do = (\<lambda>i a ts. Response \<lparr>resp_status = 200,
                       resp_payload = Parsed (rev (tagged (map (\<lambda>n. replicate 1536 (of_nat n)) ts))) None\<rparr>),
          cancelled = (\<lambda>_. False)\<rparr> [1, 2, 3 :: nat] =
   Inr [replicate 1536 1, replicate 1536 2, replicate 1536 3]"
proof -
  let ?f = "\<lambda>n :: nat. replicate 1536 (of_nat n) :: f32 list"
  let ?env = "\<lparr>http_do = (\<lambda>i a ts. Response \<lparr>resp_status = 200,
                       resp_payload = Parsed (rev (tagged (map ?f ts))) None\<rparr>),
          cancelled = (\<lambda>_. False)\<rparr>"
  have "embed_texts ?env [1, 2, 3] = Inr (map ?f [1, 2, 3])"
    by (rule embed_order_preserving) (simp_all add: embedDimension_def)
  then show ?thesis by simp
qed

text \<open>C34. A rate-limited batch is retried: after HTTP 429 on the attempts before
  \<open>k < 3\<close>, with the backoff waits (1 s, then 2 s) not cancelled, the batch's
  result is that of the first response that is not a 429.\<close>

theorem embed_batch_retry:
  assumes "k < maxRetries"
    "\<And>a. a < k \<Longrightarrow> (\<exists>r. http_do env i a ts = Response r \<and> resp_status r = 429) \<and>
                     \<not> cancelled env (Backoff i a (backoff a))"
    "http_do env i k ts = Response r" "resp_status r \<noteq> 429"
  shows "embed_batch env i ts = handle_response (length ts) r False"
proof -
  have "do_attempts env i ts 0 = Inr (r, False)"
    using assms by (intro do_attempts_retry [where k = k]) simp_all
  then show ?thesis by (simp add: embed_batch_def)
qed

theorem embed_batch_retry_witness:
  "embed_batch \<lparr>http_do = (\<lambda>i a ts. Response \<lparr>resp_status = (if a < 2 then 429 else 500),
                                              resp_payload = Unparsable\<rparr>),
                cancelled = (\<lambda>_. False)\<rparr> 0 [0 :: nat] =
   handle_response 1 \<lparr>resp_status = 500, resp_payload = Unparsable\<rparr> False"
proof -
  let ?env = "\<lparr>http_do = (\<lambda>i a ts. Response \<lparr>resp_status = (if a < 2 then 429 else 500),
                                              resp_payload = Unparsable\<rparr>),
                cancelled = (\<lambda>_. False)\<rparr> :: nat embed_env"
  have "embed_batch ?env 0 [0] = handle_response (length [0 :: nat]) \<lparr>resp_status = 500, resp_payload = Unparsable\<rparr> False"
    by (rule embed_batch_retry [where k = 2]) (auto simp: maxRetries_def)
  then show ?thesis by simp
qed

text \<open>C35. When all three attempts are rate-limited, \<open>embedBatch\<close> fails with a
  read error: the last 429 closed the body before the loop breaks, and
  \<open>io.ReadAll\<close> then reads a closed body. The spec expects the provider's
  rate-limit error once the retries are exhausted.\<close>

theorem embed_batch_rate_limit_exhausted:
  assumes "\<And>a. a < maxRetries \<Longrightarrow> \<exists>r. http_do env i a ts = Response r \<and> resp_status r = 429"
    "\<And>a. a < maxRetries - 1 \<Longrightarrow> \<not> cancelled env (Backoff i a (backoff a))"
  shows "embed_batch env i ts = Inl ErrRead"
proof -
  obtain r where "do_attempts env i ts 0 = Inr (r, True)"
    using do_attempts_exhausted [OF assms, of 0] by auto
  then show ?thesis by (simp add: embed_batch_def handle_response_def)
qed

theorem embed_batch_rate_limit_exhausted_witness:
  "embed_batch \<lparr>http_do = (\<lambda>i a ts. Response \<lparr>resp_status = 429, resp_payload = Unparsable\<rparr>),
                cancelled = (\<lambda>_. False)\<rparr> 0 [0 :: nat] = Inl ErrRead"
  by (rule embed_batch_rate_limit_exhausted) simp_all

text \<open>C36. A provider item with a negative index passes both checks of the
  reassembly loop (it is below \<open>len(embeddings)\<close> and may have the right length)
  and makes \<open>embeddings[item.Index]\<close> panic.\<close>

theorem embed_batch_negative_index_panics:
  assumes "http_do env i 0 ts = Response \<lparr>resp_status = 200, resp_payload = Parsed (it # its) None\<rparr>"
    "item_index it < 0" "length (item_embedding it) = embedDimension"
  shows "embed_batch env i ts = Inl (ErrIndexPanic (item_index it))"
proof -
  have "do_attempts env i ts 0 = Inr (\<lparr>resp_status = 200, resp_payload = Parsed (it # its) None\<rparr>, False)"
    using assms(1) by (intro do_attempts_retry [where k = 0]) (simp_all add: maxRetries_def)
  then show ?thesis using assms(2,3) by (simp add: embed_batch_def handle_response_def)
qed

theorem embed_batch_negative_index_panics_witness:
  "embed_batch \<lparr>http_do = (\<lambda>i a ts. Response \<lparr>resp_status = 200,
                   resp_payload = Parsed [\<lparr>item_embedding = replicate 1536 0, item_index = -1\<rparr>] None\<rparr>),
                cancelled = (\<lambda>_. False)\<rparr> 0 [0 :: nat] = Inl (ErrIndexPanic (-1))"
proof -
  have "embed_batch \<lparr>http_do = (\<lambda>i a ts. Response \<lparr>resp_status = 200,
                   resp_payload = Parsed [\<lparr>item_embedding = replicate 1536 0, item_index = -1\<rparr>] None\<rparr>),
                cancelled = (\<lambda>_. False)\<rparr> 0 [0 :: nat] =
        Inl (ErrIndexPanic (item_index \<lparr>item_embedding = replicate 1536 (0 :: f32), item_index = -1\<rparr>))"
    by (rule embed_batch_negative_index_panics) (simp_all add: embedDimension_def)
  then show ?thesis by simp
qed

text \<open>C37. Whatever the provider answers, a successful \<open>Embed\<close> returns exactly
  one vector per text, each of dimension 1536: a wrong length, a missing or an
  out-of-range index anywhere fails the whole call.\<close>

theorem embed_result_shape:
  assumes "embed_texts env texts = Inr vs"
  shows "length vs = length texts \<and> list_all (\<lambda>v. length v = embedDimension) vs"
  using assms embed_loop_Inr [of env texts 0 "[]" vs] by (auto simp: embed_texts_def split: if_splits)

theorem embed_result_shape_witness:
  "embed_texts \<lparr>http_do = (\<lambda>i a ts. TransportError), cancelled = (\<lambda>_. False)\<rparr> ([] :: nat list) = Inr [] \<and>
   length ([] :: f32 list list) = length ([] :: nat list) \<and>
   list_all (\<lambda>v. length v = embedDimension) ([] :: f32 list list)"
proof -
  have e: "embed_texts \<lparr>http_do = (\<lambda>i a ts. TransportError), cancelled = (\<lambda>_. False)\<rparr> ([] :: nat list) = Inr []"
    by (simp add: embed_texts_def)
  show ?thesis using e embed_result_shape [OF e] by blast
qed

text \<open>C22. \<open>embedBatch\<close> sends at most three requests for a batch: its outcome
  is determined by the provider's answers to attempts 0, 1 and 2 (and by the
  cancellations); what the provider would answer to a fourth attempt never
  matters, even after three rate limits.\<close>

theorem embed_batch_attempts_bound:
  assumes "\<forall>a < 3. http_do e1 i a texts = http_do e2 i a texts" "cancelled e1 = cancelled e2"
  shows "embed_batch e1 i texts = embed_batch e2 i texts"
proof -
  have "do_attempts e1 i texts 0 = do_attempts e2 i texts 0"
    using assms by (intro do_attempts_agree) (auto simp: maxRetries_def)
  then show ?thesis by (simp add: embed_batch_def)
qed

theorem embed_batch_attempts_bound_witness:
  "let e1 = \<lparr>http_do = (\<lambda>i a ts. Response \<lparr>resp_status = 429, resp_payload = Unparsable\<rparr>),
              cancelled = (\<lambda>_. False)\<rparr>;
       e2 = \<lparr>http_do = (\<lambda>i a ts. Response \<lparr>resp_status = (if a < 3 then 429 else 200),
                                          resp_payload = Unparsable\<rparr>),
              cancelled = (\<lambda>_. False)\<rparr>
   in http_do e1 0 0 [0 :: nat] = http_do e2 0 0 [0 :: nat] \<and> http_do e1 0 1 [0 :: nat] = http_do e2 0 1 [0 :: nat] \<and>
      http_do e1 0 2 [0 :: nat] = http_do e2 0 2 [0 :: nat] \<and> http_do e1 0 3 [0 :: nat] \<noteq> http_do e2 0 3 [0 :: nat] \<and>
      cancelled e1 = cancelled e2 \<and> embed_batch e1 0 [0 :: nat] = embed_batch e2 0 [0 :: nat]"
proof -
  have b: "(\<forall>a < (3::nat). P a) \<longleftrightarrow> P 0 \<and> P 1 \<and> P 2" for P
    by (auto simp: numeral_3_eq_3 numeral_2_eq_2 less_Suc_eq)
  have "embed_batch \<lparr>http_do = (\<lambda>i a ts. Response \<lparr>resp_status = 429, resp_payload = Unparsable\<rparr>),
              cancelled = (\<lambda>_. False)\<rparr> 0 [0 :: nat] =
        embed_batch \<lparr>http_do = (\<lambda>i a ts. Response \<lparr>resp_status = (if a < 3 then 429 else 200),
                                          resp_payload = Unparsable\<rparr>),
              cancelled = (\<lambda>_. False)\<rparr> 0 [0 :: nat]"
    by (rule embed_batch_attempts_bound) (simp_all add: b)
  then show ?thesis by (simp add: Let_def)
qed

end
