(* ===== verification/Fetcher.thy ===== *)
theory Fetcher
  imports Chunker
begin

text \<open>
  The content fetcher (\<open>src/internal/fetcher/fetcher.go\<close>). \<open>FetchURL\<close> checks
  the URL's scheme, performs the GET request, checks the status and the
  \<open>Content-Type\<close>, reads the body, and for HTML reduces the document to its
  visible text with \<open>extractHTMLText\<close>. The URL parser, the HTTP client and the
  HTML parser of \<open>golang.org/x/net/html\<close> are libraries: their results are the
  environment \<open>fetch_env\<close>. The parse tree is modelled as \<open>html.Node\<close> is, a
  type, a data string and the children in order; the traversal of
  \<open>extractHTMLText\<close>, with its text builder and title as explicit state, and
  the string functions it calls (\<open>strings.TrimSpace\<close>, \<open>strings.Fields\<close>,
  \<open>strings.Join\<close>, \<open>strings.Contains\<close>, \<open>strings.ToLower\<close>) are definitions.
  Texts are decoded rune lists, as in the chunker; \<open>unicode.IsSpace\<close> is the
  chunker's \<open>is_space\<close>. The title leaves as a Go string, the UTF-8 encoding of
  its runes, and \<open>Size\<close> is the length of the content's encoding.
\<close>

subsection \<open>The string functions\<close>

definition trim_space :: "runes \<Rightarrow> runes" where
  "trim_space s = rev (dropWhile is_space (rev (dropWhile is_space s)))"

text \<open>\<open>strings.Fields\<close>: the maximal runs of non-space runes, scanning left to
  right with the field being built.\<close>

fun fields_from :: "runes \<Rightarrow> runes \<Rightarrow> runes list" where
  "fields_from cur [] = (if cur = [] then [] else [cur])"
| "fields_from cur (c # cs) =
     (if is_space c then (if cur = [] then fields_from [] cs else cur # fields_from [] cs)
      else fields_from (cur @ [c]) cs)"

definition go_fields :: "runes \<Rightarrow> runes list" where
  "go_fields s = fields_from [] s"

fun go_join :: "'a list \<Rightarrow> 'a list list \<Rightarrow> 'a list" where
  "go_join sep [] = []"
| "go_join sep [x] = x"
| "go_join sep (x # y # xs) = x @ sep @ go_join sep (y # xs)"

fun contains :: "'a list \<Rightarrow> 'a list \<Rightarrow> bool" where
  "contains [] sub = (sub = [])"
| "contains (c # s) sub = (take (length sub) (c # s) = sub \<or> contains s sub)"

text \<open>\<open>strings.ToLower\<close> on a header value; only ASCII letters matter for the
  media types the fetcher looks for (no other rune lowers to one of the letters
  of \<open>text/\<close>), and a header is handled as a byte string here.\<close>

definition ascii_lower :: "char \<Rightarrow> char" where
  "ascii_lower c = (let n = (of_char c :: nat) in if 65 \<le> n \<and> n \<le> 90 then char_of (n + 32) else c)"

text \<open>\<open>string(runes)\<close>: the UTF-8 encoding, with U+FFFD for a rune that is no
  scalar value.\<close>

definition utf8_encode_rune :: "rune \<Rightarrow> string" where
  "utf8_encode_rune r = map char_of
     (if r < 0x80 then [r]
      else if r < 0x800 then [0xC0 + r div 64, 0x80 + r mod 64]
      else if (0xD800 \<le> r \<and> r \<le> 0xDFFF) \<or> 0x10FFFF < r then [0xEF, 0xBF, 0xBD]
      else if r < 0x10000 then [0xE0 + r div 4096, 0x80 + r div 64 mod 64, 0x80 + r mod 64]
      else [0xF0 + r div 262144, 0x80 + r div 4096 mod 64, 0x80 + r div 64 mod 64, 0x80 + r mod 64])"

definition utf8_encode :: "runes \<Rightarrow> string" where
  "utf8_encode rs = concat (map utf8_encode_rune rs)"

subsection \<open>\<open>extractHTMLText\<close>\<close>

datatype node_type = ErrorNode | TextNode | DocumentNode | ElementNode | CommentNode | DoctypeNode | RawNode

datatype html_node = Node (ntype: node_type) (ndata: runes) (children: "html_node list")

record extract_state =
  text_builder :: runes
  title_text :: runes

definition is_skipped :: "html_node \<Rightarrow> bool" where
  "is_skipped n = (ntype n = ElementNode \<and> (ndata n = runes_of ''script'' \<or> ndata n = runes_of ''style''))"

text \<open>The title step: the first child of a \<open>title\<close> element, when it is a text
  node, sets the title while the title is still empty.\<close>

definition take_title :: "html_node \<Rightarrow> extract_state \<Rightarrow> extract_state" where
  "take_title n s =
     (if ntype n = ElementNode \<and> ndata n = runes_of ''title'' \<and> title_text s = [] then
        (case children n of
           c # _ \<Rightarrow> if ntype c = TextNode then s\<lparr>title_text := trim_space (ndata c)\<rparr> else s
         | [] \<Rightarrow> s)
      else s)"

text \<open>The text step: a non-blank text node is appended, after a space when the
  builder is not empty.\<close>

definition write_text :: "runes \<Rightarrow> runes \<Rightarrow> runes" where
  "write_text d b = (let t = trim_space d in if t \<noteq> [] then (if b \<noteq> [] then b @ [32] else b) @ t else b)"

fun traverse :: "html_node \<Rightarrow> extract_state \<Rightarrow> extract_state" where
  "traverse (Node ty d cs) s =
     (if is_skipped (Node ty d cs) then s
      else (let s1 = take_title (Node ty d cs) s;
                s2 = (if ty = TextNode then s1\<lparr>text_builder := write_text d (text_builder s1)\<rparr> else s1)
            in fold traverse cs s2))"

definition normalize_whitespace :: "runes \<Rightarrow> runes" where
  "normalize_whitespace text = go_join [32] (go_fields text)"

definition extract_html_text :: "(runes \<Rightarrow> html_node option) \<Rightarrow> runes \<Rightarrow> unit + runes \<times> runes" where
  "extract_html_text parse htmlContent =
     (case parse htmlContent of
        None \<Rightarrow> Inl ()
      | Some doc \<Rightarrow>
          (let s = traverse doc \<lparr>text_builder = [], title_text = []\<rparr>
           in Inr (normalize_whitespace (text_builder s), title_text s)))"

subsection \<open>What \<open>extractHTMLText\<close> promises\<close>

text \<open>The reference the traversal is checked against: the data of the text
  nodes in document order, outside \<open>script\<close> and \<open>style\<close> subtrees, and the
  candidate titles (the trimmed first text child of each \<open>title\<close> element,
  in document order), of which the first non-blank one is the title.\<close>

fun visible_texts :: "html_node \<Rightarrow> runes list" where
  "visible_texts (Node ty d cs) =
     (if is_skipped (Node ty d cs) then []
      else (if ty = TextNode then [d] else []) @ concat (map visible_texts cs))"

fun title_candidates :: "html_node \<Rightarrow> runes list" where
  "title_candidates (Node ty d cs) =
     (if is_skipped (Node ty d cs) then []
      else (if ty = ElementNode \<and> d = runes_of ''title'' then
              (case cs of c # _ \<Rightarrow> if ntype c = TextNode then [trim_space (ndata c)] else [] | [] \<Rightarrow> [])
            else []) @ concat (map title_candidates cs))"

definition first_title :: "html_node \<Rightarrow> runes" where
  "first_title n = (case find (\<lambda>t. t \<noteq> []) (title_candidates n) of None \<Rightarrow> [] | Some t \<Rightarrow> t)"

definition title_step :: "runes \<Rightarrow> runes \<Rightarrow> runes" where
  "title_step c t = (if t = [] then c else t)"

subsection \<open>\<open>FetchURL\<close>\<close>

record fetch_result =
  fr_content :: runes
  fr_title :: string
  fr_size :: nat

datatype fetch_error =
    ErrInvalidURL | ErrUnsupportedScheme string | ErrCreateRequest | ErrFetchFailed
  | ErrHTTPStatus int | ErrUnsupportedContentType string | ErrReadBody | ErrExtractHTML

text \<open>The outcome of \<open>httpClient.Do\<close>: a transport error, or a response with
  its status code, its \<open>Content-Type\<close> header and its body, \<open>None\<close> when
  \<open>io.ReadAll\<close> fails.\<close>

datatype get_outcome = GetFailed | GetResponse int string "runes option"

text \<open>The libraries \<open>FetchURL\<close> calls: \<open>url.Parse\<close> (the scheme, lower-cased as
  Go does, or \<open>None\<close> for a parse error), \<open>http.NewRequestWithContext\<close>, the
  client's GET, and \<open>html.Parse\<close>.\<close>

record fetch_env =
  url_scheme :: "string \<Rightarrow> string option"
  request_ok :: "string \<Rightarrow> bool"
  http_get :: "string \<Rightarrow> get_outcome"
  parse_html :: "runes \<Rightarrow> html_node option"

definition is_text_content :: "string \<Rightarrow> bool" where
  "is_text_content contentType =
     (let ct = map ascii_lower contentType
      in contains ct ''text/plain'' \<or> contains ct ''text/html'' \<or> contains ct ''text/markdown'' \<or>
         contains ct ''text/'')"

definition fetch_url :: "fetch_env \<Rightarrow> string \<Rightarrow> fetch_error + fetch_result" where
  "fetch_url env urlStr =
     (case url_scheme env urlStr of
        None \<Rightarrow> Inl ErrInvalidURL
      | Some scheme \<Rightarrow>
          if scheme \<noteq> ''http'' \<and> scheme \<noteq> ''https'' then Inl (ErrUnsupportedScheme scheme)
          else if \<not> request_ok env urlStr then Inl ErrCreateRequest
          else (case http_get env urlStr of
                  GetFailed \<Rightarrow> Inl ErrFetchFailed
                | GetResponse status contentType body \<Rightarrow>
                    if status \<noteq> 200 then Inl (ErrHTTPStatus status)
                    else if \<not> is_text_content contentType then Inl (ErrUnsupportedContentType contentType)
                    else (case body of
                            None \<Rightarrow> Inl ErrReadBody
                          | Some content \<Rightarrow>
                              if contains contentType ''text/html'' then
                                (case extract_html_text (parse_html env) content of
                                   Inl _ \<Rightarrow> Inl ErrExtractHTML
                                 | Inr (text, title) \<Rightarrow>
                                     Inr \<lparr>fr_content = text, fr_title = utf8_encode title,
                                          fr_size = length (utf8_encode text)\<rparr>)
                              else Inr \<lparr>fr_content = content, fr_title = [],
                                        fr_size = length (utf8_encode content)\<rparr>)))"

subsection \<open>The traversal computes the reference\<close>

lemma fold_title_step_find:
  "fold title_step ts t = (if t = [] then (case find (\<lambda>t. t \<noteq> []) ts of None \<Rightarrow> [] | Some x \<Rightarrow> x) else t)"
  by (induction ts arbitrary: t) (auto simp: title_step_def)

lemma take_title_text: "text_builder (take_title n s) = text_builder s"
  by (simp add: take_title_def split: list.split)

lemma take_title_title:
  "title_text (take_title (Node ty d cs) s) =
     fold title_step (if ty = ElementNode \<and> d = runes_of ''title'' then
              (case cs of c # _ \<Rightarrow> if ntype c = TextNode then [trim_space (ndata c)] else [] | [] \<Rightarrow> [])
            else []) (title_text s)"
  by (auto simp: take_title_def title_step_def split: list.split)

lemma traverse_state:
  "text_builder (traverse n s) = fold write_text (visible_texts n) (text_builder s) \<and>
   title_text (traverse n s) = fold title_step (title_candidates n) (title_text s)"
proof (induction n s rule: traverse.induct)
  case (1 ty d cs s)
  show ?case
  proof (cases "is_skipped (Node ty d cs)")
    case True
    then show ?thesis by simp
  next
    case False
    define s2 where "s2 = (let s1 = take_title (Node ty d cs) s
                           in if ty = TextNode then s1\<lparr>text_builder := write_text d (text_builder s1)\<rparr> else s1)"
    have fold: "\<And>s'. (\<forall>x \<in> set cs'. \<forall>s''. text_builder (traverse x s'') = fold write_text (visible_texts x) (text_builder s'') \<and>
                  title_text (traverse x s'') = fold title_step (title_candidates x) (title_text s'')) \<Longrightarrow>
               text_builder (fold traverse cs' s') = fold write_text (concat (map visible_texts cs')) (text_builder s') \<and>
               title_text (fold traverse cs' s') = fold title_step (concat (map title_candidates cs')) (title_text s')"
      for cs' by (induction cs') auto
    have ih: "\<forall>x \<in> set cs. \<forall>s''. text_builder (traverse x s'') = fold write_text (visible_texts x) (text_builder s'') \<and>
                  title_text (traverse x s'') = fold title_step (title_candidates x) (title_text s'')"
      using "1.IH" False by blast
    have t: "traverse (Node ty d cs) s = fold traverse cs s2" using False by (simp add: s2_def Let_def)
    have b: "text_builder s2 = fold write_text (if ty = TextNode then [d] else []) (text_builder s)"
      by (simp add: s2_def take_title_text)
    have tt: "title_text s2 = fold title_step (if ty = ElementNode \<and> d = runes_of ''title'' then
              (case cs of c # _ \<Rightarrow> if ntype c = TextNode then [trim_space (ndata c)] else [] | [] \<Rightarrow> [])
            else []) (title_text s)"
      by (simp add: s2_def take_title_title Let_def)
    show ?thesis using fold [OF ih, of s2] False unfolding t b tt by simp
  qed
qed


lemma fields_from_sep:
  "is_space c \<Longrightarrow> fields_from cur (xs @ c # ys) = fields_from cur xs @ fields_from [] ys"
  by (induction xs arbitrary: cur) auto

lemma fields_from_spaces: "list_all is_space q \<Longrightarrow> fields_from cur (p @ q) = fields_from cur p"
proof (induction p arbitrary: cur)
  case Nil
  then show ?case by (induction q arbitrary: cur) auto
qed auto

lemma fields_from_dropWhile: "fields_from [] (dropWhile is_space s) = fields_from [] s"
  by (induction s) auto

lemma go_fields_trim: "go_fields (trim_space s) = go_fields s"
proof -
  let ?s = "dropWhile is_space s"
  have split: "?s = rev (dropWhile is_space (rev ?s)) @ rev (takeWhile is_space (rev ?s))"
    using takeWhile_dropWhile_id [of is_space "rev ?s"] by (metis rev_append rev_rev_ident)
  have sp: "list_all is_space (rev (takeWhile is_space (rev ?s)))"
    by (auto simp: list_all_iff dest: set_takeWhileD)
  have "fields_from [] ?s = fields_from [] (rev (dropWhile is_space (rev ?s)))"
    by (subst split, rule fields_from_spaces [OF sp])
  then show ?thesis by (simp add: go_fields_def trim_space_def fields_from_dropWhile)
qed

lemma go_fields_Nil [simp]: "go_fields [] = []"
  by (simp add: go_fields_def)

lemma go_fields_sep: "go_fields (b @ 32 # t) = go_fields b @ go_fields t"
  by (simp add: go_fields_def fields_from_sep is_space_def)

lemma go_fields_write_text: "go_fields (write_text d b) = go_fields b @ go_fields d"
proof -
  have "trim_space d = [] \<Longrightarrow> go_fields d = []" using go_fields_trim [of d] by simp
  then show ?thesis
    by (auto simp: write_text_def Let_def go_fields_sep go_fields_trim)
qed

lemma go_fields_fold_write_text:
  "go_fields (fold write_text ts b) = go_fields b @ concat (map go_fields ts)"
  by (induction ts arbitrary: b) (simp_all add: go_fields_write_text)


lemma fields_from_words:
  "list_all (\<lambda>c. \<not> is_space c) cur \<Longrightarrow>
   list_all (\<lambda>w. w \<noteq> [] \<and> list_all (\<lambda>c. \<not> is_space c) w) (fields_from cur s)"
  by (induction s arbitrary: cur) auto

lemma fields_from_word:
  "list_all (\<lambda>c. \<not> is_space c) w \<Longrightarrow> cur @ w \<noteq> [] \<Longrightarrow> fields_from cur w = [cur @ w]"
  by (induction w arbitrary: cur) auto

lemma go_fields_join:
  "list_all (\<lambda>w. w \<noteq> [] \<and> list_all (\<lambda>c. \<not> is_space c) w) ws \<Longrightarrow> go_fields (go_join [32] ws) = ws"
proof (induction "[32::nat]" ws rule: go_join.induct)
  case (2 x)
  then show ?case using fields_from_word [of x "[]"] by (simp add: go_fields_def)
next
  case (3 x y xs)
  then have "go_fields x = [x]" using fields_from_word [of x "[]"] by (simp add: go_fields_def)
  then show ?case using 3 by (simp add: go_fields_sep)
qed simp

lemma extract_html_text_Some:
  assumes "parse h = Some doc"
  shows "extract_html_text parse h =
           Inr (go_join [32] (concat (map go_fields (visible_texts doc))), first_title doc)"
  using assms traverse_state [of doc "\<lparr>text_builder = [], title_text = []\<rparr>"]
  by (simp add: extract_html_text_def normalize_whitespace_def go_fields_fold_write_text
                first_title_def fold_title_step_find)

lemma extract_html_text_example:
  "let doc = Node DocumentNode []
              [Node ElementNode (runes_of ''html'')
                 [Node ElementNode (runes_of ''title'') [Node TextNode (runes_of '' Hi '') []],
                  Node ElementNode (runes_of ''script'') [Node TextNode (runes_of ''x=1'') []],
                  Node TextNode (runes_of ''a  b'') []]]
   in (\<lambda>_. Some doc) (runes_of ''<html>'') = Some doc \<and>
      extract_html_text (\<lambda>_. Some doc) (runes_of ''<html>'') =
        Inr (go_join [32] (concat (map go_fields (visible_texts doc))), first_title doc) \<and>
      extract_html_text (\<lambda>_. Some doc) (runes_of ''<html>'') = Inr (runes_of ''Hi a b'', runes_of ''Hi'')"
proof -
  let ?doc = "Node DocumentNode []
              [Node ElementNode (runes_of ''html'')
                 [Node ElementNode (runes_of ''title'') [Node TextNode (runes_of '' Hi '') []],
                  Node ElementNode (runes_of ''script'') [Node TextNode (runes_of ''x=1'') []],
                  Node TextNode (runes_of ''a  b'') []]]"
  have p: "(\<lambda>_. Some ?doc) (runes_of ''<html>'') = Some ?doc" by simp
  have v: "go_join [32] (concat (map go_fields (visible_texts ?doc))) = runes_of ''Hi a b''"
    by (simp add: runes_of_def is_skipped_def go_fields_def is_space_def trim_space_def)
  have t: "first_title ?doc = runes_of ''Hi''"
    by (simp add: runes_of_def is_skipped_def first_title_def is_space_def trim_space_def)
  have e: "extract_html_text (\<lambda>_. Some ?doc) (runes_of ''<html>'') =
            Inr (go_join [32] (concat (map go_fields (visible_texts ?doc))), first_title ?doc)"
    by (rule extract_html_text_Some) simp
  show ?thesis using p e unfolding v t Let_def by simp
qed


lemma take_prefix: "take (length p + length q) xs = p @ q \<Longrightarrow> take (length p) xs = p"
proof -
  assume a: "take (length p + length q) xs = p @ q"
  have "take (length p) xs = take (length p) (take (length p + length q) xs)" by simp
  also have "\<dots> = p" unfolding a by simp
  finally show ?thesis .
qed

lemma contains_append: "contains s (p @ q) \<Longrightarrow> contains s p"
proof (induction s)
  case (Cons c s)
  then show ?case using take_prefix [of p q "c # s"] by (auto simp del: take_Suc_Cons)
qed simp

lemma is_text_content_iff: "is_text_content ct \<longleftrightarrow> contains (map ascii_lower ct) ''text/''"
proof -
  let ?l = "map ascii_lower ct"
  have "contains ?l ''text/plain'' \<Longrightarrow> contains ?l ''text/''"
    using contains_append [of ?l "''text/''" "''plain''"] by simp
  moreover have "contains ?l ''text/html'' \<Longrightarrow> contains ?l ''text/''"
    using contains_append [of ?l "''text/''" "''html''"] by simp
  moreover have "contains ?l ''text/markdown'' \<Longrightarrow> contains ?l ''text/''"
    using contains_append [of ?l "''text/''" "''markdown''"] by simp
  ultimately show ?thesis unfolding is_text_content_def Let_def by blast
qed

lemma fetch_url_response:
  assumes "fetch_url env u = Inr r"
  shows "\<exists>scheme ct body. url_scheme env u = Some scheme \<and> (scheme = ''http'' \<or> scheme = ''https'') \<and>
           request_ok env u \<and> http_get env u = GetResponse 200 ct (Some body) \<and> is_text_content ct \<and>
           (if contains ct ''text/html'' then
              (\<exists>text title. extract_html_text (parse_html env) body = Inr (text, title) \<and>
                 r = \<lparr>fr_content = text, fr_title = utf8_encode title, fr_size = length (utf8_encode text)\<rparr>)
            else r = \<lparr>fr_content = body, fr_title = [], fr_size = length (utf8_encode body)\<rparr>)"
proof -
  obtain scheme where sc: "url_scheme env u = Some scheme"
    using assms by (cases "url_scheme env u") (simp_all add: fetch_url_def)
  have ok: "(scheme = ''http'' \<or> scheme = ''https'') \<and> request_ok env u"
    using assms sc by (auto simp: fetch_url_def split: if_splits)
  obtain status ct b where g: "http_get env u = GetResponse status ct b"
    using assms sc ok by (cases "http_get env u") (auto simp: fetch_url_def)
  have st: "status = 200 \<and> is_text_content ct"
    using assms sc ok g by (auto simp: fetch_url_def split: if_splits)
  obtain body where b: "b = Some body"
    using assms sc ok g st by (cases b) (auto simp: fetch_url_def)
  have "if contains ct ''text/html'' then
          (\<exists>text title. extract_html_text (parse_html env) body = Inr (text, title) \<and>
             r = \<lparr>fr_content = text, fr_title = utf8_encode title, fr_size = length (utf8_encode text)\<rparr>)
        else r = \<lparr>fr_content = body, fr_title = [], fr_size = length (utf8_encode body)\<rparr>"
  proof (cases "contains ct ''text/html''")
    case True
    then show ?thesis using assms sc ok g st b
      by (cases "extract_html_text (parse_html env) body") (auto simp: fetch_url_def)
  next
    case False
    then show ?thesis using assms sc ok g st b by (auto simp: fetch_url_def)
  qed
  then show ?thesis using sc ok g st b by blast
qed

subsection \<open>Properties\<close>

text \<open>C13. \<open>extractHTMLText\<close> computes the visible text: it succeeds exactly
  when the document parses, and then its text is the words of the text nodes
  outside \<open>script\<close> and \<open>style\<close> elements, in document order, joined by single
  spaces (the title's own text included), and its title is the first non-blank
  trimmed text of a \<open>title\<close> element.\<close>

theorem extract_html_text_visible:
  "extract_html_text parse h = Inr (cnt, ttl) \<longleftrightarrow>
     (\<exists>doc. parse h = Some doc \<and> cnt = go_join [32] (concat (map go_fields (visible_texts doc))) \<and>
            ttl = first_title doc)"
proof
  assume e: "extract_html_text parse h = Inr (cnt, ttl)"
  then obtain doc where d: "parse h = Some doc"
    by (cases "parse h") (simp_all add: extract_html_text_def)
  show "\<exists>doc. parse h = Some doc \<and> cnt = go_join [32] (concat (map go_fields (visible_texts doc))) \<and>
          ttl = first_title doc"
    using e d extract_html_text_Some [of parse h doc, OF d] by auto
next
  assume "\<exists>doc. parse h = Some doc \<and> cnt = go_join [32] (concat (map go_fields (visible_texts doc))) \<and>
            ttl = first_title doc"
  then obtain doc where "parse h = Some doc" "cnt = go_join [32] (concat (map go_fields (visible_texts doc)))"
    "ttl = first_title doc" by blast
  then show "extract_html_text parse h = Inr (cnt, ttl)" using extract_html_text_Some [of parse h doc] by simp
qed

text \<open>\<open>normalizeWhitespace\<close> produces its own normal form: applied to
  its result it changes nothing, since the result is its words joined by single
  spaces.\<close>

lemma normalize_whitespace_idem:
  "normalize_whitespace (normalize_whitespace s) = normalize_whitespace s"
  using go_fields_join [OF fields_from_words [of "[]" s]] by (simp add: normalize_whitespace_def go_fields_def)

text \<open>C29. \<open>FetchURL\<close> succeeds only for an \<open>http\<close> or \<open>https\<close> URL whose
  request could be built and whose response has status 200 exactly (any other
  2xx status is an error too), a text media type, and a readable body. An HTML
  response (by a case-sensitive \<open>text/html\<close> in the header) gives the visible
  text and title of the parsed document; any other gives the body unchanged and
  no title. \<open>Size\<close> is the byte length of the content.\<close>

theorem fetch_url_Inr:
  assumes "fetch_url env u = Inr r"
  shows "\<exists>scheme ct body. url_scheme env u = Some scheme \<and> (scheme = ''http'' \<or> scheme = ''https'') \<and>
           request_ok env u \<and> http_get env u = GetResponse 200 ct (Some body) \<and>
           contains (map ascii_lower ct) ''text/'' \<and>
           (if contains ct ''text/html'' then
              (\<exists>doc. parse_html env body = Some doc \<and>
                 fr_content r = go_join [32] (concat (map go_fields (visible_texts doc))) \<and>
                 fr_title r = utf8_encode (first_title doc))
            else fr_content r = body \<and> fr_title r = []) \<and>
           fr_size r = length (utf8_encode (fr_content r))"
proof -
  obtain scheme ct body where r: "url_scheme env u = Some scheme" "scheme = ''http'' \<or> scheme = ''https''"
    "request_ok env u" "http_get env u = GetResponse 200 ct (Some body)" "is_text_content ct"
    "if contains ct ''text/html'' then
       (\<exists>text title. extract_html_text (parse_html env) body = Inr (text, title) \<and>
          r = \<lparr>fr_content = text, fr_title = utf8_encode title, fr_size = length (utf8_encode text)\<rparr>)
     else r = \<lparr>fr_content = body, fr_title = [], fr_size = length (utf8_encode body)\<rparr>"
    using fetch_url_response [OF assms] by blast
  have "if contains ct ''text/html'' then
          (\<exists>doc. parse_html env body = Some doc \<and>
             fr_content r = go_join [32] (concat (map go_fields (visible_texts doc))) \<and>
             fr_title r = utf8_encode (first_title doc))
        else fr_content r = body \<and> fr_title r = []"
  proof (cases "contains ct ''text/html''")
    case True
    then obtain tx ti where e: "extract_html_text (parse_html env) body = Inr (tx, ti)"
      and rr: "r = \<lparr>fr_content = tx, fr_title = utf8_encode ti, fr_size = length (utf8_encode tx)\<rparr>"
      using r(6) by auto
    obtain doc where d: "parse_html env body = Some doc"
      using e by (cases "parse_html env body") (simp_all add: extract_html_text_def)
    show ?thesis using True e rr d extract_html_text_Some [of "parse_html env" body doc, OF d] by simp
  next
    case False
    then show ?thesis using r(6) by simp
  qed
  moreover have "fr_size r = length (utf8_encode (fr_content r))" using r(6) by (auto split: if_splits)
  ultimately show ?thesis using r(1-5) is_text_content_iff by blast
qed

theorem fetch_url_Inr_witness:
  "let env = \<lparr>url_scheme = (\<lambda>_. Some ''http''), request_ok = (\<lambda>_. True),
              http_get = (\<lambda>_. GetResponse 200 ''text/plain; charset=utf-8'' (Some (runes_of ''hi''))),
              parse_html = (\<lambda>_. None)\<rparr>;
       r = \<lparr>fr_content = runes_of ''hi'', fr_title = [], fr_size = 2\<rparr>
   in fetch_url env ''http://h/'' = Inr r \<and>
      (\<exists>scheme ct body. url_scheme env ''http://h/'' = Some scheme \<and> (scheme = ''http'' \<or> scheme = ''https'') \<and>
           request_ok env ''http://h/'' \<and> http_get env ''http://h/'' = GetResponse 200 ct (Some body) \<and>
           contains (map ascii_lower ct) ''text/'' \<and>
           (if contains ct ''text/html'' then
              (\<exists>doc. parse_html env body = Some doc \<and>
                 fr_content r = go_join [32] (concat (map go_fields (visible_texts doc))) \<and>
                 fr_title r = utf8_encode (first_title doc))
            else fr_content r = body \<and> fr_title r = []) \<and>
           fr_size r = length (utf8_encode (fr_content r)))"
proof -
  let ?env = "\<lparr>url_scheme = (\<lambda>_. Some ''http''), request_ok = (\<lambda>_. True),
              http_get = (\<lambda>_. GetResponse 200 ''text/plain; charset=utf-8'' (Some (runes_of ''hi''))),
              parse_html = (\<lambda>_. None)\<rparr>"
  let ?r = "\<lparr>fr_content = runes_of ''hi'', fr_title = [], fr_size = 2\<rparr>"
  have h: "fetch_url ?env ''http://h/'' = Inr ?r"
    by (simp add: fetch_url_def is_text_content_def ascii_lower_def runes_of_def utf8_encode_def
                  utf8_encode_rune_def)
  show ?thesis using h fetch_url_Inr [OF h] unfolding Let_def by blast
qed

text \<open>C30. The HTML check is case-sensitive where the content-type check is
  not: a response whose media type is \<open>text/html\<close> only up to case (such as
  \<open>Text/HTML\<close>) is accepted as text and returned raw, markup, scripts and
  styles included, with no title.\<close>

theorem fetch_url_html_case_sensitive:
  assumes "url_scheme env u = Some ''https''" "request_ok env u"
    "http_get env u = GetResponse 200 ct (Some body)"
    "contains (map ascii_lower ct) ''text/html''" "\<not> contains ct ''text/html''"
  shows "fetch_url env u = Inr \<lparr>fr_content = body, fr_title = [], fr_size = length (utf8_encode body)\<rparr>"
  using assms by (simp add: fetch_url_def is_text_content_def)

theorem fetch_url_html_case_sensitive_witness:
  "let env = \<lparr>url_scheme = (\<lambda>_. Some ''https''), request_ok = (\<lambda>_. True),
              http_get = (\<lambda>_. GetResponse 200 ''Text/HTML'' (Some (runes_of ''<p>hi</p>''))),
              parse_html = (\<lambda>_. None)\<rparr>
   in url_scheme env ''https://example.com/'' = Some ''https'' \<and> request_ok env ''https://example.com/'' \<and>
      http_get env ''https://example.com/'' = GetResponse 200 ''Text/HTML'' (Some (runes_of ''<p>hi</p>'')) \<and>
      contains (map ascii_lower ''Text/HTML'') ''text/html'' \<and> \<not> contains ''Text/HTML'' ''text/html'' \<and>
      fetch_url env ''https://example.com/'' =
        Inr \<lparr>fr_content = runes_of ''<p>hi</p>'', fr_title = [],
             fr_size = length (utf8_encode (runes_of ''<p>hi</p>''))\<rparr>"
proof -
  have c: "contains (map ascii_lower ''Text/HTML'') ''text/html''" "\<not> contains ''Text/HTML'' ''text/html''"
    by (simp_all add: ascii_lower_def char_of_eq_iff)
  let ?env = "\<lparr>url_scheme = (\<lambda>_. Some ''https''), request_ok = (\<lambda>_. True),
              http_get = (\<lambda>_. GetResponse 200 ''Text/HTML'' (Some (runes_of ''<p>hi</p>''))),
              parse_html = (\<lambda>_. None)\<rparr>"
  have "fetch_url ?env ''https://example.com/'' =
        Inr \<lparr>fr_content = runes_of ''<p>hi</p>'', fr_title = [],
             fr_size = length (utf8_encode (runes_of ''<p>hi</p>''))\<rparr>"
    by (rule fetch_url_html_case_sensitive) (simp, simp, simp, rule c(1), rule c(2))
  then show ?thesis using c unfolding Let_def by simp
qed

end
