(* ===== verification/Service.thy ===== *)
theory Service
  imports Chunker Store Embeddings Fetcher
begin

text \<open>
  The search service of \<open>src/internal/search/search.go\<close>: \<open>Service.Search\<close>,
  \<open>Service.Index\<close>, \<open>Service.List\<close> and \<open>Service.Delete\<close>, composed from the
  chunker (theory \<open>Chunker\<close>), the embedding gateway (theory \<open>Embeddings\<close>,
  over texts that are rune lists) and the document store (theory \<open>Store\<close>).
  Everything outside the program is the environment \<open>svc_env\<close>: the embedding
  provider and the context, which statements of the database fail, the file
  system (\<open>os.ReadFile\<close>, with the bytes decoded to runes as \<open>ChunkText\<close> does),
  the content fetcher (\<open>FetchURL\<close>), the clock and the cosine distance.

  \<open>ChunkText\<close> may run forever (theory \<open>Chunker\<close>, C1), so \<open>Index\<close> takes the
  chunker's fuel and returns \<open>None\<close> when the fuel runs out.
\<close>

record svc_env =
  env_emb :: "runes embed_env"
  env_fails :: "stmt \<Rightarrow> bool"
  env_read_file :: "string \<Rightarrow> string + runes"
  env_fetch :: "string \<Rightarrow> fetch_error + fetch_result"
  env_now :: int
  env_cos :: "byte list \<Rightarrow> byte list \<Rightarrow> real"

record search_request =
  rq_query :: runes
  rq_top_k :: int
  rq_min_score :: real
  rq_source_filter :: string

record search_response =
  sr_results :: "search_result list"
  sr_count :: nat

record index_request =
  ix_file_path :: string
  ix_url :: string
  ix_content :: runes
  ix_source :: string
  ix_reindex :: bool

text \<open>\<open>IndexResponse\<close>; its \<open>Message\<close> is the formatted source and chunk count.\<close>

record index_response =
  ir_source :: string
  ir_source_type :: string
  ir_chunk_count :: nat

record document_info =
  di_source :: string
  di_source_type :: string
  di_chunk_count :: int
  di_content_size :: int
  di_indexed_at :: int
  di_title :: string

text \<open>\<open>ListRequest\<close> and \<open>DeleteRequest\<close>.\<close>

record list_request =
  lq_source_type :: string

record delete_request =
  dq_source :: string

record list_response =
  lr_documents :: "document_info list"
  lr_count :: nat

text \<open>\<open>DeleteResponse\<close>; its \<open>Message\<close> carries the store's error when there is one.\<close>

record delete_response =
  dr_source :: string
  dr_deleted :: bool
  dr_error :: "store_error option"

datatype svc_error =
    ErrMustProvideOne | ErrProvideExactlyOne | ErrReadFile string | ErrFetchURL fetch_error
  | ErrExistsCheck store_error | ErrAlreadyIndexed string | ErrNoChunks | ErrEmbedChunks emb_error
  | ErrCountMismatch nat nat | ErrStoreDocument store_error
  | ErrEmbedQuery emb_error | ErrNoEmbedding | ErrSearchDatabase store_error
  | ErrListDocuments store_error

subsection \<open>\<open>Service.Search\<close>\<close>

definition svc_search :: "svc_env \<Rightarrow> search_request \<Rightarrow> db \<Rightarrow> svc_error + search_response" where
  "svc_search env req st =
     (let topK = (if rq_top_k req \<le> 0 then 5 else rq_top_k req)
      in case embed_texts (env_emb env) [rq_query req] of
           Inl e \<Rightarrow> Inl (ErrEmbedQuery e)
         | Inr es \<Rightarrow>
             (if es = [] then Inl ErrNoEmbedding
              else (case search (env_fails env) (env_cos env) (hd es) topK (rq_min_score req) (rq_source_filter req) st of
                      Inl e \<Rightarrow> Inl (ErrSearchDatabase e)
                    | Inr rs \<Rightarrow> Inr \<lparr>sr_results = rs, sr_count = length rs\<rparr>)))"

subsection \<open>\<open>Service.Index\<close>\<close>

text \<open>\<open>hasFilePath\<close>, \<open>hasURL\<close>, \<open>hasContent\<close> and \<open>sourceCount\<close>.\<close>

definition source_count :: "string \<Rightarrow> string \<Rightarrow> runes \<Rightarrow> string \<Rightarrow> nat" where
  "source_count fp url txt src =
     (if fp \<noteq> [] then 1 else 0) + (if url \<noteq> [] then 1 else 0) +
     (if txt \<noteq> [] \<and> src \<noteq> [] then 1 else 0)"

text \<open>The content, source, source type and title of the one source given.\<close>

definition resolve_source :: "svc_env \<Rightarrow> index_request \<Rightarrow> svc_error + runes \<times> string \<times> string \<times> string" where
  "resolve_source env req =
     (if ix_file_path req \<noteq> [] then
        (case env_read_file env (ix_file_path req) of
           Inl m \<Rightarrow> Inl (ErrReadFile m)
         | Inr txt \<Rightarrow> Inr (txt, ix_file_path req, ''file'', ''''))
      else if ix_url req \<noteq> [] then
        (case env_fetch env (ix_url req) of
           Inl m \<Rightarrow> Inl (ErrFetchURL m)
         | Inr fr \<Rightarrow> Inr (fr_content fr, ix_url req, ''url'', fr_title fr))
      else Inr (ix_content req, ix_source req, ''content'', ''''))"

text \<open>The \<open>storage.Chunk\<close> built from a chunk and its vector.\<close>

definition storage_chunk_of :: "chunk \<Rightarrow> embedding \<Rightarrow> storage_chunk" where
  "storage_chunk_of ch v =
     \<lparr>sc_index = Index ch, sc_content = Content ch, sc_start = StartOffset ch, sc_end = EndOffset ch,
      sc_embedding = v\<rparr>"

text \<open>The first half of \<open>Index\<close>: validation, resolving the source, and the
  conflict check unless \<open>Reindex\<close> is set.\<close>

definition index_check :: "svc_env \<Rightarrow> index_request \<Rightarrow> db \<Rightarrow> svc_error + runes \<times> string \<times> string \<times> string" where
  "index_check env req st =
     (let n = source_count (ix_file_path req) (ix_url req) (ix_content req) (ix_source req)
      in if n = 0 then Inl ErrMustProvideOne
         else if n > 1 then Inl ErrProvideExactlyOne
         else (case resolve_source env req of
                 Inl e \<Rightarrow> Inl e
               | Inr (txt, src, ty, ttl) \<Rightarrow>
                   (if ix_reindex req then Inr (txt, src, ty, ttl)
                    else (case document_exists (env_fails env) src st of
                            Inl e \<Rightarrow> Inl (ErrExistsCheck e)
                          | Inr ex \<Rightarrow> if ex then Inl (ErrAlreadyIndexed src) else Inr (txt, src, ty, ttl)))))"

text \<open>The second half: chunk, embed the chunk texts in one call, pair each chunk
  with its vector, and store the document.\<close>

definition index_store ::
  "nat \<Rightarrow> chunker \<Rightarrow> svc_env \<Rightarrow> runes \<Rightarrow> string \<Rightarrow> string \<Rightarrow> string \<Rightarrow> db \<Rightarrow>
   ((svc_error + index_response) \<times> db) option" where
  "index_store fuel c env txt src ty ttl st =
     (case chunk_text fuel c txt of
        None \<Rightarrow> None
      | Some chs \<Rightarrow>
          (if chs = [] then Some (Inl ErrNoChunks, st)
           else (case embed_texts (env_emb env) (map Content chs) of
                   Inl e \<Rightarrow> Some (Inl (ErrEmbedChunks e), st)
                 | Inr es \<Rightarrow>
                     (if length es \<noteq> length chs
                      then Some (Inl (ErrCountMismatch (length es) (length chs)), st)
                      else (case index_document (env_fails env) (env_now env) src ty ttl
                                   (map2 storage_chunk_of chs es) st of
                              (Inl e, st') \<Rightarrow> Some (Inl (ErrStoreDocument e), st')
                            | (Inr (), st') \<Rightarrow>
                                Some (Inr \<lparr>ir_source = src, ir_source_type = ty,
                                           ir_chunk_count = length chs\<rparr>, st'))))))"

definition svc_index ::
  "nat \<Rightarrow> chunker \<Rightarrow> svc_env \<Rightarrow> index_request \<Rightarrow> db \<Rightarrow> ((svc_error + index_response) \<times> db) option" where
  "svc_index fuel c env req st =
     (case index_check env req st of
        Inl e \<Rightarrow> Some (Inl e, st)
      | Inr (txt, src, ty, ttl) \<Rightarrow> index_store fuel c env txt src ty ttl st)"

subsection \<open>\<open>Service.List\<close> and \<open>Service.Delete\<close>\<close>

definition document_info_of :: "document_row \<Rightarrow> document_info" where
  "document_info_of d =
     \<lparr>di_source = source d, di_source_type = source_type d, di_chunk_count = chunk_count d,
      di_content_size = content_size d, di_indexed_at = indexed_at d, di_title = title d\<rparr>"

definition svc_list :: "svc_env \<Rightarrow> list_request \<Rightarrow> db \<Rightarrow> svc_error + list_response" where
  "svc_list env req st =
     (case list_documents (env_fails env) (lq_source_type req) st of
        Inl e \<Rightarrow> Inl (ErrListDocuments e)
      | Inr ds \<Rightarrow> (let docs = map document_info_of ds in Inr \<lparr>lr_documents = docs, lr_count = length docs\<rparr>))"

text \<open>\<open>Delete\<close> turns every error of \<open>DeleteDocument\<close> into a response with
  \<open>Deleted = false\<close>; it never returns an error itself.\<close>

definition svc_delete :: "svc_env \<Rightarrow> delete_request \<Rightarrow> db \<Rightarrow> delete_response \<times> db" where
  "svc_delete env req st =
     (case delete_document (env_fails env) (dq_source req) st of
        (Inl e, st') \<Rightarrow> (\<lparr>dr_source = dq_source req, dr_deleted = False, dr_error = Some e\<rparr>, st')
      | (Inr (), st') \<Rightarrow> (\<lparr>dr_source = dq_source req, dr_deleted = True, dr_error = None\<rparr>, st'))"


subsection \<open>Index: the two halves\<close>

lemma chunk_text_more_fuel:
  "chunk_text fuel c rs = Some chs \<Longrightarrow> fuel \<le> fuel' \<Longrightarrow> chunk_text fuel' c rs = Some chs"
  using chunk_loop_fuel_mono [of fuel c rs 0 0 chs fuel']
  by (auto simp: chunk_text_def Let_def split: if_splits)

lemma index_store_None:
  "index_store fuel c env cnt src ty ttl st = None \<Longrightarrow> chunk_text fuel c cnt = None"
proof (cases "chunk_text fuel c cnt")
  case (Some chs)
  assume n: "index_store fuel c env cnt src ty ttl st = None"
  show ?thesis
  proof (cases "embed_texts (env_emb env) (map Content chs)")
    case (Inr es)
    obtain r st' where idx: "index_document (env_fails env) (env_now env) src ty ttl (map2 storage_chunk_of chs es) st = (r, st')"
      by fastforce
    show ?thesis using n Some Inr idx by (cases r) (simp_all add: index_store_def split: if_splits unit.splits)
  qed (use n Some in \<open>simp add: index_store_def split: if_splits\<close>)
qed

lemma index_store_fuel_mono:
  assumes "index_store fuel c env cnt src ty ttl st = Some r" "fuel \<le> fuel'"
  shows "index_store fuel' c env cnt src ty ttl st = Some r"
proof (cases "chunk_text fuel c cnt")
  case None
  then show ?thesis using assms(1) by (simp add: index_store_def)
next
  case (Some chs)
  then have "chunk_text fuel' c cnt = Some chs" using assms(2) by (rule chunk_text_more_fuel)
  then show ?thesis using assms(1) Some by (simp add: index_store_def)
qed

lemma svc_index_fuel_mono:
  "svc_index fuel c env req st = Some r \<Longrightarrow> fuel \<le> fuel' \<Longrightarrow> svc_index fuel' c env req st = Some r"
  by (auto simp: svc_index_def intro: index_store_fuel_mono split: sum.splits)

lemma svc_index_returns:
  assumes "chunker_progress c"
  shows "\<exists>fuel r. svc_index fuel c env req st = Some r"
proof (cases "index_check env req st")
  case (Inl e)
  then show ?thesis by (simp add: svc_index_def)
next
  case (Inr v)
  obtain cnt src sty ttl where v: "v = (cnt, src, sty, ttl)" by (cases v)
  obtain chs where "chunk_text (length cnt + 1) c cnt = Some chs"
    using chunk_text_enough_fuel [OF assms] by blast
  then have "index_store (length cnt + 1) c env cnt src sty ttl st \<noteq> None"
    using index_store_None by fastforce
  then show ?thesis using Inr v by (auto simp: svc_index_def)
qed

lemma index_store_Inr:
  assumes "index_store fuel c env cnt src ty ttl st = Some (Inr resp, st')"
  shows "\<exists>chs es. chunk_text fuel c cnt = Some chs \<and> chs \<noteq> [] \<and>
           embed_texts (env_emb env) (map Content chs) = Inr es \<and> length es = length chs \<and>
           index_document (env_fails env) (env_now env) src ty ttl (map2 storage_chunk_of chs es) st = (Inr (), st') \<and>
           resp = \<lparr>ir_source = src, ir_source_type = ty, ir_chunk_count = length chs\<rparr>"
proof -
  have "chunk_text fuel c cnt \<noteq> None"
    using assms by (cases "chunk_text fuel c cnt") (simp_all add: index_store_def)
  then obtain chs where chs: "chunk_text fuel c cnt = Some chs" by blast
  have ne: "chs \<noteq> []" using assms chs by (auto simp: index_store_def)
  obtain es where es: "embed_texts (env_emb env) (map Content chs) = Inr es"
    using assms chs ne by (cases "embed_texts (env_emb env) (map Content chs)") (simp_all add: index_store_def)
  have len: "length es = length chs" using assms chs ne es by (auto simp: index_store_def split: if_splits)
  obtain r st2 where idx: "index_document (env_fails env) (env_now env) src ty ttl (map2 storage_chunk_of chs es) st = (r, st2)"
    by fastforce
  have "r = Inr () \<and> st2 = st' \<and> resp = \<lparr>ir_source = src, ir_source_type = ty, ir_chunk_count = length chs\<rparr>"
    using assms chs ne es len idx by (cases r) (simp_all add: index_store_def split: unit.splits)
  then show ?thesis using chs ne es len idx by blast
qed

lemma index_check_content:
  assumes "index_check env req st = Inr (cnt, src, ty, ttl)" "ix_file_path req = []" "ix_url req = []"
  shows "cnt = ix_content req \<and> src = ix_source req \<and> ty = ''content'' \<and> ttl = ''''"
  using assms by (simp add: index_check_def resolve_source_def Let_def split: if_splits sum.splits)

lemma index_check_conflict:
  assumes "source_count (ix_file_path req) (ix_url req) (ix_content req) (ix_source req) = 1"
    "resolve_source env req = Inr (cnt, src, ty, ttl)" "\<not> ix_reindex req"
    "document_exists (env_fails env) src st = Inr True"
  shows "index_check env req st = Inl (ErrAlreadyIndexed src)"
  using assms by (simp add: index_check_def)


lemma storage_chunks_view:
  "length chs = length es \<Longrightarrow>
   map sc_view (map2 storage_chunk_of chs es) =
     map2 (\<lambda>ch v. (Index ch, Content ch, StartOffset ch, EndOffset ch, serialize_embedding v)) chs es"
  by (induction chs es rule: list_induct2) (simp_all add: sc_view_def storage_chunk_of_def)

lemma storage_chunks_content:
  "length chs = length es \<Longrightarrow> map sc_content (map2 storage_chunk_of chs es) = map Content chs"
  by (induction chs es rule: list_induct2) (simp_all add: storage_chunk_of_def)


lemma svc_delete_db: "snd (svc_delete env req st) = snd (delete_document (env_fails env) (dq_source req) st)"
  by (cases "delete_document (env_fails env) (dq_source req) st" rule: prod.exhaust)
     (auto simp: svc_delete_def split: sum.split unit.split)

lemma index_store_writes:
  assumes "index_store fuel c env cnt src ty ttl st = Some (x, st')"
  shows "st' = st \<or> (\<exists>cs. st' = snd (index_document (env_fails env) (env_now env) src ty ttl cs st))"
proof (cases "chunk_text fuel c cnt")
  case None then show ?thesis using assms by (simp add: index_store_def)
next
  case (Some chs)
  show ?thesis
  proof (cases "chs = [] \<or> (\<exists>e. embed_texts (env_emb env) (map Content chs) = Inl e)")
    case True
    then consider "chs = []" | e where "embed_texts (env_emb env) (map Content chs) = Inl e" by blast
    then show ?thesis
    proof cases
      case 1 then show ?thesis using assms Some by (simp add: index_store_def)
    next
      case 2 then show ?thesis using assms Some by (simp add: index_store_def split: if_splits)
    qed
  next
    case False
    then obtain es where es: "embed_texts (env_emb env) (map Content chs) = Inr es" and ne: "chs \<noteq> []"
      by (cases "embed_texts (env_emb env) (map Content chs)") auto
    obtain r st2 where idx: "index_document (env_fails env) (env_now env) src ty ttl (map2 storage_chunk_of chs es) st = (r, st2)"
      by fastforce
    show ?thesis
    proof (cases "length es = length chs")
      case True
      then have "st' = st2" using assms Some es ne idx
        by (cases r) (auto simp: index_store_def split: unit.splits)
      then show ?thesis using idx by (metis snd_conv)
    next
      case False then show ?thesis using assms Some es ne by (simp add: index_store_def)
    qed
  qed
qed

lemma svc_index_writes:
  "svc_index fuel c env req st = Some (x, st') \<Longrightarrow>
   st' = st \<or> (\<exists>src ty ttl cs. st' = snd (index_document (env_fails env) (env_now env) src ty ttl cs st))"
proof (cases "index_check env req st")
  case (Inr v)
  obtain cnt src ty ttl where v: "v = (cnt, src, ty, ttl)" by (cases v)
  assume "svc_index fuel c env req st = Some (x, st')"
  then have "index_store fuel c env cnt src ty ttl st = Some (x, st')" using Inr v by (simp add: svc_index_def)
  from index_store_writes [OF this] show ?thesis by blast
qed (simp add: svc_index_def)

lemma index_store_Inl:
  assumes "index_store fuel c env txt src ty ttl st = Some (Inl e, st')"
  shows "st' = st"
  using assms index_document_Inl [of "env_fails env" "env_now env" src ty ttl _ st]
  by (auto simp: index_store_def split: option.splits if_splits sum.splits prod.splits unit.splits)
     (metis fst_conv snd_conv)

lemma svc_index_Inl:
  "svc_index fuel c env req st = Some (Inl e, st') \<Longrightarrow> st' = st"
  by (auto simp: svc_index_def dest: index_store_Inl split: sum.splits prod.splits)

lemma svc_list_Inr:
  assumes "svc_list env req st = Inr r"
  shows "\<exists>ds. r = \<lparr>lr_documents = map document_info_of ds, lr_count = length ds\<rparr> \<and>
           mset ds = mset (filter (\<lambda>d. lq_source_type req = [] \<or> source_type d = lq_source_type req) (documents st)) \<and>
           sorted_wrt (\<lambda>a b. indexed_at b \<le> indexed_at a) ds"
  using assms list_documents_sorted [of "env_fails env" "lq_source_type req" st]
  by (auto simp: svc_list_def split: if_splits)

text \<open>C31. \<open>Search\<close> never fails on the dimension check of \<open>SearchSimilar\<close>:
  the query vector comes from \<open>Embed\<close>, which returns only vectors of
  \<open>embeddingDimension\<close> (1536) floats, so whatever the provider answers the
  database's guard never fires on this path.\<close>

theorem svc_search_no_dimension_error:
  "svc_search env req st \<noteq> Inl (ErrSearchDatabase (store_error.ErrDimension n))"
proof
  assume a: "svc_search env req st = Inl (ErrSearchDatabase (store_error.ErrDimension n))"
  then obtain es where e: "embed_texts (env_emb env) [rq_query req] = Inr es" and ne: "es \<noteq> []"
    and s: "search (env_fails env) (env_cos env) (hd es) (if rq_top_k req \<le> 0 then 5 else rq_top_k req)
              (rq_min_score req) (rq_source_filter req) st = Inl (store_error.ErrDimension n)"
    by (auto simp: svc_search_def Let_def split: sum.splits if_splits)
  have "list_all (\<lambda>v. length v = embedDimension) es"
    using e embed_loop_Inr [of "env_emb env" "[rq_query req]" 0 "[]" es] by (simp add: embed_texts_def)
  then have "length (hd es) = embeddingDimension"
    using ne by (cases es) (simp_all add: embedDimension_def embeddingDimension_def)
  then show False using s by (simp add: search_def split: if_splits)
qed

end
