(* ===== verification/Tools.thy ===== *)
theory Tools
  imports Service
begin

text \<open>
  The MCP tool handlers of \<open>src/pkg/server/tools.go\<close> and the tools that
  \<open>registerTools\<close> of \<open>src/pkg/server/types.go\<close> registers: the argument structs,
  the validation each handler does before it calls the service, and one
  dispatch function over a \<open>datatype\<close> of tool calls, so that a session of the
  server is a list of calls run in order against the database. A handler's
  \<open>json.MarshalIndent\<close> of the response is not modelled (it cannot fail on these
  types for finite scores); the response itself is the output.
\<close>

record search_args =
  sa_query :: runes
  sa_top_k :: int
  sa_min_score :: "real option"
  sa_source_filter :: string

record index_args =
  ia_file_path :: string
  ia_url :: string
  ia_content :: runes
  ia_source :: string
  ia_reindex :: bool

text \<open>\<open>ListArgs\<close> and \<open>DeleteArgs\<close>.\<close>

record list_args =
  la_source_type :: string

record delete_args =
  da_source :: string

datatype tool_error =
    ErrQueryRequired | ErrSearchFailed svc_error
  | ErrToolMustProvideOne | ErrToolProvideExactlyOne | ErrIndexingFailed svc_error
  | ErrSourceRequired | ErrListFailed svc_error

datatype tool_output =
    OutSearch search_response | OutIndex index_response | OutList list_response
  | OutDelete delete_response

text \<open>The four tools of \<open>registerTools\<close>, with their arguments.\<close>

datatype tool_call = CallSearch search_args | CallIndex index_args | CallList list_args | CallDelete delete_args

definition handle_search :: "svc_env \<Rightarrow> search_args \<Rightarrow> db \<Rightarrow> tool_error + tool_output" where
  "handle_search env args st =
     (if sa_query args = [] then Inl ErrQueryRequired
      else (let topK = (if sa_top_k args \<le> 0 then 5 else sa_top_k args);
                minScore = (case sa_min_score args of None \<Rightarrow> 3 / 10 | Some m \<Rightarrow> m)
            in case svc_search env \<lparr>rq_query = sa_query args, rq_top_k = topK, rq_min_score = minScore,
                                     rq_source_filter = sa_source_filter args\<rparr> st of
                 Inl e \<Rightarrow> Inl (ErrSearchFailed e)
               | Inr resp \<Rightarrow> Inr (OutSearch resp)))"

definition handle_index ::
  "nat \<Rightarrow> chunker \<Rightarrow> svc_env \<Rightarrow> index_args \<Rightarrow> db \<Rightarrow> ((tool_error + tool_output) \<times> db) option" where
  "handle_index fuel c env args st =
     (let n = source_count (ia_file_path args) (ia_url args) (ia_content args) (ia_source args)
      in if n = 0 then Some (Inl ErrToolMustProvideOne, st)
         else if n > 1 then Some (Inl ErrToolProvideExactlyOne, st)
         else map_option (\<lambda>(r, st'). (case r of Inl e \<Rightarrow> Inl (ErrIndexingFailed e) | Inr resp \<Rightarrow> Inr (OutIndex resp), st'))
                (svc_index fuel c env
                   \<lparr>ix_file_path = ia_file_path args, ix_url = ia_url args, ix_content = ia_content args,
                    ix_source = ia_source args, ix_reindex = ia_reindex args\<rparr> st))"

definition handle_list :: "svc_env \<Rightarrow> list_args \<Rightarrow> db \<Rightarrow> tool_error + tool_output" where
  "handle_list env args st =
     (case svc_list env \<lparr>lq_source_type = la_source_type args\<rparr> st of
        Inl e \<Rightarrow> Inl (ErrListFailed e)
      | Inr resp \<Rightarrow> Inr (OutList resp))"

definition handle_delete :: "svc_env \<Rightarrow> delete_args \<Rightarrow> db \<Rightarrow> (tool_error + tool_output) \<times> db" where
  "handle_delete env args st =
     (if da_source args = [] then (Inl ErrSourceRequired, st)
      else (let (resp, st') = svc_delete env \<lparr>dq_source = da_source args\<rparr> st in (Inr (OutDelete resp), st')))"

definition handle_call ::
  "nat \<Rightarrow> chunker \<Rightarrow> svc_env \<Rightarrow> tool_call \<Rightarrow> db \<Rightarrow> ((tool_error + tool_output) \<times> db) option" where
  "handle_call fuel c env call st =
     (case call of
        CallSearch a \<Rightarrow> Some (handle_search env a st, st)
      | CallIndex a \<Rightarrow> handle_index fuel c env a st
      | CallList a \<Rightarrow> Some (handle_list env a st, st)
      | CallDelete a \<Rightarrow> Some (handle_delete env a st))"

text \<open>A session: the calls served one after the other, each on the database the
  previous one left; \<open>None\<close> when a call does not return.\<close>

fun run_calls ::
  "nat \<Rightarrow> chunker \<Rightarrow> svc_env \<Rightarrow> tool_call list \<Rightarrow> db \<Rightarrow> ((tool_error + tool_output) list \<times> db) option" where
  "run_calls fuel c env [] st = Some ([], st)"
| "run_calls fuel c env (call # calls) st =
     (case handle_call fuel c env call st of
        None \<Rightarrow> None
      | Some (r, st') \<Rightarrow> map_option (\<lambda>(rs, st''). (r # rs, st'')) (run_calls fuel c env calls st'))"


subsection \<open>Dispatch and sessions\<close>

abbreviation index_request_of :: "index_args \<Rightarrow> index_request" where
  "index_request_of a \<equiv> \<lparr>ix_file_path = ia_file_path a, ix_url = ia_url a, ix_content = ia_content a,
                          ix_source = ia_source a, ix_reindex = ia_reindex a\<rparr>"

lemma handle_index_Inr:
  assumes "handle_call fuel c env (CallIndex a) st = Some (Inr out, st')"
  shows "\<exists>resp. svc_index fuel c env (index_request_of a) st = Some (Inr resp, st')"
proof -
  obtain r where r: "svc_index fuel c env (index_request_of a) st = Some r"
    using assms by (auto simp: handle_call_def handle_index_def Let_def split: if_splits)
  obtain x st2 where "r = (x, st2)" by fastforce
  then show ?thesis using assms r
    by (cases x) (auto simp: handle_call_def handle_index_def Let_def split: if_splits)
qed

lemma handle_call_fuel_mono:
  assumes "handle_call fuel c env call st = Some r" "fuel \<le> fuel'"
  shows "handle_call fuel' c env call st = Some r"
proof (cases call)
  case (CallIndex a)
  show ?thesis
  proof (cases "svc_index fuel c env (index_request_of a) st")
    case None
    then show ?thesis using assms CallIndex by (simp add: handle_call_def handle_index_def Let_def split: if_splits)
  next
    case (Some x)
    then have "svc_index fuel' c env (index_request_of a) st = Some x"
      using assms(2) by (rule svc_index_fuel_mono)
    then show ?thesis using assms(1) CallIndex Some by (simp add: handle_call_def handle_index_def Let_def split: if_splits)
  qed
qed (use assms in \<open>simp_all add: handle_call_def\<close>)

lemma handle_call_returns:
  assumes "chunker_progress c"
  shows "\<exists>fuel r. handle_call fuel c env call st = Some r"
proof (cases call)
  case (CallIndex a)
  obtain fuel x where "svc_index fuel c env (index_request_of a) st = Some x"
    using svc_index_returns [OF assms] by blast
  then have "handle_call fuel c env call st \<noteq> None"
    using CallIndex by (simp add: handle_call_def handle_index_def Let_def)
  then show ?thesis by blast
qed (simp_all add: handle_call_def)

lemma run_calls_fuel_mono:
  "run_calls fuel c env calls st = Some r \<Longrightarrow> fuel \<le> fuel' \<Longrightarrow> run_calls fuel' c env calls st = Some r"
proof (induction calls arbitrary: st r)
  case (Cons call calls)
  obtain x st' where h: "handle_call fuel c env call st = Some (x, st')"
    using Cons.prems(1) by (auto split: option.splits)
  obtain rs where t: "run_calls fuel c env calls st' = Some rs"
    using Cons.prems(1) h by (auto split: option.splits)
  have "handle_call fuel' c env call st = Some (x, st')" using h Cons.prems(2) by (rule handle_call_fuel_mono)
  moreover have "run_calls fuel' c env calls st' = Some rs" using t Cons.prems(2) by (rule Cons.IH)
  ultimately show ?case using Cons.prems(1) h t by simp
qed simp

lemma run_calls_returns:
  assumes "chunker_progress c"
  shows "\<exists>fuel r. run_calls fuel c env calls st = Some r"
proof (induction calls arbitrary: st)
  case (Cons call calls)
  obtain f1 x st' where h: "handle_call f1 c env call st = Some (x, st')"
    using handle_call_returns [OF assms] by fastforce
  obtain f2 rs where t: "run_calls f2 c env calls st' = Some rs" using Cons.IH by blast
  have "handle_call (max f1 f2) c env call st = Some (x, st')" using h by (rule handle_call_fuel_mono) simp
  moreover have "run_calls (max f1 f2) c env calls st' = Some rs" using t by (rule run_calls_fuel_mono) simp
  ultimately have "run_calls (max f1 f2) c env (call # calls) st \<noteq> None" by simp
  then show ?case by blast
qed simp


lemma handle_call_writes:
  assumes "handle_call fuel c env call st = Some (r, st')"
  shows "st' = st \<or> (\<exists>src ty ttl cs. st' = snd (index_document (env_fails env) (env_now env) src ty ttl cs st)) \<or>
         (\<exists>src. st' = snd (delete_document (env_fails env) src st))"
proof (cases call)
  case (CallIndex a)
  show ?thesis
  proof (cases "svc_index fuel c env (index_request_of a) st")
    case None
    then show ?thesis using assms CallIndex by (auto simp: handle_call_def handle_index_def Let_def split: if_splits)
  next
    case (Some y)
    obtain x st2 where y: "y = (x, st2)" by fastforce
    have "st' = st \<or> st' = st2" using assms CallIndex Some y
      by (auto simp: handle_call_def handle_index_def Let_def split: if_splits)
    then show ?thesis using svc_index_writes [of fuel c env "index_request_of a" st x st2] Some y by blast
  qed
next
  case (CallDelete a)
  then show ?thesis using assms svc_delete_db [of env "\<lparr>dq_source = da_source a\<rparr>" st]
    by (cases "svc_delete env \<lparr>dq_source = da_source a\<rparr> st")
       (auto simp: handle_call_def handle_delete_def split: if_splits)
qed (use assms in \<open>simp_all add: handle_call_def\<close>)

text \<open>C11. Deleting a source that is not indexed is answered, not failed:
  \<open>DeleteDocument\<close> returns its not-found error, \<open>Service.Delete\<close> turns it into
  a response with \<open>Deleted = false\<close> and the error, and the tool returns that
  response as a successful result; the database is unchanged.\<close>

theorem delete_tool_unknown_source:
  assumes "da_source a \<noteq> []" "\<not> env_fails env SDelete" "\<not> env_fails env SRowsAffected"
    "da_source a \<notin> dom (view st)"
  shows "handle_call fuel c env (CallDelete a) st =
           Some (Inr (OutDelete \<lparr>dr_source = da_source a, dr_deleted = False,
                                 dr_error = Some (ErrNotFound (da_source a))\<rparr>), st)"
proof -
  have n: "\<not> list_ex (\<lambda>d. source d = da_source a) (documents st)" using assms(4) view_dom by blast
  have "delete_document (env_fails env) (da_source a) st = (Inl (ErrNotFound (da_source a)), st)"
    using assms(2,3) n delete_source_absent [OF n] by (simp add: delete_document_cases)
  then show ?thesis using assms(1) by (simp add: handle_call_def handle_delete_def svc_delete_def)
qed

text \<open>C19. A tool call that returns an error leaves the database as it was:
  the handlers' own validation errors come before any write, and an indexing
  error, including one from any statement of the store's transaction, is
  rolled back.\<close>

theorem tool_error_keeps_db:
  assumes "handle_call fuel c env call st = Some (Inl e, st')"
  shows "st' = st"
proof (cases call)
  case (CallIndex a)
  show ?thesis
  proof (cases "svc_index fuel c env (index_request_of a) st")
    case (Some y)
    obtain x st2 where y: "y = (x, st2)" by fastforce
    show ?thesis
    proof (cases x)
      case (Inl e')
      then show ?thesis using assms CallIndex Some y svc_index_Inl [of fuel c env "index_request_of a" st e' st2]
        by (auto simp: handle_call_def handle_index_def Let_def split: if_splits)
    qed (use assms CallIndex Some y in \<open>auto simp: handle_call_def handle_index_def Let_def split: if_splits\<close>)
  qed (use assms CallIndex in \<open>auto simp: handle_call_def handle_index_def Let_def split: if_splits\<close>)
next
  case (CallDelete a)
  then show ?thesis using assms
    by (auto simp: handle_call_def handle_delete_def split: if_splits prod.splits)
qed (use assms in \<open>simp_all add: handle_call_def\<close>)

text \<open>C28. \<open>list_documents\<close> refines the abstract store: a successful call
  changes nothing and returns each indexed source of the requested type (every
  source for the empty filter) exactly once, with the type, time, size, chunk
  count and title the store holds for it, newest first, and a count equal to
  the length of the list.\<close>

theorem list_tool_refines_view:
  assumes "handle_call fuel c env (CallList a) st = Some (Inr (OutList r), st')" "db_inv st"
  shows "st' = st \<and> lr_count r = length (lr_documents r) \<and> distinct (map di_source (lr_documents r)) \<and>
         set (map di_source (lr_documents r)) =
           {src. \<exists>v. view st src = Some v \<and> (la_source_type a = [] \<or> fst v = la_source_type a)} \<and>
         list_all (\<lambda>x. \<exists>cs. view st (di_source x) =
           Some (di_source_type x, di_indexed_at x, di_content_size x, di_chunk_count x, di_title x, cs))
           (lr_documents r) \<and>
         sorted_wrt (\<lambda>x y. di_indexed_at y \<le> di_indexed_at x) (lr_documents r)"
proof -
  let ?P = "\<lambda>d. la_source_type a = [] \<or> source_type d = la_source_type a"
  have st': "st' = st" and l: "svc_list env \<lparr>lq_source_type = la_source_type a\<rparr> st = Inr r"
    using assms(1) by (auto simp: handle_call_def handle_list_def split: sum.splits)
  obtain ds where r: "r = \<lparr>lr_documents = map document_info_of ds, lr_count = length ds\<rparr>"
    and m: "mset ds = mset (filter ?P (documents st))" and so: "sorted_wrt (\<lambda>a b. indexed_at b \<le> indexed_at a) ds"
    using svc_list_Inr [OF l] by auto
  have set_ds: "set ds = set (filter ?P (documents st))" using m by (metis set_mset_mset)
  have "distinct (map source (filter ?P (documents st)))"
    using db_invD(1) [OF assms(2)] by (simp add: distinct_map_filter)
  moreover have "mset (map source ds) = mset (map source (filter ?P (documents st)))" using m by simp
  ultimately have dist: "distinct (map source ds)" by (metis mset_eq_imp_distinct_iff)
  have vw: "\<And>d. d \<in> set ds \<Longrightarrow> view st (source d) =
              Some (source_type d, indexed_at d, content_size d, chunk_count d, title d, doc_chunks st d)"
    using set_ds view_Some_iff [OF assms(2)] by auto
  have srcs: "source ` set ds = {src. \<exists>v. view st src = Some v \<and> (la_source_type a = [] \<or> fst v = la_source_type a)}"
  proof (intro equalityI subsetI)
    fix src assume "src \<in> source ` set ds"
    then obtain d where "d \<in> set ds" "src = source d" by blast
    then show "src \<in> {src. \<exists>v. view st src = Some v \<and> (la_source_type a = [] \<or> fst v = la_source_type a)}"
      using vw set_ds by auto
  next
    fix src assume "src \<in> {src. \<exists>v. view st src = Some v \<and> (la_source_type a = [] \<or> fst v = la_source_type a)}"
    then obtain v where "view st src = Some v" "la_source_type a = [] \<or> fst v = la_source_type a" by blast
    then obtain d where "d \<in> set (documents st)" "source d = src" "?P d"
      using view_Some_iff [OF assms(2)] by auto
    then show "src \<in> source ` set ds" using set_ds by auto
  qed
  show ?thesis
    using st' dist srcs vw so
    by (auto simp: r document_info_of_def comp_def list_all_iff sorted_wrt_map distinct_map
             intro: inj_onI)
qed


theorem delete_tool_unknown_source_witness:
  "let st = snd (index_document (\<lambda>_. False) 0 ''a'' ''content'' ''''
              [\<lparr>sc_index = 0, sc_content = [104, 105], sc_start = 0, sc_end = 2, sc_embedding = []\<rparr>]
              new_database);
       env = \<lparr>env_emb = \<lparr>http_do = (\<lambda>i a ts. TransportError), cancelled = (\<lambda>_. False)\<rparr>,
               env_fails = (\<lambda>_. False), env_read_file = (\<lambda>_. Inl ''''),
               env_fetch = (\<lambda>_. Inl ErrInvalidURL), env_now = 0, env_cos = (\<lambda>_ _. 0)\<rparr> :: svc_env
   in da_source \<lparr>da_source = ''b''\<rparr> \<noteq> [] \<and> \<not> env_fails env SDelete \<and> \<not> env_fails env SRowsAffected \<and>
      ''b'' \<notin> dom (view st) \<and>
      handle_call 0 (new_chunker 50 10) env (CallDelete \<lparr>da_source = ''b''\<rparr>) st =
        Some (Inr (OutDelete \<lparr>dr_source = ''b'', dr_deleted = False, dr_error = Some (ErrNotFound ''b'')\<rparr>), st)"
proof -
  let ?st = "snd (index_document (\<lambda>_. False) 0 ''a'' ''content'' ''''
              [\<lparr>sc_index = 0, sc_content = [104, 105], sc_start = 0, sc_end = 2, sc_embedding = []\<rparr>]
              new_database)"
  let ?env = "\<lparr>env_emb = \<lparr>http_do = (\<lambda>i a ts. TransportError), cancelled = (\<lambda>_. False)\<rparr>,
               env_fails = (\<lambda>_. False), env_read_file = (\<lambda>_. Inl ''''),
               env_fetch = (\<lambda>_. Inl ErrInvalidURL), env_now = 0, env_cos = (\<lambda>_ _. 0)\<rparr> :: svc_env"
  have v: "''b'' \<notin> dom (view ?st)"
    by (simp add: view_def index_document_def run_tx_def index_body_def insert_document_def insert_chunk_def
                  new_database_def delete_source_def Let_def domIff)
  have "handle_call 0 (new_chunker 50 10) ?env (CallDelete \<lparr>da_source = ''b''\<rparr>) ?st =
        Some (Inr (OutDelete \<lparr>dr_source = da_source \<lparr>da_source = ''b''\<rparr>, dr_deleted = False,
                              dr_error = Some (ErrNotFound (da_source \<lparr>da_source = ''b''\<rparr>))\<rparr>), ?st)"
    by (rule delete_tool_unknown_source) (use v in simp_all)
  then show ?thesis using v unfolding Let_def by simp
qed

theorem tool_error_keeps_db_witness:
  "let st = snd (index_document (\<lambda>_. False) 0 ''a'' ''content'' ''''
              [\<lparr>sc_index = 0, sc_content = [104, 105], sc_start = 0, sc_end = 2, sc_embedding = []\<rparr>]
              new_database);
       env = \<lparr>env_emb = \<lparr>http_do = (\<lambda>i a ts. Response \<lparr>resp_status = 200,
                 resp_payload = Parsed (tagged (map (\<lambda>t. replicate 1536 (0 :: f32)) ts)) None\<rparr>),
                 cancelled = (\<lambda>_. False)\<rparr>,
               env_fails = (\<lambda>s. s = SCommit), env_read_file = (\<lambda>_. Inl ''''),
               env_fetch = (\<lambda>_. Inl ErrInvalidURL), env_now = 5, env_cos = (\<lambda>_ _. 0)\<rparr>;
       a = \<lparr>ia_file_path = [], ia_url = [], ia_content = [120], ia_source = ''a'', ia_reindex = True\<rparr>
   in \<exists>st'. handle_call 3 (new_chunker 1000 100) env (CallIndex a) st =
         Some (Inl (ErrIndexingFailed (ErrStoreDocument ErrCommit)), st') \<and> st' = st"
proof -
  let ?st = "snd (index_document (\<lambda>_. False) 0 ''a'' ''content'' ''''
              [\<lparr>sc_index = 0, sc_content = [104, 105], sc_start = 0, sc_end = 2, sc_embedding = []\<rparr>]
              new_database)"
  let ?env = "\<lparr>env_emb = \<lparr>http_do = (\<lambda>i a ts. Response \<lparr>resp_status = 200,
                 resp_payload = Parsed (tagged (map (\<lambda>t. replicate 1536 (0 :: f32)) ts)) None\<rparr>),
                 cancelled = (\<lambda>_. False)\<rparr>,
               env_fails = (\<lambda>s. s = SCommit), env_read_file = (\<lambda>_. Inl ''''),
               env_fetch = (\<lambda>_. Inl ErrInvalidURL), env_now = 5, env_cos = (\<lambda>_ _. 0)\<rparr>"
  let ?a = "\<lparr>ia_file_path = [], ia_url = [], ia_content = [120], ia_source = ''a'', ia_reindex = True\<rparr>"
  have "\<exists>st'. handle_call 3 (new_chunker 1000 100) ?env (CallIndex ?a) ?st =
          Some (Inl (ErrIndexingFailed (ErrStoreDocument ErrCommit)), st')"
    by (simp add: handle_call_def handle_index_def svc_index_def index_check_def source_count_def
                  resolve_source_def document_exists_def new_database_def index_store_def chunk_text_def
                  new_chunker_def embed_texts_def embed_loop_step embed_loop_stop embed_batch_def
                  do_attempts.simps handle_response_def tagged_def embedDimension_def maxBatchSize_def
                  go_slice_def index_document_def run_tx_def index_body_def insert_document_def
                  delete_source_def Let_def split: unit.split)
  then obtain st' where h: "handle_call 3 (new_chunker 1000 100) ?env (CallIndex ?a) ?st =
          Some (Inl (ErrIndexingFailed (ErrStoreDocument ErrCommit)), st')"
    by blast
  show ?thesis using tool_error_keeps_db [OF h] h unfolding Let_def by blast
qed

theorem list_tool_refines_view_witness:
  "let st = snd (index_document (\<lambda>_. False) 0 ''a'' ''content'' ''''
              [\<lparr>sc_index = 0, sc_content = [104, 105], sc_start = 0, sc_end = 2, sc_embedding = []\<rparr>]
              new_database);
       env = \<lparr>env_emb = \<lparr>http_do = (\<lambda>i a ts. TransportError), cancelled = (\<lambda>_. False)\<rparr>,
               env_fails = (\<lambda>_. False), env_read_file = (\<lambda>_. Inl ''''),
               env_fetch = (\<lambda>_. Inl ErrInvalidURL), env_now = 0, env_cos = (\<lambda>_ _. 0)\<rparr> :: svc_env
   in \<exists>r st'. handle_call 0 (new_chunker 50 10) env (CallList \<lparr>la_source_type = []\<rparr>) st = Some (Inr (OutList r), st') \<and>
        db_inv st \<and> st' = st \<and> lr_count r = length (lr_documents r) \<and> distinct (map di_source (lr_documents r)) \<and>
        set (map di_source (lr_documents r)) = {src. \<exists>v. view st src = Some v} \<and>
        list_all (\<lambda>x. \<exists>cs. view st (di_source x) =
           Some (di_source_type x, di_indexed_at x, di_content_size x, di_chunk_count x, di_title x, cs))
           (lr_documents r) \<and>
        sorted_wrt (\<lambda>x y. di_indexed_at y \<le> di_indexed_at x) (lr_documents r)"
proof -
  let ?st = "snd (index_document (\<lambda>_. False) 0 ''a'' ''content'' ''''
              [\<lparr>sc_index = 0, sc_content = [104, 105], sc_start = 0, sc_end = 2, sc_embedding = []\<rparr>]
              new_database)"
  let ?env = "\<lparr>env_emb = \<lparr>http_do = (\<lambda>i a ts. TransportError), cancelled = (\<lambda>_. False)\<rparr>,
               env_fails = (\<lambda>_. False), env_read_file = (\<lambda>_. Inl ''''),
               env_fetch = (\<lambda>_. Inl ErrInvalidURL), env_now = 0, env_cos = (\<lambda>_ _. 0)\<rparr> :: svc_env"
  have i: "db_inv ?st" by (intro index_document_inv) (simp add: db_inv_def new_database_def)
  have "\<exists>r st'. handle_call 0 (new_chunker 50 10) ?env (CallList \<lparr>la_source_type = []\<rparr>) ?st = Some (Inr (OutList r), st')"
    by (simp add: handle_call_def handle_list_def svc_list_def list_documents_def)
  then obtain r st' where h: "handle_call 0 (new_chunker 50 10) ?env (CallList \<lparr>la_source_type = []\<rparr>) ?st =
                               Some (Inr (OutList r), st')" by blast
  show ?thesis using list_tool_refines_view [OF h i] h i unfolding Let_def by auto
qed

end
