(* ===== verification/Config.thy ===== *)
theory Config
  imports Chunker
begin

text \<open>
  Configuration (\<open>src/internal/config/config.go\<close>). \<open>LoadConfig\<close> reads four
  environment variables through \<open>getEnvOrDefault\<close> and \<open>getEnvAsIntOrDefault\<close>
  and validates the API key and the chunker parameters. The process environment
  is a function \<open>getenv\<close> from names to values, with the empty string for an
  unset variable, as \<open>os.Getenv\<close> returns it. \<open>strconv.Atoi\<close> is modelled from
  the Go library on a 64-bit platform: an optional sign, one or more decimal
  digits, and a value in the range of \<open>int64\<close>; any other string is an error,
  which \<open>getEnvAsIntOrDefault\<close> turns into the default.
\<close>

subsection \<open>\<open>strconv.Atoi\<close>\<close>

definition is_digit :: "char \<Rightarrow> bool" where
  "is_digit c = (48 \<le> (of_char c :: nat) \<and> (of_char c :: nat) \<le> 57)"

definition digits_value :: "string \<Rightarrow> nat" where
  "digits_value ds = foldl (\<lambda>acc d. 10 * acc + (of_char d - 48)) 0 ds"

text \<open>\<open>Atoi\<close> returns \<open>None\<close> where Go returns a \<open>*NumError\<close> (\<open>ErrSyntax\<close> or
  \<open>ErrRange\<close>); the value Go returns beside the error is never read by the
  callers.\<close>

definition atoi :: "string \<Rightarrow> int option" where
  "atoi s =
     (let (neg, ds) = (case s of
                         c # r \<Rightarrow> (if c = CHR ''-'' then (True, r)
                                  else if c = CHR ''+'' then (False, r) else (False, s))
                       | [] \<Rightarrow> (False, []))
      in if ds = [] \<or> \<not> list_all is_digit ds then None
         else (let v = int (digits_value ds); n = (if neg then - v else v)
               in if n < - (2 ^ 63) \<or> 2 ^ 63 - 1 < n then None else Some n))"

subsection \<open>\<open>Config\<close> and \<open>LoadConfig\<close>\<close>

record config =
  cfg_api_key :: string
  cfg_db_path :: string
  cfg_chunk_size :: int
  cfg_overlap :: int

datatype config_error =
    ErrAPIKeyRequired | ErrChunkSizeNotPositive int | ErrOverlapNegative int
  | ErrOverlapTooLarge int int

definition get_env_or_default :: "(string \<Rightarrow> string) \<Rightarrow> string \<Rightarrow> string \<Rightarrow> string" where
  "get_env_or_default getenv key defaultValue =
     (let value = getenv key in if value \<noteq> [] then value else defaultValue)"

definition get_env_as_int_or_default :: "(string \<Rightarrow> string) \<Rightarrow> string \<Rightarrow> int \<Rightarrow> int" where
  "get_env_as_int_or_default getenv key defaultValue =
     (let valueStr = getenv key
      in if valueStr \<noteq> [] then (case atoi valueStr of Some value \<Rightarrow> value | None \<Rightarrow> defaultValue)
         else defaultValue)"

definition load_config :: "(string \<Rightarrow> string) \<Rightarrow> config_error + config" where
  "load_config getenv =
     (let cfg = \<lparr>cfg_api_key = getenv ''OPENAI_API_KEY'',
                 cfg_db_path = get_env_or_default getenv ''DB_PATH'' ''db_data/doc_search.db'',
                 cfg_chunk_size = get_env_as_int_or_default getenv ''CHUNK_SIZE'' 1000,
                 cfg_overlap = get_env_as_int_or_default getenv ''OVERLAP'' 100\<rparr>
      in if cfg_api_key cfg = [] then Inl ErrAPIKeyRequired
         else if cfg_chunk_size cfg \<le> 0 then Inl (ErrChunkSizeNotPositive (cfg_chunk_size cfg))
         else if cfg_overlap cfg < 0 then Inl (ErrOverlapNegative (cfg_overlap cfg))
         else if cfg_overlap cfg \<ge> cfg_chunk_size cfg
           then Inl (ErrOverlapTooLarge (cfg_overlap cfg) (cfg_chunk_size cfg))
         else Inr cfg)"

subsection \<open>Lemmas\<close>

lemma get_env_as_int_atoi:
  "get_env_as_int_or_default getenv key d = (case atoi (getenv key) of Some v \<Rightarrow> v | None \<Rightarrow> d)"
  by (simp add: get_env_as_int_or_default_def Let_def atoi_def)

lemma load_config_Inr:
  assumes "load_config getenv = Inr cfg"
  shows "cfg_api_key cfg \<noteq> [] \<and> 0 < cfg_chunk_size cfg \<and> 0 \<le> cfg_overlap cfg \<and>
         cfg_overlap cfg < cfg_chunk_size cfg"
  using assms by (auto simp: load_config_def Let_def split: if_splits)

lemma new_chunker_accepted:
  "0 < cs \<Longrightarrow> 0 \<le> ov \<Longrightarrow> ov < cs \<Longrightarrow> new_chunker cs ov = \<lparr>chunkSize = cs, overlap = ov\<rparr>"
  by (simp add: new_chunker_def)

lemma load_config_new_chunker:
  "load_config getenv = Inr cfg \<Longrightarrow>
   new_chunker (cfg_chunk_size cfg) (cfg_overlap cfg) = \<lparr>chunkSize = cfg_chunk_size cfg, overlap = cfg_overlap cfg\<rparr>"
  using load_config_Inr new_chunker_accepted by blast

subsection \<open>Properties\<close>

text \<open>C10. A configuration \<open>LoadConfig\<close> accepts reaches \<open>NewChunker\<close> unchanged:
  its size is positive and its overlap non-negative and below the size, so none
  of the defaulting branches of \<open>NewChunker\<close> fires and the chunker is
  well-formed.\<close>

theorem load_config_chunker:
  assumes "load_config getenv = Inr cfg"
  shows "new_chunker (cfg_chunk_size cfg) (cfg_overlap cfg) =
           \<lparr>chunkSize = cfg_chunk_size cfg, overlap = cfg_overlap cfg\<rparr> \<and>
         chunker_wf (new_chunker (cfg_chunk_size cfg) (cfg_overlap cfg))"
  using load_config_Inr [OF assms] load_config_new_chunker [OF assms] by (simp add: chunker_wf_def)

theorem load_config_chunker_witness:
  "let getenv = (\<lambda>k. if k = ''OPENAI_API_KEY'' then ''sk'' else if k = ''CHUNK_SIZE'' then ''500'' else []);
       cfg = \<lparr>cfg_api_key = ''sk'', cfg_db_path = ''db_data/doc_search.db'', cfg_chunk_size = 500,
              cfg_overlap = 100\<rparr>
   in load_config getenv = Inr cfg \<and>
      new_chunker 500 100 = \<lparr>chunkSize = 500, overlap = 100\<rparr> \<and> chunker_wf (new_chunker 500 100)"
proof -
  let ?g = "\<lambda>k. if k = ''OPENAI_API_KEY'' then ''sk'' else if k = ''CHUNK_SIZE'' then ''500'' else []"
  let ?cfg = "\<lparr>cfg_api_key = ''sk'', cfg_db_path = ''db_data/doc_search.db'', cfg_chunk_size = 500,
              cfg_overlap = 100\<rparr>"
  have l: "load_config ?g = Inr ?cfg"
    by (simp add: load_config_def get_env_or_default_def get_env_as_int_or_default_def atoi_def
                  digits_value_def is_digit_def Let_def)
  have c: "new_chunker 500 100 = \<lparr>chunkSize = 500, overlap = 100\<rparr> \<and> chunker_wf (new_chunker 500 100)"
    using load_config_chunker [OF l, unfolded config.select_convs] .
  show ?thesis using l c unfolding Let_def by blast
qed

text \<open>C12. A malformed number is never reported: when \<open>CHUNK_SIZE\<close> and
  \<open>OVERLAP\<close> are set to strings \<open>Atoi\<close> rejects (a unit suffix, a blank, a
  thousands separator, a value beyond \<open>int64\<close>), \<open>LoadConfig\<close> succeeds with the
  defaults 1000 and 100 as if they were unset.\<close>

theorem load_config_malformed_defaults:
  assumes "getenv ''OPENAI_API_KEY'' \<noteq> []" "atoi (getenv ''CHUNK_SIZE'') = None"
    "atoi (getenv ''OVERLAP'') = None"
  shows "load_config getenv =
           Inr \<lparr>cfg_api_key = getenv ''OPENAI_API_KEY'',
                cfg_db_path = get_env_or_default getenv ''DB_PATH'' ''db_data/doc_search.db'',
                cfg_chunk_size = 1000, cfg_overlap = 100\<rparr>"
  using assms by (simp add: load_config_def get_env_as_int_atoi Let_def)

theorem load_config_malformed_defaults_witness:
  "let getenv = (\<lambda>k. if k = ''OPENAI_API_KEY'' then ''sk'' else if k = ''CHUNK_SIZE'' then ''2k''
                      else if k = ''OVERLAP'' then '' 50'' else [])
   in getenv ''OPENAI_API_KEY'' \<noteq> [] \<and> atoi (getenv ''CHUNK_SIZE'') = None \<and>
      atoi (getenv ''OVERLAP'') = None \<and>
      load_config getenv =
        Inr \<lparr>cfg_api_key = ''sk'', cfg_db_path = ''db_data/doc_search.db'', cfg_chunk_size = 1000,
             cfg_overlap = 100\<rparr>"
proof -
  let ?g = "\<lambda>k. if k = ''OPENAI_API_KEY'' then ''sk'' else if k = ''CHUNK_SIZE'' then ''2k''
                 else if k = ''OVERLAP'' then '' 50'' else []"
  have a: "?g ''OPENAI_API_KEY'' \<noteq> []" "atoi (?g ''CHUNK_SIZE'') = None" "atoi (?g ''OVERLAP'') = None"
    by (simp_all add: atoi_def is_digit_def)
  show ?thesis using a load_config_malformed_defaults [OF a] unfolding Let_def
    by (simp add: get_env_or_default_def)
qed

end
