(* ===== verification/Bootstrap.thy ===== *)
theory Bootstrap
  imports Tools Config
begin

text \<open>
  Process bootstrap (\<open>src/cmd/doc-search/main.go\<close>): \<open>main\<close> loads the
  configuration, creates the database directory, opens the database, builds
  the embeddings client, the chunker, the fetcher and the service, and serves
  tool calls until the transport ends or a signal cancels the context. Every
  failure before serving is \<open>log.Fatalf\<close>, an exit: a value of \<open>boot_error\<close>.
  The process environment \<open>boot_env\<close> holds the environment variables, the
  file system (\<open>os.MkdirAll\<close> and the database file already on disk), the
  statements that fail, and the collaborators of the service. A session is the
  list of tool calls the server receives before it stops.
\<close>

record boot_env =
  os_getenv :: "string \<Rightarrow> string"
  mkdir_fails :: "string \<Rightarrow> bool"
  db_file :: "string \<Rightarrow> db option"
  boot_fails :: "stmt \<Rightarrow> bool"
  boot_emb :: "string \<Rightarrow> runes embed_env"
  boot_read_file :: "string \<Rightarrow> string + runes"
  boot_fetch :: fetch_env
  boot_now :: int
  boot_cos :: "byte list \<Rightarrow> byte list \<Rightarrow> real"

datatype boot_error = ErrLoadConfig config_error | ErrCreateDir | ErrInitDatabase store_error

text \<open>The service's environment given the embeddings client: the provider
  answers as it does for the client's key, and \<open>FetchURL\<close> is the fetcher.\<close>

definition service_env :: "boot_env \<Rightarrow> client \<Rightarrow> svc_env" where
  "service_env b cl =
     \<lparr>env_emb = boot_emb b (client_api_key cl), env_fails = boot_fails b, env_read_file = boot_read_file b,
      env_fetch = fetch_url (boot_fetch b), env_now = boot_now b, env_cos = boot_cos b\<rparr>"

text \<open>\<open>mkdir_fails\<close> is indexed by the database path: whether
  \<open>os.MkdirAll(filepath.Dir(path))\<close> fails.\<close>

definition bootstrap :: "boot_env \<Rightarrow> boot_error + config \<times> chunker \<times> db" where
  "bootstrap b =
     (case load_config (os_getenv b) of
        Inl e \<Rightarrow> Inl (ErrLoadConfig e)
      | Inr cfg \<Rightarrow>
          (if mkdir_fails b (cfg_db_path cfg) then Inl ErrCreateDir
           else (case open_database (boot_fails b) (db_file b (cfg_db_path cfg)) of
                   Inl e \<Rightarrow> Inl (ErrInitDatabase e)
                 | Inr st \<Rightarrow> Inr (cfg, new_chunker (cfg_chunk_size cfg) (cfg_overlap cfg), st))))"

text \<open>\<open>main\<close> with the session it serves: \<open>None\<close> inside when a call never
  returns, so the server hangs on it.\<close>

definition run_main ::
  "nat \<Rightarrow> boot_env \<Rightarrow> tool_call list \<Rightarrow> boot_error + ((tool_error + tool_output) list \<times> db) option" where
  "run_main fuel b calls =
     (case bootstrap b of
        Inl e \<Rightarrow> Inl e
      | Inr (cfg, c, st) \<Rightarrow> Inr (run_calls fuel c (service_env b (new_client (cfg_api_key cfg))) calls st))"

subsection \<open>Lemmas\<close>

lemma bootstrap_Inr:
  assumes "bootstrap b = Inr (cfg, c, st)"
  shows "load_config (os_getenv b) = Inr cfg \<and>
         c = \<lparr>chunkSize = cfg_chunk_size cfg, overlap = cfg_overlap cfg\<rparr> \<and> chunker_wf c"
proof -
  have l: "load_config (os_getenv b) = Inr cfg" and
    c: "c = new_chunker (cfg_chunk_size cfg) (cfg_overlap cfg)"
    using assms by (auto simp: bootstrap_def split: sum.splits if_splits)
  moreover have "chunker_wf c" unfolding c by (rule new_chunker_wf)
  ultimately show ?thesis using load_config_new_chunker [OF l] by simp
qed

text \<open>An index call of the text on which \<open>ChunkText\<close> never returns, with
  \<open>reindex\<close> set so that no database read comes first.\<close>

lemma stuck_index_call:
  assumes "chunker_wf c" "\<not> chunker_progress c"
  shows "handle_call fuel c env
           (CallIndex \<lparr>ia_file_path = [], ia_url = [], ia_content = stuck_text c, ia_source = ''s'',
                       ia_reindex = True\<rparr>) st = None"
proof -
  have ne: "stuck_text c \<noteq> []" by (simp add: stuck_text_def)
  have "chunk_text fuel c (stuck_text c) = None" by (rule chunk_text_stuck [OF assms])
  then show ?thesis using ne
    by (simp add: handle_call_def handle_index_def svc_index_def index_check_def source_count_def
                  resolve_source_def index_store_def Let_def)
qed

lemma run_main_Inr:
  "bootstrap b = Inr (cfg, c, st) \<Longrightarrow>
   run_main fuel b calls = Inr (run_calls fuel c (service_env b (new_client (cfg_api_key cfg))) calls st)"
  by (simp add: run_main_def)

end
