(* ===== verification/Server.thy ===== *)
theory Server
  imports Bootstrap
begin

text \<open>
  The running server as a state machine. \<open>NewService\<close> (\<open>src/internal/search/search.go\<close>)
  keeps the database, the embeddings client, the chunker and the fetcher;
  \<open>NewServer\<close> (\<open>src/pkg/server/types.go\<close>) wraps the service and registers the
  four tools, whose dispatch is \<open>handle_call\<close>. The fetcher has no state of its
  own (\<open>NewFetcher\<close> only sets a timeout), so it is the environment's
  \<open>fetch_url\<close>. A step serves one tool call that returns, with the environment
  of the process \<open>boot_env\<close>; the reachable servers are those \<open>main\<close> starts
  and those their steps lead to.
\<close>

record service =
  svc_db :: db
  svc_client :: client
  svc_chunker :: chunker

definition new_service :: "db \<Rightarrow> client \<Rightarrow> chunker \<Rightarrow> service" where
  "new_service d embClient c = \<lparr>svc_db = d, svc_client = embClient, svc_chunker = c\<rparr>"

record server =
  srv_service :: service

definition new_server :: "service \<Rightarrow> server" where
  "new_server searchService = \<lparr>srv_service = searchService\<rparr>"

text \<open>One tool call that returns (for some fuel of the chunker; by
  \<open>handle_call_fuel_mono\<close> the result does not depend on it).\<close>

inductive server_step :: "boot_env \<Rightarrow> server \<Rightarrow> tool_call \<Rightarrow> tool_error + tool_output \<Rightarrow> server \<Rightarrow> bool" where
  call: "handle_call fuel (svc_chunker (srv_service s)) (service_env b (svc_client (srv_service s))) c
           (svc_db (srv_service s)) = Some (r, st') \<Longrightarrow>
         server_step b s c r (s\<lparr>srv_service := (srv_service s)\<lparr>svc_db := st'\<rparr>\<rparr>)"

inductive server_reach :: "boot_env \<Rightarrow> server \<Rightarrow> bool" for b :: boot_env where
  start: "bootstrap b = Inr (cfg, c, st) \<Longrightarrow>
          server_reach b (new_server (new_service st (new_client (cfg_api_key cfg)) c))"
| step: "server_reach b s \<Longrightarrow> server_step b s c r s' \<Longrightarrow> server_reach b s'"

inductive_cases server_stepE: "server_step b s c r s'"

subsection \<open>Lemmas\<close>

lemma db_inv_foreign_keys_off: "db_inv st \<Longrightarrow> db_inv (st\<lparr>foreign_keys := False\<rparr>)"
  by (simp add: db_inv_def)

lemma new_database_inv: "db_inv new_database"
  by (simp add: db_inv_def new_database_def)

lemma open_database_inv:
  "open_database fails existing = Inr st \<Longrightarrow> (\<And>st0. existing = Some st0 \<Longrightarrow> db_inv st0) \<Longrightarrow> db_inv st"
  by (auto simp: open_database_def new_database_inv db_inv_foreign_keys_off split: if_splits option.splits)

lemma bootstrap_db_inv:
  assumes "bootstrap b = Inr (cfg, c, st)" "\<forall>p st0. db_file b p = Some st0 \<longrightarrow> db_inv st0"
  shows "db_inv st"
proof -
  have "open_database (boot_fails b) (db_file b (cfg_db_path cfg)) = Inr st"
    using assms(1) by (auto simp: bootstrap_def split: sum.splits if_splits)
  then show ?thesis by (rule open_database_inv) (use assms(2) in blast)
qed

lemma handle_call_inv:
  "handle_call fuel c env call st = Some (r, st') \<Longrightarrow> db_inv st \<Longrightarrow> db_inv st'"
  by (drule handle_call_writes) (auto intro: index_document_inv delete_document_inv)

lemma server_step_db:
  "server_step b s c r s' \<Longrightarrow>
   \<exists>fuel. handle_call fuel (svc_chunker (srv_service s)) (service_env b (svc_client (srv_service s))) c
            (svc_db (srv_service s)) = Some (r, svc_db (srv_service s'))"
  by (erule server_stepE) auto

lemma run_calls_reach:
  assumes "server_reach b s"
    "run_calls fuel (svc_chunker (srv_service s)) (service_env b (svc_client (srv_service s))) calls
       (svc_db (srv_service s)) = Some (rs, st')"
  shows "server_reach b (s\<lparr>srv_service := (srv_service s)\<lparr>svc_db := st'\<rparr>\<rparr>)"
  using assms
proof (induction calls arbitrary: s rs)
  case Nil
  then have e: "s\<lparr>srv_service := (srv_service s)\<lparr>svc_db := st'\<rparr>\<rparr> = s" by simp
  show ?case unfolding e by (rule Nil.prems(1))
next
  case (Cons call calls)
  obtain r st1 where h: "handle_call fuel (svc_chunker (srv_service s)) (service_env b (svc_client (srv_service s)))
                           call (svc_db (srv_service s)) = Some (r, st1)"
    using Cons.prems(2) by (auto split: option.splits)
  obtain rs' where rest: "run_calls fuel (svc_chunker (srv_service s)) (service_env b (svc_client (srv_service s)))
                            calls st1 = Some (rs', st')"
    using Cons.prems(2) h by (auto split: option.splits)
  let ?s1 = "s\<lparr>srv_service := (srv_service s)\<lparr>svc_db := st1\<rparr>\<rparr>"
  have "server_reach b ?s1" using Cons.prems(1) server_step.call [OF h] by (rule server_reach.step)
  from Cons.IH [OF this] rest show ?case by simp
qed

lemma run_main_reach:
  assumes "run_main fuel b calls = Inr (Some (rs, st'))"
  shows "\<exists>s. server_reach b s \<and> svc_db (srv_service s) = st'"
proof -
  obtain cfg c st where boot: "bootstrap b = Inr (cfg, c, st)"
    using assms by (auto simp: run_main_def split: sum.splits)
  let ?s = "new_server (new_service st (new_client (cfg_api_key cfg)) c)"
  have r: "server_reach b ?s" using boot by (rule server_reach.start)
  have "run_calls fuel (svc_chunker (srv_service ?s)) (service_env b (svc_client (srv_service ?s))) calls
          (svc_db (srv_service ?s)) = Some (rs, st')"
    using assms boot by (simp add: run_main_Inr new_server_def new_service_def)
  from run_calls_reach [OF r this] show ?thesis by auto
qed

subsection \<open>Properties\<close>

text \<open>C17. Every state of a running server keeps the schema invariant: from the
  database \<open>main\<close> opens (a fresh file, or files whose tables satisfy it), any
  sequence of tool calls that return, under any failures of the statements, the
  provider or the fetcher, leaves a database satisfying \<open>db_inv\<close> (distinct
  sources and ids, counters above every id). Tool calls write the database only
  through \<open>IndexDocument\<close> and \<open>DeleteDocument\<close>.\<close>

theorem server_reach_db_inv:
  assumes "server_reach b s" "\<forall>p st0. db_file b p = Some st0 \<longrightarrow> db_inv st0"
  shows "db_inv (svc_db (srv_service s))"
  using assms(1)
proof induction
  case (start cfg c st)
  then show ?case using bootstrap_db_inv [OF start assms(2)] by (simp add: new_server_def new_service_def)
next
  case (step s c r s')
  then show ?case using server_step_db handle_call_inv by blast
qed

theorem server_reach_db_inv_witness:
  "let st0 = snd (index_document (\<lambda>_. False) 0 ''a'' ''content'' ''''
               [\<lparr>sc_index = 0, sc_content = [104, 105], sc_start = 0, sc_end = 2, sc_embedding = []\<rparr>]
               new_database);
       b = \<lparr>os_getenv = (\<lambda>k. if k = ''OPENAI_API_KEY'' then ''sk'' else []),
            mkdir_fails = (\<lambda>_. False), db_file = (\<lambda>_. Some st0), boot_fails = (\<lambda>_. False),
            boot_emb = (\<lambda>_. \<lparr>http_do = (\<lambda>i a ts. TransportError), cancelled = (\<lambda>_. False)\<rparr>),
            boot_read_file = (\<lambda>_. Inl []), boot_fetch = \<lparr>url_scheme = (\<lambda>_. None), request_ok = (\<lambda>_. True),
              http_get = (\<lambda>_. GetFailed), parse_html = (\<lambda>_. None)\<rparr>,
            boot_now = 0, boot_cos = (\<lambda>_ _. 0)\<rparr>;
       s = new_server (new_service (st0\<lparr>foreign_keys := False\<rparr>) (new_client ''sk'')
             \<lparr>chunkSize = 1000, overlap = 100\<rparr>)
   in server_reach b s \<and> db_inv st0 \<and> db_inv (svc_db (srv_service s))"
proof -
  let ?st0 = "snd (index_document (\<lambda>_. False) 0 ''a'' ''content'' ''''
               [\<lparr>sc_index = 0, sc_content = [104, 105], sc_start = 0, sc_end = 2, sc_embedding = []\<rparr>]
               new_database)"
  let ?b = "\<lparr>os_getenv = (\<lambda>k. if k = ''OPENAI_API_KEY'' then ''sk'' else []),
            mkdir_fails = (\<lambda>_. False), db_file = (\<lambda>_. Some ?st0), boot_fails = (\<lambda>_. False),
            boot_emb = (\<lambda>_. \<lparr>http_do = (\<lambda>i a ts. TransportError), cancelled = (\<lambda>_. False)\<rparr>),
            boot_read_file = (\<lambda>_. Inl []), boot_fetch = \<lparr>url_scheme = (\<lambda>_. None), request_ok = (\<lambda>_. True),
              http_get = (\<lambda>_. GetFailed), parse_html = (\<lambda>_. None)\<rparr>,
            boot_now = 0, boot_cos = (\<lambda>_ _. 0)\<rparr> :: boot_env"
  let ?cfg = "\<lparr>cfg_api_key = ''sk'', cfg_db_path = ''db_data/doc_search.db'', cfg_chunk_size = 1000, cfg_overlap = 100\<rparr>"
  have i0: "db_inv ?st0" by (rule index_document_inv [OF new_database_inv])
  have boot: "bootstrap ?b = Inr (?cfg, \<lparr>chunkSize = 1000, overlap = 100\<rparr>, ?st0\<lparr>foreign_keys := False\<rparr>)"
    by (simp add: bootstrap_def load_config_def get_env_or_default_def get_env_as_int_or_default_def
                  open_database_def new_chunker_def Let_def)
  have r: "server_reach ?b (new_server (new_service (?st0\<lparr>foreign_keys := False\<rparr>) (new_client ''sk'')
             \<lparr>chunkSize = 1000, overlap = 100\<rparr>))"
    using server_reach.start [OF boot] by simp
  have f: "\<forall>p st0. db_file ?b p = Some st0 \<longrightarrow> db_inv st0" using i0 by simp
  show ?thesis using r i0 server_reach_db_inv [OF r f] unfolding Let_def by blast
qed

end
