(* ===== verification/Tests.thy ===== *)
theory Tests
  imports Fetcher Embeddings
begin

text \<open>
  The unit tests of the repository, as definitions: the chunker's tests (the
  second file of \<open>src/internal/chunker/chunker.go\<close>) and the fetcher's tests
  (the last file of \<open>src/internal/search/search.go\<close>), and the embedding
  client's test of an empty input (\<open>src/unnamed/part_000\<close>). Each test is a boolean,
  true exactly when the test reports no error; a test that calls \<open>ChunkText\<close>
  takes the fuel of the call, and fails when the fuel runs out (\<open>go test\<close>
  would time out). \<open>strings.Repeat\<close> is \<open>repeat_runes\<close>. The lemmas run the
  tests on the model: every test passes, so the model agrees with the
  behaviour the repository's own tests expect.
\<close>

definition repeat_runes :: "nat \<Rightarrow> string \<Rightarrow> runes" where
  "repeat_runes n s = concat (replicate n (runes_of s))"

subsection \<open>Chunker tests\<close>

definition test_chunker_empty_text :: "nat \<Rightarrow> bool" where
  "test_chunker_empty_text fuel =
     (case chunk_text fuel (new_chunker 1000 100) [] of
        None \<Rightarrow> False
      | Some chunks \<Rightarrow> length chunks = 0)"

definition test_chunker_small_text :: "nat \<Rightarrow> bool" where
  "test_chunker_small_text fuel =
     (let text = runes_of ''Hello world''
      in case chunk_text fuel (new_chunker 1000 100) text of
           None \<Rightarrow> False
         | Some chunks \<Rightarrow>
             length chunks = 1 \<and> Content (hd chunks) = text \<and> StartOffset (hd chunks) = 0 \<and>
             EndOffset (hd chunks) = int (length text))"

definition test_chunker_word_boundaries :: "nat \<Rightarrow> bool" where
  "test_chunker_word_boundaries fuel =
     (case chunk_text fuel (new_chunker 50 10) (repeat_runes 30 ''word '') of
        None \<Rightarrow> False
      | Some chunks \<Rightarrow>
          2 \<le> length chunks \<and>
          list_all (\<lambda>chunk. \<not> contains (Content chunk) (runes_of ''wor d'') \<and>
                            \<not> contains (Content chunk) (runes_of ''wo rd'')) chunks)"

definition test_chunker_overlap :: "nat \<Rightarrow> bool" where
  "test_chunker_overlap fuel =
     (case chunk_text fuel (new_chunker 20 5) (runes_of ''0123456789 0123456789 0123456789 0123456789'') of
        None \<Rightarrow> False
      | Some chunks \<Rightarrow>
          2 \<le> length chunks \<and>
          list_all (\<lambda>i. 0 < EndOffset (chunks ! i) - StartOffset (chunks ! (i + 1))) [0..<length chunks - 1])"

text \<open>The text of \<open>TestChunkerUnicode\<close>, four times \<open>Hello\<close> followed by
  the two CJK runes U+4E16 and U+754C (19990 and 30028), separated by spaces.\<close>

definition unicode_test_text :: runes where
  "unicode_test_text =
     concat (replicate 3 (runes_of ''Hello '' @ [19990, 30028] @ runes_of '' '')) @
     runes_of ''Hello '' @ [19990, 30028]"

definition test_chunker_unicode :: "nat \<Rightarrow> bool" where
  "test_chunker_unicode fuel =
     (case chunk_text fuel (new_chunker 20 5) unicode_test_text of
        None \<Rightarrow> False
      | Some chunks \<Rightarrow> length chunks \<noteq> 0 \<and> list_all (\<lambda>chunk. Content chunk \<noteq> []) chunks)"

definition test_chunker_no_whitespace :: "nat \<Rightarrow> bool" where
  "test_chunker_no_whitespace fuel =
     (let c = new_chunker 50 10
      in case chunk_text fuel c (repeat_runes 200 ''a'') of
           None \<Rightarrow> False
         | Some chunks \<Rightarrow>
             2 \<le> length chunks \<and> list_all (\<lambda>chunk. int (length (Content chunk)) \<le> chunkSize c + 10) chunks)"

definition test_chunker_indexing :: "nat \<Rightarrow> bool" where
  "test_chunker_indexing fuel =
     (case chunk_text fuel (new_chunker 30 5) (repeat_runes 40 ''test '') of
        None \<Rightarrow> False
      | Some chunks \<Rightarrow> list_all (\<lambda>i. Index (chunks ! i) = int i) [0..<length chunks])"

definition test_new_chunker_defaults :: bool where
  "test_new_chunker_defaults =
     (let c = new_chunker 0 (-1); c2 = new_chunker 100 150
      in chunkSize c = 1000 \<and> overlap c = 0 \<and> \<not> overlap c2 \<ge> chunkSize c2)"

subsection \<open>Embedding client test\<close>

text \<open>\<open>TestEmbedEmptyTexts\<close>: \<open>Embed\<close> of no text, with any provider and
  context.\<close>

definition test_embed_empty_texts :: "'t embed_env \<Rightarrow> bool" where
  "test_embed_empty_texts env =
     (case embed_texts env [] of Inl _ \<Rightarrow> False | Inr embeddings \<Rightarrow> length embeddings = 0)"

text \<open>\<open>TestNewClient\<close>: the client keeps the key it was given (and is never
  \<open>nil\<close>).\<close>

definition test_new_client :: bool where
  "test_new_client = (let client = new_client ''test-api-key'' in client_api_key client = ''test-api-key'')"

subsection \<open>Fetcher tests\<close>

text \<open>The table of \<open>TestExtractHTMLText\<close>: name, HTML, expected text and
  expected title.\<close>

definition extract_html_cases :: "(string \<times> string \<times> string \<times> string) list" where
  "extract_html_cases =
     [(''simple HTML'',
       ''<html><head><title>Test Page</title></head><body><p>Hello World</p></body></html>'',
       ''Test Page Hello World'', ''Test Page''),
      (''HTML with script and style'',
       ''<html><head><title>Page</title><script>alert('test');</script><style>body{color:red;}</style></head><body><p>Content</p></body></html>'',
       ''Page Content'', ''Page''),
      (''HTML with multiple paragraphs'',
       ''<html><body><p>First paragraph</p><p>Second paragraph</p></body></html>'',
       ''First paragraph Second paragraph'', ''''),
      (''HTML with extra whitespace'',
       ''<html><body><p>Text   with    extra     spaces</p></body></html>'',
       ''Text with extra spaces'', '''')]"

text \<open>The test runs \<open>extractHTMLText\<close>, with \<open>html.Parse\<close> as the parser.\<close>

definition test_extract_html_text :: "(runes \<Rightarrow> html_node option) \<Rightarrow> bool" where
  "test_extract_html_text parse =
     list_all (\<lambda>(name, html, expectedText, expectedTitle).
                 case extract_html_text parse (runes_of html) of
                   Inl _ \<Rightarrow> False
                 | Inr (text, title) \<Rightarrow> text = runes_of expectedText \<and> title = runes_of expectedTitle)
       extract_html_cases"

definition test_normalize_whitespace :: bool where
  "test_normalize_whitespace =
     list_all (\<lambda>(input, expected). normalize_whitespace input = expected)
       [(runes_of ''hello  world'', runes_of ''hello world''),
        (runes_of ''hello'' @ [10, 10] @ runes_of ''world'', runes_of ''hello world''),
        (runes_of ''  hello   world  '', runes_of ''hello world''),
        (runes_of ''hello'' @ [9] @ runes_of ''world'', runes_of ''hello world'')]"

definition test_is_text_content :: bool where
  "test_is_text_content =
     list_all (\<lambda>(contentType, expected). is_text_content contentType = expected)
       [(''text/html; charset=utf-8'', True), (''text/plain'', True), (''text/markdown'', True),
        (''application/json'', False), (''image/png'', False), (''text/html'', True),
        (''TEXT/HTML'', True)]"

definition test_fetcher_invalid_url :: "fetch_env \<Rightarrow> bool" where
  "test_fetcher_invalid_url env =
     ((case fetch_url env ''not a valid url'' of Inl _ \<Rightarrow> True | Inr _ \<Rightarrow> False) \<and>
      (case fetch_url env ''ftp://example.com'' of Inl _ \<Rightarrow> True | Inr _ \<Rightarrow> False))"

text \<open>The trees \<open>html.Parse\<close> builds for the four documents of the table (the
  HTML5 tree construction inserts the missing \<open>head\<close>).\<close>

definition html_elem :: "string \<Rightarrow> html_node list \<Rightarrow> html_node" where
  "html_elem tag cs = Node ElementNode (runes_of tag) cs"

definition html_text :: "string \<Rightarrow> html_node" where
  "html_text s = Node TextNode (runes_of s) []"

definition parsed_cases :: "html_node list" where
  "parsed_cases =
     [Node DocumentNode [] [html_elem ''html''
        [html_elem ''head'' [html_elem ''title'' [html_text ''Test Page'']],
         html_elem ''body'' [html_elem ''p'' [html_text ''Hello World'']]]],
      Node DocumentNode [] [html_elem ''html''
        [html_elem ''head'' [html_elem ''title'' [html_text ''Page''],
                              html_elem ''script'' [html_text ''alert('test');''],
                              html_elem ''style'' [html_text ''body{color:red;}'']],
         html_elem ''body'' [html_elem ''p'' [html_text ''Content'']]]],
      Node DocumentNode [] [html_elem ''html''
        [html_elem ''head'' [],
         html_elem ''body'' [html_elem ''p'' [html_text ''First paragraph''],
                             html_elem ''p'' [html_text ''Second paragraph'']]]],
      Node DocumentNode [] [html_elem ''html''
        [html_elem ''head'' [],
         html_elem ''body'' [html_elem ''p'' [html_text ''Text   with    extra     spaces'']]]]]"

subsection \<open>The chunker tests pass\<close>

lemma replicate_numeral_Cons: "replicate (numeral k) x = x # replicate (pred_numeral k) x"
  by (simp add: numeral_eq_Suc)

lemma unicode_test_text_eq:
  "unicode_test_text = runes_of ''Hello '' @ [19990, 30028] @ runes_of '' Hello '' @ [19990, 30028] @
     runes_of '' Hello '' @ [19990, 30028] @ runes_of '' Hello '' @ [19990, 30028]"
  by (simp add: unicode_test_text_def replicate_numeral_Cons runes_of_def)

lemma chunker_small_tests_pass:
  "test_chunker_empty_text 1 \<and> test_chunker_small_text 2 \<and> test_new_chunker_defaults"
  by (simp add: test_chunker_empty_text_def test_chunker_small_text_def test_new_chunker_defaults_def
                chunker_simps runes_of_def)

lemma test_chunker_overlap_passes: "test_chunker_overlap 6"
  by (simp add: test_chunker_overlap_def chunker_simps runes_of_def)

lemma test_chunker_unicode_passes: "test_chunker_unicode 4"
  unfolding test_chunker_unicode_def unicode_test_text_eq by (simp add: chunker_simps runes_of_def)

lemma test_chunker_word_boundaries_passes: "test_chunker_word_boundaries 5"
  by (simp add: test_chunker_word_boundaries_def repeat_runes_def replicate_numeral_Cons chunker_simps
                runes_of_def)

lemma test_chunker_no_whitespace_passes: "test_chunker_no_whitespace 6"
  by (simp add: test_chunker_no_whitespace_def repeat_runes_def replicate_numeral_Cons chunker_simps
                runes_of_def)

lemma test_chunker_indexing_passes: "test_chunker_indexing 9"
  by (simp add: test_chunker_indexing_def repeat_runes_def replicate_numeral_Cons chunker_simps
                runes_of_def)

subsection \<open>The fetcher tests pass\<close>

lemma test_normalize_whitespace_passes: "test_normalize_whitespace"
  by (simp add: test_normalize_whitespace_def normalize_whitespace_def go_fields_def is_space_def runes_of_def)

lemma test_is_text_content_passes: "test_is_text_content"
  by (simp add: test_is_text_content_def is_text_content_def ascii_lower_def char_of_eq_iff)

lemma test_fetcher_invalid_url_passes:
  assumes "url_scheme env ''not a valid url'' = Some []" "url_scheme env ''ftp://example.com'' = Some ''ftp''"
  shows "test_fetcher_invalid_url env"
  using assms by (simp add: test_fetcher_invalid_url_def fetch_url_def)

lemma test_extract_html_text_passes:
  assumes "list_all (\<lambda>((name, html, expectedText, expectedTitle), tree). parse (runes_of html) = Some tree)
             (zip extract_html_cases parsed_cases)"
  shows "test_extract_html_text parse"
  using assms
  by (simp add: test_extract_html_text_def extract_html_cases_def parsed_cases_def extract_html_text_def
                html_elem_def html_text_def is_skipped_def take_title_def write_text_def trim_space_def
                normalize_whitespace_def go_fields_def is_space_def runes_of_def)

lemma test_new_client_passes: "test_new_client"
  by (simp add: test_new_client_def new_client_def)

lemma test_embed_empty_texts_passes: "test_embed_empty_texts env"
  by (simp add: test_embed_empty_texts_def embed_texts_def)

end
