(* ===== verification/Spec2Isabelle.thy ===== *)
theory Spec2Isabelle
  imports Server Tests
begin

text \<open>
  \<^bold>\<open>A verification development of mcp-document-search.\<close>

  The program indexes text into overlapping chunks, attaches an embedding
  vector to every chunk and answers queries by ranking chunks by similarity.
  Its parts, leaves first, and the theory that models each:

  \<^item> \<^bold>\<open>Prelude\<close>: the shared vocabulary. Runes are \<open>nat\<close> code points,
    bytes \<open>8 word\<close>, float32 values their IEEE bit patterns \<open>32 word\<close>; Go's
    slice expression \<open>s[lo:hi]\<close> is \<open>go_slice\<close>; SQLite's \<open>ORDER BY ... DESC\<close>
    is the stable descending insertion sort \<open>sort_desc\<close> (SQLite leaves the order
    of ties open; every property below holds for any order of ties, as none of
    them depends on it).

  \<^item> \<^bold>\<open>Chunker\<close> (\<open>src/internal/chunker/chunker.go\<close>), theory \<open>Chunker\<close>: a
    pure function from decoded runes to a list of chunks. \<open>NewChunker\<close> is
    \<open>new_chunker\<close>, \<open>unicode.IsSpace\<close> is \<open>is_space\<close>, the two scans of
    \<open>findWordBoundary\<close> are \<open>last_space\<close> and \<open>skip_space\<close>, the function
    itself \<open>find_word_boundary\<close>, the main loop of \<open>ChunkText\<close> is
    \<open>chunk_loop\<close> and \<open>ChunkText\<close> is \<open>chunk_text\<close>. Positions are Go
    \<open>int\<close>s, so \<open>int\<close>; overflow is out of reach for texts that fit in memory.
    The main loop may run forever, so it takes fuel and returns \<open>None\<close> when the
    fuel runs out; the lemmas show that more fuel never changes a result and that
    the fuel model agrees with the relational run \<open>loop_run\<close>, that the loop
    returns exactly for configurations with
    \<open>overlap + min 100 chunkSize \<le> chunkSize\<close> (C1, C9) and never otherwise
    on a text that makes it stall (C8, a finding). The structure of the result:
    reconstruction of the text (C2), sizes and bounds (C3), indices (C4),
    coverage (C5), cuts after whitespace (C6), overlap (C7); \<open>NewChunker\<close>
    always returns a well-formed configuration.

  \<^item> \<^bold>\<open>Vector codec\<close> (\<open>serializeEmbedding\<close>, \<open>deserializeEmbedding\<close> of
    \<open>src/internal/storage/database.go\<close>), theory \<open>Codec\<close>: \<open>binary.Write\<close> and
    \<open>binary.Read\<close> in little-endian order over \<open>32 word\<close> values
    (\<open>put_uint32_le\<close>, \<open>uint32_le\<close>, \<open>decode_le32\<close>). Round trips both ways
    (C14, C15), the error values of short blobs, and the acceptance of
    over-long blobs (C16, a finding).

  \<^item> \<^bold>\<open>Document store\<close> (\<open>src/internal/storage/database.go\<close>), theory
    \<open>Store\<close>: the \<open>documents\<close> and \<open>chunks\<close> tables of \<open>runMigrations\<close> as row
    lists in rowid order in the record \<open>db\<close>, with the \<open>AUTOINCREMENT\<close> counters
    and the connection's \<open>foreign_keys\<close> pragma. \<open>NewDatabase\<close> is
    \<open>open_database\<close> (open, the sqlite-vec probe, \<open>runMigrations\<close>), with
    \<open>new_database\<close> the empty tables of a fresh file; \<open>IndexDocument\<close> is \<open>index_document\<close>, the transaction
    \<open>run_tx\<close> around \<open>index_body\<close> (delete, insert the document, insert each
    chunk); \<open>Search\<close> is \<open>search\<close> over the join \<open>search_candidates\<close>, with the
    SQLite \<open>LIMIT\<close> as \<open>sql_limit\<close>; \<open>ListDocuments\<close>, \<open>DeleteDocument\<close> and
    \<open>DocumentExists\<close> are \<open>list_documents\<close>, \<open>delete_document\<close> and
    \<open>document_exists\<close>. Which statements fail is a parameter \<open>fails\<close> of the
    environment (a write of the transaction, or a read query and its row
    scan), so every error return of the code is a branch of the model; the
    cosine distance of sqlite-vec is a parameter \<open>cos_dist\<close>. The contract is
    the abstraction \<open>view\<close>, a map from each source to its document and its chunks,
    with the schema invariant \<open>db_inv\<close>. Index and delete refine updates of the
    map (C18, C21); an error of index, from any statement of its transaction,
    leaves the database as it was, and index never trips the \<open>UNIQUE\<close>
    constraint (C20); every reachable state keeps the invariant (C23, by rule
    induction on \<open>store_reach\<close>). The cascade of the schema never runs because the
    pragma is never set, so chunk rows outlive their document (C24, a finding),
    yet search never returns them (C25, C26). Search ranks, limits and filters
    (C27), and applies \<open>minScore\<close> after the top-K limit, which on
    score-sorted rows is the same as applying it before (C32);
    a query of the wrong dimension is an error before any read.
    \<open>ListDocuments\<close> is a sorted permutation of the filtered rows; \<open>content_size\<close> counts
    UTF-8 bytes, not runes (C18, a finding). \<open>DeleteDocument\<close> keeps the
    code's check of the error of \<open>RowsAffected\<close> as a branch; go-sqlite3
    v1.14.18 never returns that error, so the environment of the deployed
    program has \<open>fails SRowsAffected = False\<close>, which the claims that need it
    assume.

  \<^item> \<^bold>\<open>Embedding gateway\<close> (package \<open>embeddings\<close>, the second file of
    \<open>src/internal/storage/database.go\<close>), theory \<open>Embeddings\<close>: \<open>Embed\<close> is
    \<open>embed_texts\<close> with its batch loop \<open>embed_loop\<close> (batches of \<open>maxBatchSize\<close>
    = 100, the cancellable pause between batches); \<open>embedBatch\<close> is \<open>embed_batch\<close>:
    the retry loop \<open>do_attempts\<close> (at most \<open>maxRetries\<close> = 3 attempts, backoff
    \<open>2^attempt\<close> seconds), \<open>handle_response\<close> (read, parse, API error, status) and the
    reassembly \<open>place\<close> and \<open>check_all\<close>. Both loops are bounded, so they are
    total \<open>function\<close>s with a \<open>measure\<close>. \<open>Client\<close> and \<open>NewClient\<close> are
    \<open>client\<close> and \<open>new_client\<close> (the API key). The provider and the context are
    the environment record \<open>embed_env\<close>. Order preservation for any reordering of
    the provider's items (C33), retry after rate limiting (C34), at most three
    requests per batch whatever the provider answers (C22), the read error
    after three 429s (C35, a finding), the panic on a negative index (C36, a
    finding), and the shape of every successful result (C37).

  \<^item> \<^bold>\<open>Search service\<close> (\<open>src/internal/search/search.go\<close>), theory
    \<open>Service\<close>: \<open>Search\<close>, \<open>Index\<close>, \<open>List\<close> and \<open>Delete\<close> are
    \<open>svc_search\<close>, \<open>svc_index\<close> (its validation and conflict check
    \<open>index_check\<close>, then chunk, embed and store \<open>index_store\<close>), \<open>svc_list\<close>
    and \<open>svc_delete\<close>, each calling the components' definitions. The file
    system, the fetcher, the statement failures and the clock are the
    environment record \<open>svc_env\<close>. \<open>ChunkText\<close> may not return, so
    \<open>svc_index\<close> takes the chunker's fuel and returns \<open>None\<close> when it runs out;
    results are monotone in the fuel. The dimension check of the store's
    search is unreachable from \<open>Search\<close>, whose query vector always has 1536
    floats (C31).

  \<^item> \<^bold>\<open>Tool handlers\<close> (\<open>src/pkg/server/tools.go\<close>, \<open>registerTools\<close> in
    \<open>src/pkg/server/types.go\<close>), theory \<open>Tools\<close>: the four handlers with their
    validation and defaults, the registered tools as the datatype \<open>tool_call\<close>
    with one dispatch \<open>handle_call\<close>, and a session \<open>run_calls\<close>: the calls
    served in order, each on the database the previous one left. Deleting an
    unknown source is a successful call whose response carries the not-found
    error (C11, a finding); every call that returns an error leaves the
    database unchanged (C19); the \<open>list_documents\<close> tool refines the view:
    each matching source once, with the stored fields, newest first (C28).

  \<^item> \<^bold>\<open>Configuration\<close> (\<open>src/internal/config/config.go\<close>), theory
    \<open>Config\<close>: \<open>LoadConfig\<close> is \<open>load_config\<close> over the process environment
    as a function from names to values (\<open>os.Getenv\<close>), with
    \<open>getEnvOrDefault\<close> and \<open>getEnvAsIntOrDefault\<close>; \<open>strconv.Atoi\<close> of the Go
    library is \<open>atoi\<close> (sign, decimal digits, \<open>int64\<close> range). An accepted
    configuration reaches \<open>NewChunker\<close> unchanged (C10); malformed numbers
    fall back to the defaults without an error (C12, a finding).

  \<^item> \<^bold>\<open>Content fetcher\<close> (\<open>src/internal/fetcher/fetcher.go\<close>), theory
    \<open>Fetcher\<close>: \<open>FetchURL\<close> is \<open>fetch_url\<close>, with \<open>isTextContent\<close>,
    \<open>extractHTMLText\<close> (the traversal \<open>traverse\<close> over the \<open>html.Node\<close> tree,
    with the text builder and the title as the explicit state
    \<open>extract_state\<close>) and \<open>normalizeWhitespace\<close>. The URL parser, the HTTP
    client and \<open>html.Parse\<close> are the environment \<open>fetch_env\<close>; the
    \<open>strings\<close> functions are definitions (\<open>trim_space\<close>, \<open>go_fields\<close>,
    \<open>go_join\<close>, \<open>contains\<close>). The traversal computes the visible text and the
    first title of the document (C13, against the reference
    \<open>visible_texts\<close> and \<open>first_title\<close>); normalisation is idempotent;
    what a successful fetch implies (C29); upper-case \<open>Text/HTML\<close> is returned
    raw (C30, a finding).

  \<^item> \<^bold>\<open>Process bootstrap\<close> (\<open>src/cmd/doc-search/main.go\<close>), theory
    \<open>Bootstrap\<close>: \<open>main\<close> is \<open>bootstrap\<close> (configuration, directory, database,
    chunker; each failure is the exit of \<open>log.Fatalf\<close>, a \<open>boot_error\<close>) and
    \<open>run_main\<close>, which serves a session of tool calls with the service whose
    environment \<open>service_env\<close> plugs \<open>fetch_url\<close> in as the fetcher and lets
    the provider answer as it does for the client's API key. The process
    environment \<open>boot_env\<close> holds the variables, the file system and the
    collaborators.

  \<^item> \<^bold>\<open>Running server\<close> (\<open>Service\<close>/\<open>NewService\<close> of
    \<open>src/internal/search/search.go\<close>, \<open>Server\<close>/\<open>NewServer\<close> of
    \<open>src/pkg/server/types.go\<close>), theory \<open>Server\<close>: the records \<open>service\<close>
    (database, embeddings client, chunker) and \<open>server\<close>, the inductive step
    relation \<open>server_step\<close> (one tool call that returns) and the reachable
    servers \<open>server_reach\<close> (started by \<open>main\<close>, then any steps). Every session
    \<open>run_main\<close> serves ends in a reachable server; tool calls write the
    database only through \<open>IndexDocument\<close> and \<open>DeleteDocument\<close>, so every
    reachable server keeps the schema invariant (C17, by rule induction).

  \<^item> \<^bold>\<open>Unit tests\<close> (the test files of the chunker, of the fetcher and of
    the embeddings client),
    theory \<open>Tests\<close>: each test function is a boolean definition over the
    model, true when the test reports no error; every test passes on the model
    (the chunker's with the fuel each needs, the HTML test with the trees
    \<open>html.Parse\<close> builds), a check of the model against the behaviour the
    repository expects.

  Properties across components, in this theory: indexing inline content through
  the \<open>index\<close> tool refines the view update with exactly the chunks of
  \<open>ChunkText\<close> paired in order with the vectors of \<open>Embed\<close> (C38); a server
  that has started answers every session exactly when its configuration lets
  the chunker advance, a bound \<open>LoadConfig\<close> does not enforce (C39, liveness
  and a finding); a conflicting index call fails before chunking and leaves the
  database unchanged (C40).

  Fuel: \<open>ChunkText\<close> is the only loop that may not end; its fuel is the number
  of chunks it may cut, and \<open>length + 1\<close> is enough whenever the configuration
  makes progress (each cut advances the position by at least one rune). The
  embedding loops and the HTML traversal are structurally or measurably
  bounded and are total functions.

  Not modelled: the MCP transport (\<open>mcp.StdioTransport\<close>, \<open>NewServer\<close>,
  \<open>Server.Run\<close> and \<open>Close\<close>), the JSON encoding of requests and responses and
  the formatted messages, logging, the signal handling of \<open>main\<close> (a session
  ends when its list of calls does), the client timeouts, the libraries behind
  the environments (HTTP, URL and HTML parsing, SQLite and sqlite-vec's cosine
  distance), and the non-Go files of the repository (documentation, build
  files).
\<close>


section \<open>Properties across components\<close>

text \<open>C38. Indexing inline content through the \<open>index\<close> tool stores, under the
  given source and nothing else, the chunks \<open>ChunkText\<close> cuts from the content,
  in order, each with the vector \<open>Embed\<close> returned at its position, and keeps the
  schema invariant.\<close>

theorem index_tool_refines_view:
  assumes "db_inv st" "handle_call fuel c env (CallIndex a) st = Some (Inr out, st')"
    "ia_file_path a = []" "ia_url a = []"
  shows "\<exists>chs es. chunk_text fuel c (ia_content a) = Some chs \<and>
           embed_texts (env_emb env) (map Content chs) = Inr es \<and> db_inv st' \<and>
           view st' = (view st)(ia_source a \<mapsto>
             (''content'', env_now env, int (sum_list (map (\<lambda>ch. utf8_len (Content ch)) chs)),
              int (length chs), '''',
              map2 (\<lambda>ch v. (Index ch, Content ch, StartOffset ch, EndOffset ch, serialize_embedding v)) chs es))"
proof -
  let ?req = "index_request_of a"
  obtain resp where si: "svc_index fuel c env ?req st = Some (Inr resp, st')"
    using handle_index_Inr [OF assms(2)] by blast
  obtain v where chk: "index_check env ?req st = Inr v"
    using si by (cases "index_check env ?req st") (simp_all add: svc_index_def)
  obtain cnt src sty ttl where v: "v = (cnt, src, sty, ttl)" by (cases v)
  have res: "cnt = ia_content a \<and> src = ia_source a \<and> sty = ''content'' \<and> ttl = ''''"
    using index_check_content [of env ?req st cnt src sty ttl] chk v assms(3,4) by simp
  have "index_store fuel c env cnt src sty ttl st = Some (Inr resp, st')"
    using si chk v by (simp add: svc_index_def)
  then obtain chs es where chs: "chunk_text fuel c cnt = Some chs"
    and es: "embed_texts (env_emb env) (map Content chs) = Inr es" and len: "length es = length chs"
    and idx: "index_document (env_fails env) (env_now env) src sty ttl (map2 storage_chunk_of chs es) st = (Inr (), st')"
    using index_store_Inr by blast
  let ?cs = "map2 storage_chunk_of chs es"
  have ok: "fst (index_document (env_fails env) (env_now env) src sty ttl ?cs st) = Inr ()" using idx by simp
  have st': "snd (index_document (env_fails env) (env_now env) src sty ttl ?cs st) = st'" using idx by simp
  have body: "index_body (env_fails env) (env_now env) src sty ttl ?cs st = Inr st'"
    using index_document_Inr [OF ok] st' by simp
  have inv: "db_inv st'" using index_body_inv [OF assms(1) body] .
  have vw: "view st' = (view st)(src \<mapsto> (sty, env_now env,
      int (sum_list (map (\<lambda>c. utf8_len (sc_content c)) ?cs)), int (length ?cs), ttl, map sc_view ?cs))"
    using view_index_body [OF assms(1) body] .
  have "map (\<lambda>c. utf8_len (sc_content c)) ?cs = map utf8_len (map sc_content ?cs)" by simp
  also have "\<dots> = map (\<lambda>ch. utf8_len (Content ch)) chs"
    using storage_chunks_content [of chs es] len by simp
  finally have sz: "map (\<lambda>c. utf8_len (sc_content c)) ?cs = map (\<lambda>ch. utf8_len (Content ch)) chs" .
  have ln: "length ?cs = length chs" using len by simp
  have vs: "map sc_view ?cs =
      map2 (\<lambda>ch v. (Index ch, Content ch, StartOffset ch, EndOffset ch, serialize_embedding v)) chs es"
    using storage_chunks_view [of chs es] len by simp
  have "view st' = (view st)(ia_source a \<mapsto>
             (''content'', env_now env, int (sum_list (map (\<lambda>ch. utf8_len (Content ch)) chs)),
              int (length chs), '''',
              map2 (\<lambda>ch v. (Index ch, Content ch, StartOffset ch, EndOffset ch, serialize_embedding v)) chs es))"
    using vw res unfolding sz ln vs by simp
  moreover have "chunk_text fuel c (ia_content a) = Some chs" using chs res by simp
  ultimately show ?thesis using es inv by blast
qed


theorem index_tool_refines_view_witness:
  "let env = \<lparr>env_emb = \<lparr>http_do = (\<lambda>i a ts. Response \<lparr>resp_status = 200,
                 resp_payload = Parsed (tagged (map (\<lambda>t. replicate 1536 0) ts)) None\<rparr>),
                 cancelled = (\<lambda>_. False)\<rparr>,
               env_fails = (\<lambda>_. False), env_read_file = (\<lambda>_. Inl ''''),
               env_fetch = (\<lambda>_. Inl ErrInvalidURL), env_now = 0, env_cos = (\<lambda>_ _. 0)\<rparr>;
       a = \<lparr>ia_file_path = [], ia_url = [], ia_content = [104, 105], ia_source = ''a'', ia_reindex = False\<rparr>
   in \<exists>out st' chs es. handle_call 3 (new_chunker 1000 100) env (CallIndex a) new_database = Some (Inr out, st') \<and>
        chunk_text 3 (new_chunker 1000 100) [104, 105] = Some chs \<and>
        embed_texts (env_emb env) (map Content chs) = Inr es \<and> db_inv st' \<and>
        view st' = (view new_database)(''a'' \<mapsto>
          (''content'', 0, int (sum_list (map (\<lambda>ch. utf8_len (Content ch)) chs)), int (length chs), '''',
           map2 (\<lambda>ch v. (Index ch, Content ch, StartOffset ch, EndOffset ch, serialize_embedding v)) chs es))"
proof -
  let ?env = "\<lparr>env_emb = \<lparr>http_do = (\<lambda>i a ts. Response \<lparr>resp_status = 200,
                 resp_payload = Parsed (tagged (map (\<lambda>t. replicate 1536 (0 :: f32)) ts)) None\<rparr>),
                 cancelled = (\<lambda>_. False)\<rparr>,
               env_fails = (\<lambda>_. False), env_read_file = (\<lambda>_. Inl ''''),
               env_fetch = (\<lambda>_. Inl ErrInvalidURL), env_now = 0, env_cos = (\<lambda>_ _. 0)\<rparr>"
  let ?a = "\<lparr>ia_file_path = [], ia_url = [], ia_content = [104, 105], ia_source = ''a'', ia_reindex = False\<rparr>"
  have "\<exists>out st'. handle_call 3 (new_chunker 1000 100) ?env (CallIndex ?a) new_database = Some (Inr out, st')"
    by (simp add: handle_call_def handle_index_def svc_index_def index_check_def source_count_def
                  resolve_source_def document_exists_def new_database_def index_store_def chunk_text_def
                  new_chunker_def embed_texts_def embed_loop_step embed_loop_stop embed_batch_def
                  do_attempts.simps handle_response_def tagged_def embedDimension_def maxBatchSize_def
                  go_slice_def index_document_def run_tx_def index_body_def insert_document_def
                  delete_source_def Let_def split: unit.split)
  then obtain out st' where h: "handle_call 3 (new_chunker 1000 100) ?env (CallIndex ?a) new_database = Some (Inr out, st')"
    by blast
  have i: "db_inv new_database" by (simp add: db_inv_def new_database_def)
  show ?thesis using index_tool_refines_view [OF i h] h unfolding Let_def by auto
qed


text \<open>C39. A server that starts answers every session exactly when its
  configuration lets the chunker advance: after \<open>main\<close> has loaded the
  configuration and opened the database, there is, for every list of tool
  calls, enough fuel for every call to return if and only if
  \<open>OVERLAP + min(100, CHUNK_SIZE) \<le> CHUNK_SIZE\<close>. \<open>LoadConfig\<close> accepts more than
  that (it only asks \<open>0 \<le> OVERLAP < CHUNK_SIZE\<close>): under an accepted
  configuration outside the bound, one index call hangs the server.\<close>

theorem boot_sessions_return_iff:
  assumes "bootstrap b = Inr (cfg, c, st)"
  shows "(\<forall>calls. \<exists>fuel. run_main fuel b calls \<noteq> Inr None) \<longleftrightarrow>
         cfg_overlap cfg + min 100 (cfg_chunk_size cfg) \<le> cfg_chunk_size cfg"
proof -
  have c: "c = \<lparr>chunkSize = cfg_chunk_size cfg, overlap = cfg_overlap cfg\<rparr>" and wf: "chunker_wf c"
    and l: "load_config (os_getenv b) = Inr cfg"
    using bootstrap_Inr [OF assms] by auto
  have p: "chunker_progress c \<longleftrightarrow> cfg_overlap cfg + min 100 (cfg_chunk_size cfg) \<le> cfg_chunk_size cfg"
    using load_config_Inr [OF l] unfolding c by (simp add: chunker_progress_def)
  show ?thesis
  proof
    assume all: "\<forall>calls. \<exists>fuel. run_main fuel b calls \<noteq> Inr None"
    show "cfg_overlap cfg + min 100 (cfg_chunk_size cfg) \<le> cfg_chunk_size cfg"
    proof (rule ccontr)
      assume "\<not> cfg_overlap cfg + min 100 (cfg_chunk_size cfg) \<le> cfg_chunk_size cfg"
      then have np: "\<not> chunker_progress c" using p by simp
      let ?a = "\<lparr>ia_file_path = [], ia_url = [], ia_content = stuck_text c, ia_source = ''s'', ia_reindex = True\<rparr>"
      obtain fuel where ne: "run_main fuel b [CallIndex ?a] \<noteq> Inr None" using all by blast
      have "handle_call fuel c (service_env b (new_client (cfg_api_key cfg))) (CallIndex ?a) st = None"
        by (rule stuck_index_call [OF wf np])
      then have "run_main fuel b [CallIndex ?a] = Inr None" by (simp add: run_main_Inr [OF assms])
      with ne show False by contradiction
    qed
  next
    assume "cfg_overlap cfg + min 100 (cfg_chunk_size cfg) \<le> cfg_chunk_size cfg"
    then have "chunker_progress c" using p by simp
    then show "\<forall>calls. \<exists>fuel. run_main fuel b calls \<noteq> Inr None"
      using run_calls_returns [of c "service_env b (new_client (cfg_api_key cfg))" _ st] by (fastforce simp: run_main_Inr [OF assms])
  qed
qed

theorem boot_sessions_return_iff_witness:
  "let b = \<lparr>os_getenv = (\<lambda>k. if k = ''OPENAI_API_KEY'' then ''sk'' else if k = ''CHUNK_SIZE'' then ''50''
                           else if k = ''OVERLAP'' then ''10'' else []),
            mkdir_fails = (\<lambda>_. False), db_file = (\<lambda>_. None), boot_fails = (\<lambda>_. False),
            boot_emb = (\<lambda>_. \<lparr>http_do = (\<lambda>i a ts. TransportError), cancelled = (\<lambda>_. False)\<rparr>),
            boot_read_file = (\<lambda>_. Inl []), boot_fetch = \<lparr>url_scheme = (\<lambda>_. None), request_ok = (\<lambda>_. True),
              http_get = (\<lambda>_. GetFailed), parse_html = (\<lambda>_. None)\<rparr>,
            boot_now = 0, boot_cos = (\<lambda>_ _. 0)\<rparr>;
       cfg = \<lparr>cfg_api_key = ''sk'', cfg_db_path = ''db_data/doc_search.db'', cfg_chunk_size = 50, cfg_overlap = 10\<rparr>
   in bootstrap b = Inr (cfg, \<lparr>chunkSize = 50, overlap = 10\<rparr>, new_database) \<and>
      \<not> (\<forall>calls. \<exists>fuel. run_main fuel b calls \<noteq> Inr None)"
proof -
  let ?b = "\<lparr>os_getenv = (\<lambda>k. if k = ''OPENAI_API_KEY'' then ''sk'' else if k = ''CHUNK_SIZE'' then ''50''
                           else if k = ''OVERLAP'' then ''10'' else []),
            mkdir_fails = (\<lambda>_. False), db_file = (\<lambda>_. None), boot_fails = (\<lambda>_. False),
            boot_emb = (\<lambda>_. \<lparr>http_do = (\<lambda>i a ts. TransportError), cancelled = (\<lambda>_. False)\<rparr>),
            boot_read_file = (\<lambda>_. Inl []), boot_fetch = \<lparr>url_scheme = (\<lambda>_. None), request_ok = (\<lambda>_. True),
              http_get = (\<lambda>_. GetFailed), parse_html = (\<lambda>_. None)\<rparr>,
            boot_now = 0, boot_cos = (\<lambda>_ _. 0)\<rparr>"
  let ?cfg = "\<lparr>cfg_api_key = ''sk'', cfg_db_path = ''db_data/doc_search.db'', cfg_chunk_size = 50, cfg_overlap = 10\<rparr>"
  have h: "bootstrap ?b = Inr (?cfg, \<lparr>chunkSize = 50, overlap = 10\<rparr>, new_database)"
    by (simp add: bootstrap_def load_config_def get_env_or_default_def get_env_as_int_or_default_def
                  atoi_def digits_value_def is_digit_def open_database_def new_chunker_def Let_def)
  have "\<not> (\<forall>calls. \<exists>fuel. run_main fuel ?b calls \<noteq> Inr None)"
    using boot_sessions_return_iff [OF h] by simp
  then show ?thesis using h unfolding Let_def by blast
qed

text \<open>C40. Indexing a source that is already indexed, without \<open>reindex\<close>, fails with
  the conflict error naming the source and leaves the database as it was; the
  check comes before chunking, so the call returns whatever the chunker
  configuration.\<close>

theorem index_tool_conflict:
  assumes "ia_file_path a = []" "ia_url a = []" "ia_content a \<noteq> []" "ia_source a \<noteq> []"
    "\<not> ia_reindex a" "document_exists (env_fails env) (ia_source a) st = Inr True"
  shows "handle_call fuel c env (CallIndex a) st =
           Some (Inl (ErrIndexingFailed (ErrAlreadyIndexed (ia_source a))), st)"
proof -
  have n: "source_count (ia_file_path a) (ia_url a) (ia_content a) (ia_source a) = 1"
    using assms(1-4) by (simp add: source_count_def)
  have "index_check env (index_request_of a) st = Inl (ErrAlreadyIndexed (ia_source a))"
    using n assms(1,2,5,6) by (intro index_check_conflict) (simp_all add: resolve_source_def)
  then show ?thesis using n by (simp add: handle_call_def handle_index_def svc_index_def)
qed

theorem index_tool_conflict_witness:
  "let st = snd (index_document (\<lambda>_. False) 0 ''a'' ''content'' ''''
              [\<lparr>sc_index = 0, sc_content = [104, 105], sc_start = 0, sc_end = 2, sc_embedding = []\<rparr>]
              new_database);
       env = \<lparr>env_emb = \<lparr>http_do = (\<lambda>i a ts. TransportError), cancelled = (\<lambda>_. False)\<rparr>,
               env_fails = (\<lambda>_. False), env_read_file = (\<lambda>_. Inl ''''),
               env_fetch = (\<lambda>_. Inl ErrInvalidURL), env_now = 0, env_cos = (\<lambda>_ _. 0)\<rparr>;
       a = \<lparr>ia_file_path = [], ia_url = [], ia_content = [120], ia_source = ''a'', ia_reindex = False\<rparr>
   in handle_call 0 (new_chunker 50 10) env (CallIndex a) st =
        Some (Inl (ErrIndexingFailed (ErrAlreadyIndexed ''a'')), st)"
proof -
  let ?st = "snd (index_document (\<lambda>_. False) 0 ''a'' ''content'' ''''
              [\<lparr>sc_index = 0, sc_content = [104, 105], sc_start = 0, sc_end = 2, sc_embedding = []\<rparr>]
              new_database)"
  let ?env = "\<lparr>env_emb = \<lparr>http_do = (\<lambda>i a ts. TransportError), cancelled = (\<lambda>_. False)\<rparr>,
               env_fails = (\<lambda>_. False), env_read_file = (\<lambda>_. Inl ''''),
               env_fetch = (\<lambda>_. Inl ErrInvalidURL), env_now = 0, env_cos = (\<lambda>_ _. 0)\<rparr> :: svc_env"
  let ?a = "\<lparr>ia_file_path = [], ia_url = [], ia_content = [120], ia_source = ''a'', ia_reindex = False\<rparr>"
  have e: "document_exists (\<lambda>_. False) ''a'' ?st = Inr True"
    by (simp add: document_exists_def index_document_def run_tx_def index_body_def insert_document_def
                  new_database_def delete_source_def Let_def)
  have "handle_call 0 (new_chunker 50 10) ?env (CallIndex ?a) ?st =
        Some (Inl (ErrIndexingFailed (ErrAlreadyIndexed (ia_source ?a))), ?st)"
    by (rule index_tool_conflict) (use e in simp_all)
  then show ?thesis unfolding Let_def by simp
qed

end
